(* ===== verification/Go_Float.thy ===== *)
theory Go_Float
  imports Complex_Main "HOL-Library.Log_Nat"
begin

text \<open>
  The part of IEEE 754 binary64 arithmetic the sources use: a finite \<open>float64\<close> is the rational
  number it denotes, and an operation rounds its exact result to 53 significant bits, ties to
  even (\<open>f64\<close>). Every value that occurs (replica counts, \<open>2^31\<close>, quotients of those and
  report confidences) lies far inside the exponent range, so overflow, underflow and NaN do not
  arise. The lemmas say that rounding is monotone against integers that fit 53 bits, which is
  all the clients need.
\<close>

type_synonym float64 = rat

definition ilog2 :: "rat \<Rightarrow> int" where
  "ilog2 x =
     (let (p, q) = quotient_of x;
          k = int (floorlog 2 (nat p)) - int (floorlog 2 (nat q))
      in if 2 powi k \<le> x then k else k - 1)"

definition round_half_even :: "rat \<Rightarrow> int" where
  "round_half_even y =
     (let f = \<lfloor>y\<rfloor>; r = y - of_int f
      in if r < 1 / 2 then f else if 1 / 2 < r then f + 1 else if even f then f else f + 1)"

definition f64 :: "rat \<Rightarrow> float64" where
  "f64 x =
     (if x = 0 then 0
      else let u = 2 powi (ilog2 \<bar>x\<bar> - 52) in sgn x * of_int (round_half_even (\<bar>x\<bar> / u)) * u)"

section \<open>Rounding to an integer\<close>

lemma round_half_even_ge: "of_int n \<le> y \<Longrightarrow> n \<le> round_half_even y"
proof -
  assume "of_int n \<le> y"
  then have "n \<le> \<lfloor>y\<rfloor>" by (simp add: le_floor_iff)
  then show ?thesis by (auto simp: round_half_even_def Let_def)
qed

lemma round_half_even_le:
  assumes "y \<le> of_int n"
  shows "round_half_even y \<le> n"
proof (cases "y = of_int n")
  case True
  then show ?thesis by (simp add: round_half_even_def)
next
  case False
  with assms have "y < of_int n" by simp
  then have "\<lfloor>y\<rfloor> < n" by (simp add: floor_less_iff)
  then show ?thesis by (auto simp: round_half_even_def Let_def)
qed

lemma round_half_even_nonneg: "0 \<le> y \<Longrightarrow> 0 \<le> round_half_even y"
  by (rule round_half_even_ge) simp

section \<open>The exponent\<close>

lemma bit_length_bounds:
  assumes "0 < n"
  shows "2 ^ (floorlog 2 n - 1) \<le> n" and "n < 2 ^ floorlog 2 n" and "1 \<le> floorlog 2 n"
proof -
  from floorlog_bounds [of n 2] assms
  show "2 ^ (floorlog 2 n - 1) \<le> n" and "n < 2 ^ floorlog 2 n" by auto
  from assms show "1 \<le> floorlog 2 n" by (simp add: floorlog_def)
qed

lemma powi_split: "2 powi (int a - int b) = (2 :: rat) ^ a / 2 ^ b"
  by (simp add: power_int_diff)

lemma ilog2_bounds:
  assumes "0 < (x :: rat)"
  shows "2 powi (ilog2 x) \<le> x" and "x < 2 powi (ilog2 x + 1)"
proof -
  obtain p q where pq: "quotient_of x = (p, q)" by force
  then have q: "0 < q" and x: "x = of_int p / of_int q"
    by (auto simp: quotient_of_denom_pos quotient_of_div)
  with assms have p: "0 < p" by (simp add: zero_less_divide_iff)
  define a b where "a = floorlog 2 (nat p)" and "b = floorlog 2 (nat q)"
  have pn: "of_int p = (of_nat (nat p) :: rat)" and qn: "of_int q = (of_nat (nat q) :: rat)"
    using p q by simp_all
  have pl: "(2 :: rat) ^ (a - 1) \<le> of_int p" and pu: "of_int p < (2 :: rat) ^ a" and a: "1 \<le> a"
    unfolding a_def pn using bit_length_bounds [of "nat p"] p
    by (metis of_nat_le_iff of_nat_less_iff of_nat_numeral of_nat_power zero_less_nat_eq)+
  have ql: "(2 :: rat) ^ (b - 1) \<le> of_int q" and qu: "of_int q < (2 :: rat) ^ b" and b: "1 \<le> b"
    unfolding b_def qn using bit_length_bounds [of "nat q"] q
    by (metis of_nat_le_iff of_nat_less_iff of_nat_numeral of_nat_power zero_less_nat_eq)+
  define k where "k = int a - int b"
  have q0: "(0 :: rat) < of_int q" using q by simp
  have up: "x < 2 powi (k + 1)"
  proof -
    have "x < 2 ^ a / of_int q" unfolding x using pu q0 by (simp add: divide_strict_right_mono)
    also have "\<dots> \<le> 2 ^ a / 2 ^ (b - 1)" using ql q0 by (intro divide_left_mono) (auto intro: mult_pos_pos)
    also have "\<dots> = 2 powi (k + 1)"
      using powi_split [of a "b - 1"] b unfolding k_def by (simp add: algebra_simps of_nat_diff)
    finally show ?thesis .
  qed
  have lo: "2 powi (k - 1) \<le> x"
  proof -
    have "2 powi (k - 1) = (2 :: rat) ^ (a - 1) / 2 ^ b"
      using powi_split [of "a - 1" b] a unfolding k_def by (simp add: algebra_simps of_nat_diff)
    also have "\<dots> \<le> of_int p / 2 ^ b" using pl by (intro divide_right_mono) auto
    also have "\<dots> \<le> of_int p / of_int q" using qu q0 p by (intro divide_left_mono) auto
    finally show ?thesis unfolding x .
  qed
  have il: "ilog2 x = (if 2 powi k \<le> x then k else k - 1)"
    by (simp add: ilog2_def pq Let_def k_def a_def b_def)
  show "2 powi (ilog2 x) \<le> x" using il lo by simp
  show "x < 2 powi (ilog2 x + 1)" using il up by auto
qed

section \<open>Rounding to 53 bits\<close>

lemma f64_pos: "0 < x \<Longrightarrow>
    f64 x = of_int (round_half_even (x / 2 powi (ilog2 x - 52))) * 2 powi (ilog2 x - 52)"
  by (simp add: f64_def Let_def)

lemma f64_0 [simp]: "f64 0 = 0"
  by (simp add: f64_def)

lemma f64_nonneg: "0 \<le> x \<Longrightarrow> 0 \<le> f64 x"
  by (cases "x = 0") (auto simp: f64_pos round_half_even_nonneg)

lemma powi_nonneg_int: "0 \<le> e \<Longrightarrow> 2 powi e = (of_int (2 ^ nat e) :: rat)"
  by (simp add: power_int_def)

text \<open>An integer of at most 53 bits below (above) the exact value stays below (above).\<close>

lemma f64_ge_int:
  assumes "0 < k" and "k \<le> 2 ^ 53" and "of_int k \<le> x"
  shows "of_int k \<le> f64 x"
proof -
  have x0: "0 < x" using assms by (meson less_le_trans of_int_0_less_iff)
  define s where "s = ilog2 x - 52"
  have u0: "(0 :: rat) < 2 powi s" by simp
  show ?thesis
  proof (cases "s \<le> 0")
    case True
    define m where "m = k * 2 ^ nat (- s)"
    have sc: "of_int m = of_int k / (2 powi s :: rat)"
      using True powi_nonneg_int [of "- s"] by (simp add: m_def power_int_minus field_simps)
    have "of_int m \<le> x / 2 powi s" unfolding sc using assms(3) u0 by (intro divide_right_mono) auto
    then have "m \<le> round_half_even (x / 2 powi s)" by (rule round_half_even_ge)
    then have "of_int m * 2 powi s \<le> of_int (round_half_even (x / 2 powi s)) * (2 powi s :: rat)"
      using u0 by (intro mult_right_mono) auto
    then show ?thesis using sc u0 x0 by (simp add: f64_pos s_def [symmetric])
  next
    case False
    have "2 powi (52 + s) \<le> x" using ilog2_bounds(1) [OF x0] by (simp add: s_def)
    then have "2 powi 52 \<le> x / 2 powi s" using u0 by (simp add: power_int_add field_simps)
    then have "of_int (2 ^ 52) \<le> x / 2 powi s" by simp
    then have "2 ^ 52 \<le> round_half_even (x / 2 powi s)" by (rule round_half_even_ge)
    then have m: "(2 :: rat) ^ 52 \<le> of_int (round_half_even (x / 2 powi s))"
      by (metis of_int_le_iff of_int_numeral of_int_power)
    have "(2 :: rat) \<le> 2 powi s" using False power_int_increasing [of 1 s "2 :: rat"] by simp
    with m have "(2 :: rat) ^ 52 * 2 \<le> of_int (round_half_even (x / 2 powi s)) * 2 powi s"
      by (intro mult_mono) auto
    moreover have "(of_int k :: rat) \<le> 2 ^ 52 * 2" using assms(2)
      by (metis (mono_tags, lifting) of_int_le_iff of_int_numeral of_int_power power_Suc2 eval_nat_numeral(3))
    ultimately show ?thesis using x0 by (simp add: f64_pos s_def [symmetric])
  qed
qed

lemma f64_le_int:
  assumes "0 < x" and "x \<le> of_int k" and "k < 2 ^ 53"
  shows "f64 x \<le> of_int k"
proof -
  define s where "s = ilog2 x - 52"
  have u0: "(0 :: rat) < 2 powi s" by simp
  have "s \<le> 0"
  proof (rule ccontr)
    assume "\<not> s \<le> 0"
    then have "(2 :: rat) powi 53 \<le> 2 powi (52 + s)" by (intro power_int_increasing) auto
    also have "\<dots> \<le> x" using ilog2_bounds(1) [OF assms(1)] by (simp add: s_def)
    also have "\<dots> \<le> of_int k" by (rule assms(2))
    also have "\<dots> < of_int (2 ^ 53)" using assms(3) by (simp only: of_int_less_iff)
    finally show False by simp
  qed
  define m where "m = k * 2 ^ nat (- s)"
  have sc: "of_int m = of_int k / (2 powi s :: rat)"
    using \<open>s \<le> 0\<close> powi_nonneg_int [of "- s"] by (simp add: m_def power_int_minus field_simps)
  have "x / 2 powi s \<le> of_int m" unfolding sc using assms(2) u0 by (intro divide_right_mono) auto
  then have "round_half_even (x / 2 powi s) \<le> m" by (rule round_half_even_le)
  then have "of_int (round_half_even (x / 2 powi s)) * (2 powi s :: rat) \<le> of_int m * 2 powi s"
    using u0 by (intro mult_right_mono) auto
  then show ?thesis using sc u0 assms(1) by (simp add: f64_pos s_def [symmetric])
qed

lemma f64_int: "0 \<le> k \<Longrightarrow> k < 2 ^ 53 \<Longrightarrow> f64 (of_int k) = of_int k"
  by (cases "k = 0") (auto intro!: antisym f64_ge_int f64_le_int)

lemma round_half_even_upper: "of_int (round_half_even y) \<le> y + 1"
  by (auto simp: round_half_even_def Let_def) linarith+

lemma f64_upper:
  assumes "0 < x"
  shows "f64 x \<le> x + x / 2 ^ 52"
proof -
  define u :: rat where "u = 2 powi (ilog2 x - 52)"
  have u: "0 < u" by (simp add: u_def)
  have "2 powi ilog2 x = u * 2 ^ 52" by (simp add: u_def power_int_diff)
  then have "u \<le> x / 2 ^ 52" using ilog2_bounds(1) [OF assms] by (simp add: field_simps)
  moreover have "of_int (round_half_even (x / u)) * u \<le> (x / u + 1) * u"
    using round_half_even_upper [of "x / u"] u by (intro mult_right_mono) simp_all
  moreover have "(x / u + 1) * u = x + u" using u by (simp add: field_simps)
  moreover have "f64 x = of_int (round_half_even (x / u)) * u" unfolding u_def by (rule f64_pos [OF assms])
  ultimately show ?thesis by linarith
qed

end
