(* ===== verification/Go_Prelude.thy ===== *)
theory Go_Prelude
  imports
    Main
    "HOL-Library.Word"
    "HOL-Library.Multiset"
    "HOL-Library.Char_ord"
    "HOL-Library.List_Lexorder"
    "HOL-Library.Sublist"
    Go_Float
begin

text \<open>
  What the controller's Go code uses of the language and its standard library, and the
  generic lemmas the component theories share:
  \<^item> \<open>int\<close> and \<open>time.Duration\<close> are 64-bit two's complement values: integers with the
    wrap-around written out (\<open>wrap64\<close>); \<open>time.Time\<close> is a number of nanoseconds and
    \<open>Time.Sub\<close> saturates (\<open>time_Sub\<close>), as package \<open>time\<close> documents;
  \<^item> strings are byte strings (\<open>string\<close>, one \<open>char\<close> per byte); \<open>fmt.Sprintf\<close> verbs
    \<open>%d\<close>, \<open>%x\<close>, \<open>%q\<close> and \<open>%s\<close> of a duration, and the functions of package
    \<open>strings\<close> the sources call, are defined here;
  \<^item> a Go map that the code ranges over is an association list with distinct keys, and
    the unspecified iteration order is a parameter of the operation that ranges
    (\<open>range_order\<close>);
  \<^item> an operation that may fail returns \<open>'e + 'a\<close>, \<open>Inl\<close> being the error.
\<close>

named_theorems go_defs \<open>definitions of the Go runtime layer\<close>
named_theorems go_bounds \<open>range facts about wrapped and saturated integers\<close>
named_theorems map_laws \<open>lookup laws of Go maps as association lists\<close>

section \<open>Machine integers, time and durations\<close>

type_synonym goint = int
type_synonym gotime = int
type_synonym duration = int
type_synonym byte = "8 word"

definition max_int64 :: int where
  "max_int64 = 9223372036854775807"

definition min_int64 :: int where
  "min_int64 = - 9223372036854775808"

definition wrap64 :: "int \<Rightarrow> int" where
  "wrap64 x = (x + 9223372036854775808) mod 18446744073709551616 - 9223372036854775808"

definition int64 :: "int \<Rightarrow> bool" where
  "int64 x \<longleftrightarrow> min_int64 \<le> x \<and> x \<le> max_int64"

definition time_Sub :: "gotime \<Rightarrow> gotime \<Rightarrow> duration" where
  "time_Sub t u = max min_int64 (min max_int64 (t - u))"

definition nanosecond :: duration where "nanosecond = 1"
definition second :: duration where "second = 1000000000"
definition minute :: duration where "minute = 60000000000"
definition hour :: duration where "hour = 3600000000000"

lemmas int64_defs [go_defs] = max_int64_def min_int64_def wrap64_def int64_def time_Sub_def
lemmas duration_defs [go_defs] = nanosecond_def second_def minute_def hour_def

lemma wrap64_id [simp, go_bounds]: "int64 x \<Longrightarrow> wrap64 x = x"
  by (simp add: int64_defs)

lemma wrap64_once:
  assumes "9223372036854775808 \<le> x" "x < 27670116110564327424"
  shows "wrap64 x = x - 18446744073709551616"
proof -
  have "(x + 9223372036854775808) mod 18446744073709551616 =
      (x + 9223372036854775808 - 18446744073709551616) mod 18446744073709551616"
    by (simp only: minus_mod_self2)
  also have "\<dots> = x + 9223372036854775808 - 18446744073709551616"
    by (rule mod_pos_pos_trivial) (use assms in simp_all)
  finally show ?thesis by (simp add: wrap64_def)
qed

lemma wrap64_in_range [simp, go_bounds]: "int64 (wrap64 x)"
proof -
  have "0 \<le> (x + 9223372036854775808) mod 18446744073709551616"
    and "(x + 9223372036854775808) mod 18446744073709551616 < 18446744073709551616"
    by simp_all
  then show ?thesis unfolding int64_defs by linarith
qed

lemma time_Sub_in_range [simp, go_bounds]: "int64 (time_Sub t u)"
  by (simp add: int64_defs)

lemma time_Sub_mono: "t \<le> t' \<Longrightarrow> u' \<le> u \<Longrightarrow> time_Sub t u \<le> time_Sub t' u'"
  by (simp add: time_Sub_def max_def min_def)

lemma time_Sub_less_iff [go_bounds]:
  "int64 d \<Longrightarrow> time_Sub t u < d \<longleftrightarrow> t - u < d \<and> min_int64 < d"
  by (auto simp: int64_defs)

lemma time_Sub_le_iff [go_bounds]:
  "int64 d \<Longrightarrow> d < max_int64 \<Longrightarrow> time_Sub t u \<le> d \<longleftrightarrow> t - u \<le> d"
  by (auto simp: int64_defs)

section \<open>Formatting\<close>

definition digit_char :: "nat \<Rightarrow> char" where
  "digit_char d = char_of (48 + d)"

fun show_nat :: "nat \<Rightarrow> string" where
  "show_nat n = (if n < 10 then [digit_char n] else show_nat (n div 10) @ [digit_char (n mod 10)])"

declare show_nat.simps [simp del]

definition show_int :: "int \<Rightarrow> string" where
  "show_int i = (if i < 0 then ''-'' @ show_nat (nat (- i)) else show_nat (nat i))"

definition hex_digit :: "nat \<Rightarrow> char" where
  "hex_digit d = (if d < 10 then char_of (48 + d) else char_of (87 + d))"

definition hex_byte :: "byte \<Rightarrow> string" where
  "hex_byte b = [hex_digit (unat b div 16), hex_digit (unat b mod 16)]"

definition hex_bytes :: "byte list \<Rightarrow> string" where
  "hex_bytes bs = concat (map hex_byte bs)"

lemma length_hex_bytes [simp]: "length (hex_bytes bs) = 2 * length bs"
  by (induction bs) (simp_all add: hex_bytes_def hex_byte_def)

text \<open>
  The verb \<open>%q\<close> (\<open>strconv.Quote\<close>): printable ASCII is kept, the quote and the backslash
  are escaped, control characters get their short escape or \<open>\xNN\<close>. A byte of
  a multi-byte rune is written \<open>\xNN\<close>, which is what Quote does for bytes that are not a
  printable UTF-8 sequence; the quoted names are Kubernetes names, which are ASCII.
\<close>

definition quote_char :: "char \<Rightarrow> string" where
  "quote_char c = (let n = (of_char c :: nat) in
     if n = 34 then [CHR 0x5C, CHR 0x22]
     else if n = 92 then [CHR 0x5C, CHR 0x5C]
     else if n = 7 then [CHR 0x5C, CHR ''a'']
     else if n = 8 then [CHR 0x5C, CHR ''b'']
     else if n = 12 then [CHR 0x5C, CHR ''f'']
     else if n = 10 then [CHR 0x5C, CHR ''n'']
     else if n = 13 then [CHR 0x5C, CHR ''r'']
     else if n = 9 then [CHR 0x5C, CHR ''t'']
     else if n = 11 then [CHR 0x5C, CHR ''v'']
     else if 32 \<le> n \<and> n < 127 then [c]
     else [CHR 0x5C, CHR ''x'', hex_digit (n div 16), hex_digit (n mod 16)])"

definition go_quote :: "string \<Rightarrow> string" where
  "go_quote s = [CHR 0x22] @ concat (map quote_char s) @ [CHR 0x22]"

text \<open>
  \<open>Duration.Round(m)\<close> for a positive \<open>m\<close>: half away from zero, saturating;
  \<open>Duration.String\<close>: \<open>1h2m3.5s\<close> from a second upwards, \<open>ms\<close>, \<open>us\<close> (with the micro sign)
  or \<open>ns\<close> below. A fraction drops its trailing zeros.
\<close>

definition trunc_div :: "int \<Rightarrow> int \<Rightarrow> int" where
  "trunc_div a b = sgn a * sgn b * (\<bar>a\<bar> div \<bar>b\<bar>)"

definition trunc_mod :: "int \<Rightarrow> int \<Rightarrow> int" where
  "trunc_mod a b = a - trunc_div a b * b"

definition duration_Round :: "duration \<Rightarrow> duration \<Rightarrow> duration" where
  "duration_Round d m =
     (if m \<le> 0 then d
      else let r = trunc_mod d m in
        if d < 0
        then (let r' = - r in
               if r' + r' < m then d + r'
               else let d1 = d - m + r' in if min_int64 \<le> d1 then d1 else min_int64)
        else (if r + r < m then d - r
              else let d1 = d + m - r in if d1 \<le> max_int64 then d1 else max_int64))"

definition pad_left :: "nat \<Rightarrow> string \<Rightarrow> string" where
  "pad_left n s = replicate (n - length s) (CHR ''0'') @ s"

definition frac_string :: "nat \<Rightarrow> nat \<Rightarrow> string" where
  "frac_string v prec =
     (let ds = rev (dropWhile (\<lambda>c. c = CHR ''0'') (rev (pad_left prec (show_nat v))))
      in if ds = [] then [] else CHR ''.'' # ds)"

definition duration_String :: "duration \<Rightarrow> string" where
  "duration_String d =
     (let u = nat \<bar>d\<bar>; sign = (if d < 0 then ''-'' else '''') in
      if u = 0 then ''0s''
      else if u < 1000 then sign @ show_nat u @ ''ns''
      else if u < 1000000
        then sign @ show_nat (u div 1000) @ frac_string (u mod 1000) 3 @ [CHR 0xC2, CHR 0xB5] @ ''s''
      else if u < 1000000000
        then sign @ show_nat (u div 1000000) @ frac_string (u mod 1000000) 6 @ ''ms''
      else
        (let secs = u div 1000000000; frac = frac_string (u mod 1000000000) 9;
             s = show_nat (secs mod 60) @ frac @ ''s'';
             m = (secs div 60) mod 60; h = secs div 3600
         in sign @ (if h > 0 then show_nat h @ ''h'' @ show_nat m @ ''m'' @ s
                    else if m > 0 then show_nat m @ ''m'' @ s
                    else s)))"

section \<open>Package strings\<close>

fun has_prefix :: "string \<Rightarrow> string \<Rightarrow> bool" where
  "has_prefix s [] = True"
| "has_prefix [] (p # ps) = False"
| "has_prefix (c # cs) (p # ps) = (c = p \<and> has_prefix cs ps)"

definition has_suffix :: "string \<Rightarrow> string \<Rightarrow> bool" where
  "has_suffix s p = has_prefix (rev s) (rev p)"

lemma has_prefix_iff: "has_prefix s p \<longleftrightarrow> (\<exists>r. s = p @ r)"
  by (induction s p rule: has_prefix.induct) auto

fun split_char :: "char \<Rightarrow> string \<Rightarrow> string list" where
  "split_char sep [] = [[]]"
| "split_char sep (c # cs) =
     (if c = sep then [] # split_char sep cs
      else case split_char sep cs of [] \<Rightarrow> [[c]] | w # ws \<Rightarrow> (c # w) # ws)"

fun join :: "string \<Rightarrow> string list \<Rightarrow> string" where
  "join sep [] = []"
| "join sep [w] = w"
| "join sep (w # v # ws) = w @ sep @ join sep (v # ws)"

lemma split_char_nonempty [simp]: "split_char sep s \<noteq> []"
  by (induction s) (auto split: list.splits)

lemma join_split_char [simp]: "join [sep] (split_char sep s) = s"
proof (induction s)
  case Nil
  show ?case by simp
next
  case (Cons c cs)
  then obtain w ws where *: "split_char sep cs = w # ws"
    by (cases "split_char sep cs") auto
  with Cons show ?case by (cases ws) auto
qed

lemma sep_not_in_split_char: "w \<in> set (split_char sep s) \<Longrightarrow> sep \<notin> set w"
  by (induction s arbitrary: w) (auto split: list.splits if_splits)

text \<open>The UTF-8 encodings of the code points \<open>unicode.IsSpace\<close> accepts.\<close>

definition space_encodings :: "string list" where
  "space_encodings =
     [[CHR 0x09], [CHR 0x0A], [CHR 0x0B], [CHR 0x0C], [CHR 0x0D], [CHR 0x20],
      [CHR 0xC2, CHR 0x85], [CHR 0xC2, CHR 0xA0], [CHR 0xE1, CHR 0x9A, CHR 0x80],
      [CHR 0xE2, CHR 0x80, CHR 0x80], [CHR 0xE2, CHR 0x80, CHR 0x81],
      [CHR 0xE2, CHR 0x80, CHR 0x82], [CHR 0xE2, CHR 0x80, CHR 0x83],
      [CHR 0xE2, CHR 0x80, CHR 0x84], [CHR 0xE2, CHR 0x80, CHR 0x85],
      [CHR 0xE2, CHR 0x80, CHR 0x86], [CHR 0xE2, CHR 0x80, CHR 0x87],
      [CHR 0xE2, CHR 0x80, CHR 0x88], [CHR 0xE2, CHR 0x80, CHR 0x89],
      [CHR 0xE2, CHR 0x80, CHR 0x8A], [CHR 0xE2, CHR 0x80, CHR 0xA8],
      [CHR 0xE2, CHR 0x80, CHR 0xA9], [CHR 0xE2, CHR 0x80, CHR 0xAF],
      [CHR 0xE2, CHR 0x81, CHR 0x9F], [CHR 0xE3, CHR 0x80, CHR 0x80]]"

fun strip_with :: "string list \<Rightarrow> nat \<Rightarrow> string \<Rightarrow> string" where
  "strip_with encs 0 s = s"
| "strip_with encs (Suc n) s =
     (case filter (has_prefix s) encs of [] \<Rightarrow> s | e # _ \<Rightarrow> strip_with encs n (drop (length e) s))"

definition trim_left :: "string \<Rightarrow> string" where
  "trim_left s = strip_with space_encodings (length s) s"

definition trim_right :: "string \<Rightarrow> string" where
  "trim_right s = rev (strip_with (map rev space_encodings) (length s) (rev s))"

definition trim_space :: "string \<Rightarrow> string" where
  "trim_space s = trim_right (trim_left s)"

definition lower_char :: "char \<Rightarrow> char" where
  "lower_char c = (let n = (of_char c :: nat) in if 65 \<le> n \<and> n \<le> 90 then char_of (n + 32) else c)"

definition equal_fold_ascii :: "string \<Rightarrow> string \<Rightarrow> bool" where
  "equal_fold_ascii s t = (map lower_char s = map lower_char t)"

text \<open>\<open>strings.LastIndex(s, sep)\<close> for a one-byte separator, -1 where it does not occur.\<close>

fun last_index_aux :: "char \<Rightarrow> string \<Rightarrow> int \<Rightarrow> int \<Rightarrow> int" where
  "last_index_aux c [] i found = found"
| "last_index_aux c (x # xs) i found = last_index_aux c xs (i + 1) (if x = c then i else found)"

definition last_index :: "string \<Rightarrow> char \<Rightarrow> int" where
  "last_index s c = last_index_aux c s 0 (- 1)"

section \<open>Maps\<close>

type_synonym labels = "(string \<times> string) list"

fun map_put :: "'k \<Rightarrow> 'v \<Rightarrow> ('k \<times> 'v) list \<Rightarrow> ('k \<times> 'v) list" where
  "map_put k v [] = [(k, v)]"
| "map_put k v ((k', v') # m) = (if k = k' then (k, v) # m else (k', v') # map_put k v m)"

definition map_get :: "('k \<times> 'v) list \<Rightarrow> 'v \<Rightarrow> 'k \<Rightarrow> 'v" where
  "map_get m zero k = (case map_of m k of Some v \<Rightarrow> v | None \<Rightarrow> zero)"

definition map_append :: "'k \<Rightarrow> 'v \<Rightarrow> ('k \<times> 'v list) list \<Rightarrow> ('k \<times> 'v list) list" where
  "map_append k v m = map_put k (map_get m [] k @ [v]) m"

definition map_delete :: "'k \<Rightarrow> ('k \<times> 'v) list \<Rightarrow> ('k \<times> 'v) list" where
  "map_delete k m = filter (\<lambda>e. fst e \<noteq> k) m"

abbreviation has_key :: "('k \<times> 'v) list \<Rightarrow> 'k \<Rightarrow> bool" where
  "has_key m k \<equiv> map_of m k \<noteq> None"

lemma map_of_put [simp, map_laws]: "map_of (map_put k v m) = (map_of m)(k \<mapsto> v)"
  by (induction m) (auto simp: fun_eq_iff)

lemma map_of_delete [simp, map_laws]: "map_of (map_delete k m) = (map_of m)(k := None)"
  by (induction m) (auto simp: map_delete_def fun_eq_iff)

lemma keys_put [simp, map_laws]: "fst ` set (map_put k v m) = insert k (fst ` set m)"
  by (induction k v m rule: map_put.induct) (simp_all add: insert_commute)

lemma keys_put_present: "k \<in> fst ` set m \<Longrightarrow> map fst (map_put k v m) = map fst m"
  by (induction k v m rule: map_put.induct) auto

lemma distinct_put [simp, map_laws]:
  "distinct (map fst m) \<Longrightarrow> distinct (map fst (map_put k v m))"
proof (induction m)
  case (Cons e m)
  obtain k' v' where e: "e = (k', v')" by (cases e)
  have "k' \<in> fst ` set (map_put k v m) \<longleftrightarrow> k' = k \<or> k' \<in> fst ` set m" by auto
  with Cons e show ?case by auto
qed simp

lemma distinct_delete [simp, map_laws]:
  "distinct (map fst m) \<Longrightarrow> distinct (map fst (map_delete k m))"
  by (induction m) (auto simp: map_delete_def)

lemma distinct_append [simp, map_laws]:
  "distinct (map fst m) \<Longrightarrow> distinct (map fst (map_append k v m))"
  by (simp add: map_append_def)

lemma map_get_append [simp, map_laws]:
  "map_get (map_append k v m) [] k' = (if k' = k then map_get m [] k @ [v] else map_get m [] k')"
  by (simp add: map_append_def map_get_def)

lemma map_of_filter_value:
  "distinct (map fst m) \<Longrightarrow>
   map_of (filter (\<lambda>e. P (snd e)) m) k =
     (case map_of m k of Some v \<Rightarrow> if P v then Some v else None | None \<Rightarrow> None)"
  by (induction m) (auto split: option.splits dest: map_of_SomeD intro: rev_image_eqI)

declare map_of_eq_Some_iff [simp del]

text \<open>
  A \<open>range\<close> over a map: the order of the keys is a parameter, of which the theorems assume only that
  it permutes them.
\<close>

definition range_map :: "('k list \<Rightarrow> 'k list) \<Rightarrow> ('k \<times> 'v) list \<Rightarrow> ('k \<times> 'v) list" where
  "range_map ord m = List.map_filter (\<lambda>k. map_option (Pair k) (map_of m k)) (ord (map fst m))"

definition permuting :: "('k list \<Rightarrow> 'k list) \<Rightarrow> bool" where
  "permuting ord \<longleftrightarrow> (\<forall>ks. mset (ord ks) = mset ks)"

lemma range_map_keys:
  assumes "permuting ord" "distinct (map fst m)"
  shows "mset (map fst (range_map ord m)) = mset (map fst m)" "set (range_map ord m) = set m"
proof -
  let ?f = "\<lambda>k. map_option (Pair k) (map_of m k)"
  have keys: "set (ord (map fst m)) = fst ` set m"
    using assms(1) unfolding permuting_def by (metis set_map set_mset_mset)
  have all: "\<forall>k \<in> set ks. map_of m k \<noteq> None \<Longrightarrow> map fst (List.map_filter ?f ks) = ks" for ks
    by (induction ks) auto
  have "\<forall>k \<in> set (ord (map fst m)). map_of m k \<noteq> None"
    unfolding keys by (auto simp: map_of_eq_None_iff)
  from all [OF this] assms(1) show "mset (map fst (range_map ord m)) = mset (map fst m)"
    by (simp add: range_map_def permuting_def)
  have "set (List.map_filter ?f ks) = {(k, v). k \<in> set ks \<and> map_of m k = Some v}" for ks
    by (induction ks) (auto split: option.splits)
  then show "set (range_map ord m) = set m"
    using assms(2) keys by (auto simp: range_map_def intro: rev_image_eqI)
qed

lemma range_map_distinct:
  "permuting ord \<Longrightarrow> distinct (map fst m) \<Longrightarrow> distinct (map fst (range_map ord m))"
  using range_map_keys(1) [of ord m] mset_eq_imp_distinct_iff by blast

lemma range_map_has_key: "(k, v) \<in> set (range_map ord m) \<Longrightarrow> map_of m k = Some v"
  by (auto simp: range_map_def List.map_filter_def split: option.splits)

lemma range_map_Nil [simp]: "range_map ord [] = []"
  by (simp add: range_map_def List.map_filter_def)

section \<open>Lists\<close>

lemma foldl_invariant:
  "P a \<Longrightarrow> (\<And>s x. P s \<Longrightarrow> x \<in> set xs \<Longrightarrow> P (f s x)) \<Longrightarrow> P (foldl f a xs)"
  by (induction xs arbitrary: a) auto

lemma mset_filter_partition:
  "mset (filter P xs) + mset (filter (\<lambda>x. \<not> P x) xs) = mset xs"
  by simp

lemma sum_mset_filter_union:
  "mset (filter P xs) + mset (filter (\<lambda>x. \<not> P x \<and> Q x) xs) = mset (filter (\<lambda>x. P x \<or> Q x) xs)"
  by (induction xs) auto

lemma filter_partition_key:
  "i \<notin> set is \<Longrightarrow> filter_mset (\<lambda>x. f x = i) M + filter_mset (\<lambda>x. f x \<in> set is) M =
     filter_mset (\<lambda>x. f x = i \<or> f x \<in> set is) M"
  by (induction M) auto

lemma mset_distinct_subset:
  assumes "mset xs \<subseteq># mset ys" "distinct ys"
  shows "distinct xs"
  unfolding distinct_count_atmost_1
proof
  fix a
  have "count (mset ys) a \<le> 1" using assms(2) by (simp add: distinct_count_atmost_1)
  then have "count (mset xs) a \<le> 1" using mset_subset_eq_count [OF assms(1), of a] by linarith
  then show "count (mset xs) a = (if a \<in> set xs then 1 else 0)"
    using count_greater_zero_iff [of "mset xs" a] by (auto simp del: count_greater_zero_iff simp: count_eq_zero_iff)
qed

lemma length_filter_mono_impl:
  "(\<And>x. x \<in> set xs \<Longrightarrow> P x \<Longrightarrow> Q x) \<Longrightarrow> length (filter P xs) \<le> length (filter Q xs)"
  by (induction xs) (auto simp: le_SucI)

lemma sorted_sort_strings [simp]: "sorted (sort (xs :: string list))"
  by simp

lemma take_split_at:
  assumes "a < b" "b < length xs"
  shows "take b xs = take a xs @ xs ! a # take (b - Suc a) (drop (Suc a) xs)"
proof -
  have "take b xs = take a (take b xs) @ take b xs ! a # drop (Suc a) (take b xs)"
    by (rule id_take_nth_drop) (use assms in simp)
  then show ?thesis using assms by (simp add: drop_take min_def)
qed

section \<open>Sequences of operations\<close>

text \<open>
  The state after a sequence of calls of an operation, and the results of the calls in order.
\<close>

primrec run_state :: "('s \<Rightarrow> 'c \<Rightarrow> 's \<times> 'o) \<Rightarrow> 's \<Rightarrow> 'c list \<Rightarrow> 's" where
  "run_state f s [] = s"
| "run_state f s (c # cs) = run_state f (fst (f s c)) cs"

primrec run_outputs :: "('s \<Rightarrow> 'c \<Rightarrow> 's \<times> 'o) \<Rightarrow> 's \<Rightarrow> 'c list \<Rightarrow> 'o list" where
  "run_outputs f s [] = []"
| "run_outputs f s (c # cs) = snd (f s c) # run_outputs f (fst (f s c)) cs"

lemma length_run_outputs [simp]: "length (run_outputs f s cs) = length cs"
  by (induction cs arbitrary: s) auto

lemma run_state_append [simp]:
  "run_state f s (cs @ ds) = run_state f (run_state f s cs) ds"
  by (induction cs arbitrary: s) auto

lemma run_outputs_append [simp]:
  "run_outputs f s (cs @ ds) = run_outputs f s cs @ run_outputs f (run_state f s cs) ds"
  by (induction cs arbitrary: s) auto

lemma run_outputs_nth:
  "i < length cs \<Longrightarrow> run_outputs f s cs ! i = snd (f (run_state f s (take i cs)) (cs ! i))"
  by (induction cs arbitrary: s i) (auto simp: nth_Cons split: nat.splits)

lemma run_state_invariant:
  "P s \<Longrightarrow> (\<And>s c. P s \<Longrightarrow> c \<in> set cs \<Longrightarrow> P (fst (f s c))) \<Longrightarrow> P (run_state f s cs)"
  by (induction cs arbitrary: s) auto

end
