(* ===== verification/Model.thy ===== *)
theory Model
  imports Go_Prelude
begin

text \<open>
  The data that flows through the pipeline and its constructors (\<open>internal/model/types.go\<close>).
  A Go struct is a record whose field names carry the struct's initials; a pointer that may be
  nil is an \<open>option\<close>; a \<open>map[string]string\<close> is an association list. The clock
  (\<open>time.Now\<close>) and the random source (\<open>rand.Read\<close>, \<open>None\<close> for its error) are arguments.
\<close>

section \<open>Severities\<close>

type_synonym Severity = string

definition SeverityCritical :: Severity where "SeverityCritical = ''critical''"
definition SeverityWarning :: Severity where "SeverityWarning = ''warning''"
definition SeverityInfo :: Severity where "SeverityInfo = ''info''"

definition ValidSeverities :: "Severity list" where
  "ValidSeverities = [SeverityCritical, SeverityWarning, SeverityInfo]"

definition IsValid :: "Severity \<Rightarrow> bool" where
  "IsValid s = List.member ValidSeverities s"

lemmas severity_consts = SeverityCritical_def SeverityWarning_def SeverityInfo_def

lemma IsValid_iff: "IsValid s \<longleftrightarrow> s = SeverityCritical \<or> s = SeverityWarning \<or> s = SeverityInfo"
  by (auto simp: IsValid_def ValidSeverities_def)

lemma severities_distinct [simp]:
  "SeverityCritical \<noteq> SeverityWarning" "SeverityWarning \<noteq> SeverityCritical"
  "SeverityCritical \<noteq> SeverityInfo" "SeverityInfo \<noteq> SeverityCritical"
  "SeverityWarning \<noteq> SeverityInfo" "SeverityInfo \<noteq> SeverityWarning"
  by (simp_all add: severity_consts)

lemma severities_valid [simp]: "IsValid SeverityCritical" "IsValid SeverityWarning" "IsValid SeverityInfo"
  by (simp_all add: IsValid_iff)

section \<open>Records\<close>

record ResourceRef =
  ref_Kind :: string
  ref_Namespace :: string
  ref_Name :: string
  ref_UID :: string

record FaultEvent =
  fe_ID :: string
  fe_DetectorName :: string
  fe_Severity :: Severity
  fe_Timestamp :: gotime
  fe_Resource :: ResourceRef
  fe_Description :: string
  fe_Labels :: labels
  fe_Annotations :: labels

record SuperEvent =
  se_ID :: string
  se_CorrelationRule :: string
  se_PrimaryResource :: ResourceRef
  se_FaultEvents :: "FaultEvent list"
  se_Timestamp :: gotime
  se_Severity :: Severity

record DiagnosticSection =
  sec_GathererName :: string
  sec_Title :: string
  sec_Content :: string
  sec_Format :: string
  sec_Error :: string

record DiagnosticBundle =
  db_FaultEvent :: "FaultEvent option"
  db_SuperEvent :: "SuperEvent option"
  db_Timestamp :: gotime
  db_Sections :: "DiagnosticSection list"

record TokenUsage =
  tok_Input :: goint
  tok_Output :: goint

record RCAReport =
  rca_FaultEventID :: string
  rca_Timestamp :: gotime
  rca_RootCause :: string
  rca_Severity :: Severity
  rca_Category :: string
  rca_Systemic :: bool
  rca_BlastRadius :: string
  rca_Remediation :: "string list"
  rca_RelatedResources :: "ResourceRef list"
  rca_Confidence :: float64
  rca_RawAnalysis :: string
  rca_DiagnosticBundle :: DiagnosticBundle
  rca_AnalyzerBackend :: string
  rca_TokensUsed :: TokenUsage

definition ref_String :: "ResourceRef \<Rightarrow> string" where
  "ref_String r =
     (if ref_Namespace r \<noteq> ''''
      then ref_Kind r @ ''/'' @ ref_Namespace r @ ''/'' @ ref_Name r
      else ref_Kind r @ ''/'' @ ref_Name r)"

definition Total :: "TokenUsage \<Rightarrow> goint" where
  "Total t = wrap64 (tok_Input t + tok_Output t)"

definition ValidCategories :: "string list" where
  "ValidCategories = [''scheduling'', ''storage'', ''application'', ''networking'',
     ''resources'', ''node'', ''configuration'', ''unknown'']"

section \<open>Constructors\<close>

datatype model_error =
    RandError
  | EmptyDetectorName
  | InvalidSeverity Severity
  | EmptyResourceKind
  | EmptyResourceName
  | EmptyCorrelationRule
  | EmptyPrimaryKind
  | EmptyPrimaryName
  | EmptyFaultEvents

unbundle bit_operations_syntax

definition uuid_bits :: "byte list \<Rightarrow> byte list" where
  "uuid_bits u =
     (let u1 = u[6 := ((u ! 6) AND 0x0F) OR 0x40]
      in u1[8 := ((u1 ! 8) AND 0x3F) OR 0x80])"

definition generateUUID :: "byte list option \<Rightarrow> model_error + string" where
  "generateUUID rnd =
     (case rnd of
        None \<Rightarrow> Inl RandError
      | Some bytes \<Rightarrow>
          (let u = uuid_bits bytes in
           Inr (hex_bytes (take 4 u) @ ''-'' @ hex_bytes (take 2 (drop 4 u)) @ ''-'' @
                hex_bytes (take 2 (drop 6 u)) @ ''-'' @ hex_bytes (take 2 (drop 8 u)) @ ''-'' @
                hex_bytes (take 6 (drop 10 u)))))"

definition NewFaultEvent ::
    "byte list option \<Rightarrow> gotime \<Rightarrow> string \<Rightarrow> Severity \<Rightarrow> ResourceRef \<Rightarrow> string \<Rightarrow>
     labels option \<Rightarrow> labels option \<Rightarrow> model_error + FaultEvent" where
  "NewFaultEvent rnd now detectorName severity resource description lbls annotations =
     (if detectorName = '''' then Inl EmptyDetectorName
      else if \<not> IsValid severity then Inl (InvalidSeverity severity)
      else if ref_Kind resource = '''' then Inl EmptyResourceKind
      else if ref_Name resource = '''' then Inl EmptyResourceName
      else case generateUUID rnd of
        Inl e \<Rightarrow> Inl e
      | Inr i \<Rightarrow> Inr \<lparr>fe_ID = i, fe_DetectorName = detectorName, fe_Severity = severity,
          fe_Timestamp = now, fe_Resource = resource, fe_Description = description,
          fe_Labels = (case lbls of None \<Rightarrow> [] | Some m \<Rightarrow> m),
          fe_Annotations = (case annotations of None \<Rightarrow> [] | Some m \<Rightarrow> m)\<rparr>)"

definition severityRank :: "Severity \<Rightarrow> nat" where
  "severityRank s =
     (if s = SeverityCritical then 3 else if s = SeverityWarning then 2
      else if s = SeverityInfo then 1 else 0)"

fun highest_loop :: "Severity \<Rightarrow> FaultEvent list \<Rightarrow> Severity" where
  "highest_loop highest [] = highest"
| "highest_loop highest (e # es) =
     highest_loop (if severityRank highest < severityRank (fe_Severity e)
                   then fe_Severity e else highest) es"

definition highestSeverity :: "FaultEvent list \<Rightarrow> Severity" where
  "highestSeverity events = highest_loop SeverityInfo events"

definition NewSuperEvent ::
    "byte list option \<Rightarrow> gotime \<Rightarrow> string \<Rightarrow> ResourceRef \<Rightarrow> FaultEvent list \<Rightarrow>
     model_error + SuperEvent" where
  "NewSuperEvent rnd now correlationRule primaryResource faultEvents =
     (if correlationRule = '''' then Inl EmptyCorrelationRule
      else if ref_Kind primaryResource = '''' then Inl EmptyPrimaryKind
      else if ref_Name primaryResource = '''' then Inl EmptyPrimaryName
      else if faultEvents = [] then Inl EmptyFaultEvents
      else case generateUUID rnd of
        Inl e \<Rightarrow> Inl e
      | Inr i \<Rightarrow> Inr \<lparr>se_ID = i, se_CorrelationRule = correlationRule,
          se_PrimaryResource = primaryResource, se_FaultEvents = faultEvents,
          se_Timestamp = now, se_Severity = highestSeverity faultEvents\<rparr>)"

definition NewDiagnosticBundle ::
    "gotime \<Rightarrow> FaultEvent option \<Rightarrow> DiagnosticSection list \<Rightarrow> DiagnosticBundle" where
  "NewDiagnosticBundle now fe sections =
     \<lparr>db_FaultEvent = fe, db_SuperEvent = None, db_Timestamp = now, db_Sections = sections\<rparr>"

definition NewSuperEventDiagnosticBundle ::
    "gotime \<Rightarrow> SuperEvent option \<Rightarrow> DiagnosticSection list \<Rightarrow> DiagnosticBundle" where
  "NewSuperEventDiagnosticBundle now se sections =
     \<lparr>db_FaultEvent = None, db_SuperEvent = se, db_Timestamp = now, db_Sections = sections\<rparr>"

section \<open>Severity ranking\<close>

lemma severityRank_simps [simp]:
  "severityRank SeverityCritical = 3" "severityRank SeverityWarning = 2" "severityRank SeverityInfo = 1"
  by (simp_all add: severityRank_def)

lemma severityRank_pos: "0 < severityRank s \<longleftrightarrow> IsValid s"
  by (auto simp: severityRank_def IsValid_iff)

lemma severityRank_inj: "severityRank s = severityRank t \<Longrightarrow> IsValid s \<Longrightarrow> s = t"
  by (auto simp: severityRank_def IsValid_iff split: if_splits)

lemma highest_loop_upper:
  "severityRank h \<le> severityRank (highest_loop h es)"
  "e \<in> set es \<Longrightarrow> severityRank (fe_Severity e) \<le> severityRank (highest_loop h es)"
proof (induction es arbitrary: h)
  case (Cons x es)
  { case 1 show ?case using Cons.IH(1) [of "fe_Severity x"] Cons.IH(1) [of h] by auto }
  { case 2 then show ?case
      using Cons.IH(1) [of "fe_Severity x"] Cons.IH(1) [of h] Cons.IH(2) by auto }
qed simp_all

lemma highest_loop_source: "highest_loop h es \<in> insert h (fe_Severity ` set es)"
  by (induction es arbitrary: h) (auto split: if_splits)

lemma highest_loop_valid: "IsValid h \<Longrightarrow> IsValid (highest_loop h es)"
  by (induction es arbitrary: h)
    (auto split: if_splits simp: severityRank_pos [symmetric] intro: le_less_trans)

lemma highestSeverity_IsValid [simp]: "IsValid (highestSeverity es)"
  by (simp add: highestSeverity_def highest_loop_valid)

section \<open>Constructor facts\<close>

lemma NewFaultEvent_Inr:
  assumes "NewFaultEvent rnd now d s r descr ls as = Inr fe"
  shows "d \<noteq> ''''" "IsValid s" "ref_Kind r \<noteq> ''''" "ref_Name r \<noteq> ''''"
    "fe_DetectorName fe = d" "fe_Severity fe = s" "fe_Resource fe = r" "fe_Timestamp fe = now"
    "fe_Description fe = descr" "generateUUID rnd = Inr (fe_ID fe)"
    "fe_Labels fe = (case ls of None \<Rightarrow> [] | Some m \<Rightarrow> m)"
    "fe_Annotations fe = (case as of None \<Rightarrow> [] | Some m \<Rightarrow> m)"
  using assms unfolding NewFaultEvent_def by (auto split: if_splits sum.splits)

lemma NewSuperEvent_Inr:
  assumes "NewSuperEvent rnd now rule r es = Inr se"
  shows "se_FaultEvents se = es" "se_CorrelationRule se = rule" "se_PrimaryResource se = r"
    "se_Timestamp se = now" "se_Severity se = highestSeverity es" "es \<noteq> []"
    "ref_Kind r \<noteq> ''''" "ref_Name r \<noteq> ''''" "generateUUID rnd = Inr (se_ID se)"
  using assms unfolding NewSuperEvent_def by (auto split: if_splits sum.splits)

lemma NewSuperEvent_total:
  "rule \<noteq> '''' \<Longrightarrow> ref_Kind r \<noteq> '''' \<Longrightarrow> ref_Name r \<noteq> '''' \<Longrightarrow> es \<noteq> [] \<Longrightarrow>
   \<exists>se. NewSuperEvent (Some u) now rule r es = Inr se"
  by (simp add: NewSuperEvent_def generateUUID_def Let_def)

section \<open>UUID layout\<close>

lemma uuid_bits_length [simp]: "length (uuid_bits u) = length u"
  by (simp add: uuid_bits_def Let_def)

lemma uuid_bits_nth:
  "length u = 16 \<Longrightarrow> uuid_bits u ! 6 = ((u ! 6) AND 0x0F) OR 0x40"
  "length u = 16 \<Longrightarrow> uuid_bits u ! 8 = ((u ! 8) AND 0x3F) OR 0x80"
  by (simp_all add: uuid_bits_def Let_def)

lemma unat_byte_less: "unat (w :: byte) < 256"
  using unsigned_less [of w, where 'a = nat] by simp

lemma version_nibble: "unat (((w :: byte) AND 0x0F) OR 0x40) div 16 = 4"
proof -
  have "drop_bit 4 ((w AND 0x0F) OR 0x40) = (4 :: byte)"
    by (rule bit_eqI) (auto simp: bit_simps)
  then have "unat (drop_bit 4 ((w AND 0x0F) OR 0x40)) = unat (4 :: byte)" by simp
  then show ?thesis by (simp add: drop_bit_eq_div unat_div)
qed

lemma variant_nibble: "unat (((w :: byte) AND 0x3F) OR 0x80) div 16 \<in> {8, 9, 10, 11}"
proof -
  have "drop_bit 6 ((w AND 0x3F) OR 0x80) = (2 :: byte)"
    by (rule bit_eqI) (auto simp: bit_simps)
  then have "unat (drop_bit 6 ((w AND 0x3F) OR 0x80)) = unat (2 :: byte)" by simp
  then have "unat ((w AND 0x3F) OR 0x80) div 64 = 2" by (simp add: drop_bit_eq_div unat_div)
  then show ?thesis by auto
qed

definition hex_alphabet :: string where
  "hex_alphabet = ''0123456789abcdef''"

lemma hex_digit_table: "\<forall>d \<in> set [0..<16]. hex_digit d \<in> set hex_alphabet"
  by code_simp

lemma hex_digit_range: "d < 16 \<Longrightarrow> hex_digit d \<in> set hex_alphabet"
  using hex_digit_table by simp

lemma hex_digit_variant: "d \<in> {8, 9, 10, 11} \<Longrightarrow> hex_digit d \<in> set ''89ab''"
proof -
  have "\<forall>d \<in> set [8, 9, 10, 11 :: nat]. hex_digit d \<in> set ''89ab''" by code_simp
  then show "d \<in> {8, 9, 10, 11} \<Longrightarrow> ?thesis" by auto
qed

lemma hex_digit_4: "hex_digit 4 = CHR ''4''"
  by code_simp

lemma hex_bytes_alphabet: "set (hex_bytes bs) \<subseteq> set hex_alphabet"
proof (induction bs)
  case (Cons b bs)
  have "unat b div 16 < 16" using unat_byte_less [of b] by simp
  then have "set (hex_byte b) \<subseteq> set hex_alphabet" by (simp add: hex_byte_def hex_digit_range)
  with Cons show ?case by (simp add: hex_bytes_def)
qed (simp add: hex_bytes_def)

lemma dash_not_hex: "CHR ''-'' \<notin> set (hex_bytes bs)"
proof -
  have "CHR ''-'' \<notin> set hex_alphabet" by (simp add: hex_alphabet_def)
  then show ?thesis using hex_bytes_alphabet by blast
qed

lemma split_char_no_sep: "sep \<notin> set w \<Longrightarrow> split_char sep w = [w]"
  by (induction w) auto

lemma split_char_append: "sep \<notin> set w \<Longrightarrow> split_char sep (w @ sep # r) = w # split_char sep r"
  by (induction w) auto

definition uuid_v4 :: "string \<Rightarrow> bool" where
  "uuid_v4 s =
     (case split_char (CHR ''-'') s of
        [a, b, c, d, e] \<Rightarrow>
          map length [a, b, c, d, e] = [8, 4, 4, 4, 12] \<and>
          list_all (\<lambda>x. x \<in> set hex_alphabet) (a @ b @ c @ d @ e) \<and>
          hd c = CHR ''4'' \<and> hd d \<in> set ''89ab''
      | _ \<Rightarrow> False)"

lemma hd_hex_bytes: "bs \<noteq> [] \<Longrightarrow> hd (hex_bytes bs) = hex_digit (unat (hd bs) div 16)"
  by (cases bs) (simp_all add: hex_bytes_def hex_byte_def)

text \<open>Every identifier the random source allows is a version-4 UUID.\<close>

theorem generateUUID_v4:
  assumes "length bytes = 16"
  shows "\<exists>s. generateUUID (Some bytes) = Inr s \<and> uuid_v4 s"
proof -
  define u where "u = uuid_bits bytes"
  have len: "length u = 16" using assms by (simp add: u_def)
  have "unat (u ! 6) div 16 = 4"
    using uuid_bits_nth(1) [OF assms] version_nibble by (simp add: u_def)
  then have c: "hd (hex_bytes (take 2 (drop 6 u))) = CHR ''4''"
    using len by (simp add: hd_hex_bytes hd_drop_conv_nth hex_digit_4)
  have "unat (u ! 8) div 16 \<in> {8, 9, 10, 11}"
    unfolding u_def uuid_bits_nth(2) [OF assms] by (rule variant_nibble)
  then have "hex_digit (unat (u ! 8) div 16) \<in> set ''89ab''" by (rule hex_digit_variant)
  moreover have "hd (hex_bytes (take 2 (drop 8 u))) = hex_digit (unat (u ! 8) div 16)"
    using len by (simp add: hd_hex_bytes hd_drop_conv_nth)
  ultimately have d: "hd (hex_bytes (take 2 (drop 8 u))) \<in> set ''89ab''" by simp
  show ?thesis
    using c d len hex_bytes_alphabet
    by (simp add: generateUUID_def u_def [symmetric] Let_def uuid_v4_def split_char_append
        split_char_no_sep dash_not_hex list_all_iff ball_Un subset_iff)
qed

theorem generateUUID_v4_witness:
  "\<exists>s. generateUUID (Some (replicate 16 (0xFF :: byte))) = Inr s \<and> uuid_v4 s"
  using generateUUID_v4 [of "replicate 16 (0xFF :: byte)"] by simp

text \<open>
  The severity of a group of events (\<open>highestSeverity\<close>) is a valid severity, ranks at least
  as high as every member of the group, and is the severity of a member unless no member ranks
  above info.
\<close>

theorem highestSeverity_max:
  "IsValid (highestSeverity es) \<and>
   list_all (\<lambda>e. severityRank (fe_Severity e) \<le> severityRank (highestSeverity es)) es \<and>
   (highestSeverity es = SeverityInfo \<or> list_ex (\<lambda>e. fe_Severity e = highestSeverity es) es)"
  using highest_loop_upper(2) [of _ es SeverityInfo] highest_loop_source [of SeverityInfo es]
  by (auto simp: highestSeverity_def highest_loop_valid list_all_iff list_ex_iff)

end
