(* ===== verification/Base_Detector.thy ===== *)
theory Base_Detector
  imports Model
begin

text \<open>
  The cooldown and deduplication gate every built-in detector embeds
  (\<open>internal/detector/base.go\<close>). \<open>lastFired\<close> is the Go map as an association list. A call
  reads the clock where the code does: \<open>Emit\<close> reads it once in \<open>ShouldFire\<close>, once in
  \<open>RecordFire\<close> and once in \<open>model.NewFaultEvent\<close>, and these three readings with the bytes of
  \<open>rand.Read\<close> are the record \<open>readings\<close>. \<open>Emit\<close> returns \<open>Some event\<close> exactly where the code
  hands the event to the callback and returns true.

  The locale \<open>cooldown_gate\<close> is the contract the detectors share: what an operation keeps of the
  dedup state and when it may fire. Its client lemma bounds the distance of two deliveries in
  every run; the gate is interpreted on \<open>Emit\<close> here and on each detector's \<open>Check\<close> in
  \<open>Detectors\<close>.
\<close>

section \<open>State and operations\<close>

record dedupKey =
  dk_DetectorName :: string
  dk_ResourceUID :: string

record BaseDetector =
  bd_name :: string
  bd_severity :: Severity
  bd_cooldown :: duration
  bd_lastFired :: "(dedupKey \<times> gotime) list"

record BaseDetectorConfig =
  bdc_Name :: string
  bdc_Severity :: Severity
  bdc_Cooldown :: duration
  bdc_HasCallback :: bool

record readings =
  r_check :: gotime
  r_record :: gotime
  r_event :: gotime
  r_rand :: "byte list option"

datatype detector_error =
    DetectorNameEmpty
  | DetectorSeverityInvalid Severity string
  | CooldownNotPositive string
  | CallbackNil string
  | CreatingDetector string detector_error

definition NewBaseDetector :: "BaseDetectorConfig \<Rightarrow> detector_error + BaseDetector" where
  "NewBaseDetector cfg =
     (if bdc_Name cfg = '''' then Inl DetectorNameEmpty
      else if \<not> IsValid (bdc_Severity cfg)
        then Inl (DetectorSeverityInvalid (bdc_Severity cfg) (bdc_Name cfg))
      else if bdc_Cooldown cfg \<le> 0 then Inl (CooldownNotPositive (bdc_Name cfg))
      else if \<not> bdc_HasCallback cfg then Inl (CallbackNil (bdc_Name cfg))
      else Inr \<lparr>bd_name = bdc_Name cfg, bd_severity = bdc_Severity cfg,
                bd_cooldown = bdc_Cooldown cfg, bd_lastFired = []\<rparr>)"

definition DetectorName :: "BaseDetector \<Rightarrow> string" where
  "DetectorName b = bd_name b"

definition DetectorSeverity :: "BaseDetector \<Rightarrow> Severity" where
  "DetectorSeverity b = bd_severity b"

definition dedup_key :: "BaseDetector \<Rightarrow> ResourceRef \<Rightarrow> dedupKey" where
  "dedup_key b r = \<lparr>dk_DetectorName = bd_name b, dk_ResourceUID = ref_UID r\<rparr>"

definition ShouldFire :: "gotime \<Rightarrow> BaseDetector \<Rightarrow> ResourceRef \<Rightarrow> bool" where
  "ShouldFire now b r =
     (case map_of (bd_lastFired b) (dedup_key b r) of
        Some lastTime \<Rightarrow> \<not> time_Sub now lastTime < bd_cooldown b
      | None \<Rightarrow> True)"

definition RecordFire :: "gotime \<Rightarrow> BaseDetector \<Rightarrow> ResourceRef \<Rightarrow> BaseDetector" where
  "RecordFire now b r =
     b\<lparr>bd_lastFired := map_put (dedup_key b r) now (bd_lastFired b)\<rparr>"

definition Emit ::
    "readings \<Rightarrow> BaseDetector \<Rightarrow> ResourceRef \<Rightarrow> string \<Rightarrow> labels option \<Rightarrow> labels option \<Rightarrow>
     BaseDetector \<times> FaultEvent option" where
  "Emit rd b resource description lbls annotations =
     (if \<not> ShouldFire (r_check rd) b resource then (b, None)
      else let b' = RecordFire (r_record rd) b resource in
        case NewFaultEvent (r_rand rd) (r_event rd) (bd_name b) (bd_severity b)
               resource description lbls annotations of
          Inl _ \<Rightarrow> (b', None)
        | Inr event \<Rightarrow> (b', Some event))"

definition CleanupExpiredEntries :: "gotime \<Rightarrow> BaseDetector \<Rightarrow> BaseDetector" where
  "CleanupExpiredEntries now b =
     (let threshold = wrap64 (2 * bd_cooldown b)
      in b\<lparr>bd_lastFired := filter (\<lambda>e. \<not> threshold < time_Sub now (snd e)) (bd_lastFired b)\<rparr>)"

definition DedupEntryCount :: "BaseDetector \<Rightarrow> nat" where
  "DedupEntryCount b = length (bd_lastFired b)"

section \<open>The gate as an interface\<close>

locale cooldown_gate =
  fixes op :: "'s \<Rightarrow> 'i \<times> 'r \<Rightarrow> 's \<times> FaultEvent option"
    and key :: "'i \<Rightarrow> 'k"
    and last_fired :: "'s \<Rightarrow> 'k \<Rightarrow> gotime option"
    and cooldown_of :: "'s \<Rightarrow> duration"
    and t_check :: "'r \<Rightarrow> gotime"
    and t_record :: "'r \<Rightarrow> gotime"
  assumes op_cooldown: "cooldown_of (fst (op s (i, rd))) = cooldown_of s"
    and op_last: "last_fired (fst (op s (i, rd))) k = last_fired s k \<or>
                  k = key i \<and> last_fired (fst (op s (i, rd))) k = Some (t_record rd)"
    and op_fires: "snd (op s (i, rd)) = Some e \<Longrightarrow>
                   last_fired (fst (op s (i, rd))) (key i) = Some (t_record rd)"
    and op_expired: "snd (op s (i, rd)) = Some e \<Longrightarrow> last_fired s (key i) = Some t \<Longrightarrow>
                     cooldown_of s \<le> time_Sub (t_check rd) t"
begin

lemma run_cooldown: "cooldown_of (run_state op s cs) = cooldown_of s"
  by (induction cs arbitrary: s) (auto simp: op_cooldown)

lemma last_fired_step:
  assumes "last_fired s k = Some u" "t \<le> u" "t \<le> t_record rd"
  obtains u' where "last_fired (fst (op s (i, rd))) k = Some u'" "t \<le> u'"
  using op_last [of s i rd k] assms by auto

lemma last_fired_mono:
  assumes "last_fired s k = Some u" "t \<le> u" "\<forall>c \<in> set cs. t \<le> t_record (snd c)"
  shows "\<exists>t'. last_fired (run_state op s cs) k = Some t' \<and> t \<le> t'"
  using assms
proof (induction cs arbitrary: s u)
  case (Cons c cs)
  obtain i rd where c: "c = (i, rd)" by (cases c)
  obtain u' where "last_fired (fst (op s (i, rd))) k = Some u'" "t \<le> u'"
    using last_fired_step [OF Cons.prems(1,2)] Cons.prems(3) c by auto
  then show ?case using Cons.IH Cons.prems(3) by (simp add: c)
qed auto

lemma fired_apart_step:
  assumes e: "snd (op s (i, rd)) = Some e"
    and f: "snd (op (run_state op (fst (op s (i, rd))) cs) (i', rd')) = Some f"
    and k: "key i' = key i"
    and mono: "\<forall>c \<in> set cs. t_record rd \<le> t_record (snd c)"
  shows "cooldown_of s \<le> time_Sub (t_check rd') (t_record rd)"
proof -
  let ?s = "run_state op (fst (op s (i, rd))) cs"
  obtain t where t: "last_fired ?s (key i) = Some t" "t_record rd \<le> t"
    using last_fired_mono [OF op_fires [OF e] order_refl mono] by blast
  have "cooldown_of s \<le> time_Sub (t_check rd') t"
    using op_expired [OF f] t(1) k by (simp add: run_cooldown op_cooldown)
  also have "\<dots> \<le> time_Sub (t_check rd') (t_record rd)"
    by (rule time_Sub_mono) (use t in auto)
  finally show ?thesis .
qed

lemma fired_apart:
  assumes "a < b" "b < length cs"
    and a: "run_outputs op s cs ! a = Some e" and b: "run_outputs op s cs ! b = Some f"
    and k: "key (fst (cs ! a)) = key (fst (cs ! b))"
    and mono: "sorted (map (t_record \<circ> snd) cs)"
  shows "cooldown_of s \<le> time_Sub (t_check (snd (cs ! b))) (t_record (snd (cs ! a)))"
proof -
  obtain i rd where ca: "cs ! a = (i, rd)" by (cases "cs ! a")
  obtain i' rd' where cb: "cs ! b = (i', rd')" by (cases "cs ! b")
  define mid where "mid = take (b - Suc a) (drop (Suc a) cs)"
  let ?s = "run_state op s (take a cs)"
  have "take b cs = take a cs @ (i, rd) # mid"
    unfolding mid_def ca [symmetric] by (rule take_split_at [OF assms(1,2)])
  then have sb: "run_state op s (take b cs) = run_state op (fst (op ?s (i, rd))) mid" by simp
  have "\<forall>c \<in> set mid. t_record rd \<le> t_record (snd c)"
  proof
    fix c assume "c \<in> set mid"
    then have "c \<in> set (drop (Suc a) cs)" unfolding mid_def by (rule in_set_takeD)
    then obtain j where "j < length (drop (Suc a) cs)" "c = drop (Suc a) cs ! j"
      by (auto simp: in_set_conv_nth)
    then have "c = cs ! (Suc a + j)" "Suc a + j < length cs" by auto
    with mono ca show "t_record rd \<le> t_record (snd c)"
      by (auto simp: sorted_iff_nth_mono dest: spec [of _ a])
  qed
  then have "cooldown_of ?s \<le> time_Sub (t_check rd') (t_record rd)"
    using fired_apart_step [of ?s i rd e mid i' rd' f] assms ca cb
    by (simp add: run_outputs_nth sb)
  then show ?thesis by (simp add: run_cooldown ca cb)
qed

end

section \<open>The gate on the base detector\<close>

type_synonym emit_args = "ResourceRef \<times> string \<times> labels option \<times> labels option"

definition Emit_call :: "BaseDetector \<Rightarrow> emit_args \<times> readings \<Rightarrow> BaseDetector \<times> FaultEvent option" where
  "Emit_call b c = (case c of ((r, descr, ls, as), rd) \<Rightarrow> Emit rd b r descr ls as)"

definition last_fired_uid :: "BaseDetector \<Rightarrow> string \<Rightarrow> gotime option" where
  "last_fired_uid b uid = map_of (bd_lastFired b) \<lparr>dk_DetectorName = bd_name b, dk_ResourceUID = uid\<rparr>"

definition bd_wf :: "BaseDetector \<Rightarrow> bool" where
  "bd_wf b \<longleftrightarrow> bd_name b \<noteq> '''' \<and> IsValid (bd_severity b) \<and> 0 < bd_cooldown b \<and>
     distinct (map fst (bd_lastFired b))"

lemma RecordFire_frame [simp]:
  "bd_name (RecordFire now b r) = bd_name b" "bd_severity (RecordFire now b r) = bd_severity b"
  "bd_cooldown (RecordFire now b r) = bd_cooldown b"
  by (simp_all add: RecordFire_def)

lemma last_fired_RecordFire [simp]:
  "last_fired_uid (RecordFire now b r) uid =
     (if uid = ref_UID r then Some now else last_fired_uid b uid)"
  by (simp add: last_fired_uid_def RecordFire_def dedup_key_def)

lemma ShouldFire_last:
  "ShouldFire now b r \<longleftrightarrow>
     (\<forall>t. last_fired_uid b (ref_UID r) = Some t \<longrightarrow> bd_cooldown b \<le> time_Sub now t)"
  by (auto simp: ShouldFire_def last_fired_uid_def dedup_key_def split: option.splits)

lemma Emit_frame [simp]:
  "bd_name (fst (Emit rd b r d ls as)) = bd_name b"
  "bd_severity (fst (Emit rd b r d ls as)) = bd_severity b"
  "bd_cooldown (fst (Emit rd b r d ls as)) = bd_cooldown b"
  by (simp_all add: Emit_def Let_def split: sum.splits)

lemma Emit_state:
  "fst (Emit rd b r d ls as) =
     (if ShouldFire (r_check rd) b r then RecordFire (r_record rd) b r else b)"
  by (simp add: Emit_def Let_def split: sum.splits)

lemma Emit_SomeD:
  assumes "snd (Emit rd b r d ls as) = Some e"
  shows "ShouldFire (r_check rd) b r"
    "NewFaultEvent (r_rand rd) (r_event rd) (bd_name b) (bd_severity b) r d ls as = Inr e"
  using assms by (auto simp: Emit_def Let_def split: sum.splits if_splits)

lemma NewBaseDetector_wf: "NewBaseDetector cfg = Inr b \<Longrightarrow> bd_wf b"
  by (auto simp: NewBaseDetector_def bd_wf_def split: if_splits)

lemma Emit_wf [simp]: "bd_wf b \<Longrightarrow> bd_wf (fst (Emit rd b r d ls as))"
  by (simp add: Emit_state bd_wf_def RecordFire_def)

lemma Cleanup_wf [simp]: "bd_wf b \<Longrightarrow> bd_wf (CleanupExpiredEntries now b)"
  by (simp add: CleanupExpiredEntries_def Let_def bd_wf_def distinct_map_filter)

lemma Emit_total:
  assumes "bd_wf b" "ref_Kind r \<noteq> ''''" "ref_Name r \<noteq> ''''" "r_rand rd = Some u"
    "ShouldFire (r_check rd) b r"
  shows "\<exists>e. snd (Emit rd b r d ls as) = Some e"
  using assms by (simp add: Emit_def NewFaultEvent_def generateUUID_def bd_wf_def Let_def)

definition deliverable :: "readings \<Rightarrow> BaseDetector \<Rightarrow> ResourceRef \<Rightarrow> bool" where
  "deliverable rd b r \<longleftrightarrow> ref_Kind r \<noteq> [] \<and> ref_Name r \<noteq> [] \<and> r_rand rd \<noteq> None \<and>
     ShouldFire (r_check rd) b r"

lemma Emit_fires_iff:
  assumes "bd_wf b"
  shows "snd (Emit rd b r d ls as) \<noteq> None \<longleftrightarrow> deliverable rd b r"
proof
  assume "snd (Emit rd b r d ls as) \<noteq> None"
  then obtain e where e: "snd (Emit rd b r d ls as) = Some e" by auto
  show "deliverable rd b r"
    using Emit_SomeD(1) [OF e] NewFaultEvent_Inr [OF Emit_SomeD(2) [OF e]]
    by (auto simp: deliverable_def generateUUID_def split: option.splits)
next
  assume "deliverable rd b r"
  then show "snd (Emit rd b r d ls as) \<noteq> None"
    using Emit_total [OF assms, of r rd _ d ls as] by (auto simp: deliverable_def)
qed

interpretation bg: cooldown_gate Emit_call "\<lambda>i. ref_UID (fst i)" last_fired_uid bd_cooldown
  r_check r_record
proof unfold_locales
  fix s :: BaseDetector and i :: emit_args and rd k e t
  obtain r d ls as where i: "i = (r, d, ls, as)" by (cases i)
  show "bd_cooldown (fst (Emit_call s (i, rd))) = bd_cooldown s"
    by (simp add: Emit_call_def i)
  show "last_fired_uid (fst (Emit_call s (i, rd))) k = last_fired_uid s k \<or>
    k = ref_UID (fst i) \<and> last_fired_uid (fst (Emit_call s (i, rd))) k = Some (r_record rd)"
    by (simp add: Emit_call_def i Emit_state)
  assume "snd (Emit_call s (i, rd)) = Some e"
  then have fire: "ShouldFire (r_check rd) s r" by (simp add: Emit_call_def i Emit_SomeD)
  show "last_fired_uid (fst (Emit_call s (i, rd))) (ref_UID (fst i)) = Some (r_record rd)"
    by (simp add: Emit_call_def i Emit_state fire)
  show "last_fired_uid s (ref_UID (fst i)) = Some t \<Longrightarrow> bd_cooldown s \<le> time_Sub (r_check rd) t"
    using fire by (simp add: ShouldFire_last i)
qed

section \<open>Properties\<close>

text \<open>
  No two fault events for the same resource within the cooldown: in every sequence of
  \<open>Emit\<close> calls on one detector whose recorded times do not go backwards, if two calls for the
  same resource UID both deliver an event then the second one's check reads the clock at least
  one cooldown after the first one's record.
\<close>

theorem emit_respects_cooldown:
  assumes "a < b" "b < length cs"
    and "run_outputs Emit_call d cs ! a = Some e" "run_outputs Emit_call d cs ! b = Some f"
    and "ref_UID (fst (fst (cs ! a))) = ref_UID (fst (fst (cs ! b)))"
    and "sorted (map (r_record \<circ> snd) cs)"
  shows "bd_cooldown d \<le> time_Sub (r_check (snd (cs ! b))) (r_record (snd (cs ! a)))"
  using bg.fired_apart [OF assms] .

definition ex_base :: BaseDetector where
  "ex_base = \<lparr>bd_name = ''PodFailed'', bd_severity = SeverityWarning,
     bd_cooldown = 30 * minute, bd_lastFired = []\<rparr>"

definition ex_pod :: ResourceRef where
  "ex_pod = \<lparr>ref_Kind = ''Pod'', ref_Namespace = ''ns'', ref_Name = ''p'', ref_UID = ''u1''\<rparr>"

definition ex_reading :: "gotime \<Rightarrow> readings" where
  "ex_reading t = \<lparr>r_check = t, r_record = t + 1, r_event = t + 2,
     r_rand = Some (replicate 16 (0 :: byte))\<rparr>"

definition ex_calls :: "(emit_args \<times> readings) list" where
  "ex_calls = [((ex_pod, ''a'', None, None), ex_reading 0),
     ((ex_pod, ''b'', None, None), ex_reading (minute * 5)),
     ((ex_pod, ''c'', None, None), ex_reading (minute * 40))]"

lemma ex_calls_outputs:
  "map (map_option fe_Description) (run_outputs Emit_call ex_base ex_calls) =
     [Some ''a'', None, Some ''c'']"
  by code_simp

theorem emit_respects_cooldown_witness:
  "bd_cooldown ex_base \<le> time_Sub (r_check (snd (ex_calls ! 2))) (r_record (snd (ex_calls ! 0)))"
proof -
  obtain e f where "run_outputs Emit_call ex_base ex_calls = [Some e, None, Some f]"
    using ex_calls_outputs by (auto simp: map_eq_Cons_conv)
  then show ?thesis
    by (intro emit_respects_cooldown [of 0 2 ex_calls ex_base e f])
      (simp_all add: ex_calls_def ex_reading_def duration_defs)
qed

text \<open>
  \<open>Emit\<close> delivers exactly when it should: on a well-formed detector it hands an event to
  the callback iff the resource has a kind and a name, the random source works and no event was
  recorded for the resource UID within the cooldown; the dedup entry is written whenever the
  cooldown has elapsed, also when the event cannot be built, and the delivered event carries the
  detector's name and severity and the resource.
\<close>

theorem emit_delivers_iff:
  assumes "bd_wf b" "Emit rd b r descr ls as = (b', out)"
  shows "(out \<noteq> None \<longleftrightarrow> deliverable rd b r) \<and>
         b' = (if ShouldFire (r_check rd) b r then RecordFire (r_record rd) b r else b) \<and>
         list_all (\<lambda>e. fe_DetectorName e = bd_name b \<and> fe_Severity e = bd_severity b \<and>
           fe_Resource e = r) (case out of None \<Rightarrow> [] | Some e \<Rightarrow> [e])"
proof -
  have out: "out = snd (Emit rd b r descr ls as)" and b': "b' = fst (Emit rd b r descr ls as)"
    using assms(2) by simp_all
  have "fe_DetectorName e = bd_name b \<and> fe_Severity e = bd_severity b \<and> fe_Resource e = r"
    if "out = Some e" for e
    using NewFaultEvent_Inr [OF Emit_SomeD(2) [OF that [unfolded out]]] by simp
  then show ?thesis
    using Emit_fires_iff [OF assms(1), of rd r descr ls as]
    by (simp add: b' Emit_state out [symmetric] split: option.split)
qed

theorem emit_delivers_iff_witness:
  "snd (Emit (ex_reading 0) ex_base ex_pod ''x'' None None) \<noteq> None"
proof -
  have "bd_wf ex_base" "ShouldFire (r_check (ex_reading 0)) ex_base ex_pod" by code_simp+
  then show ?thesis
    using emit_delivers_iff [of ex_base "ex_reading 0" ex_pod "''x''" None None
        "fst (Emit (ex_reading 0) ex_base ex_pod ''x'' None None)"
        "snd (Emit (ex_reading 0) ex_base ex_pod ''x'' None None)"]
    by (simp add: deliverable_def ex_pod_def ex_reading_def)
qed

text \<open>
  Forgetting expired entries is unobservable: for a well-formed detector whose doubled
  cooldown fits \<open>time.Duration\<close>, \<open>CleanupExpiredEntries\<close> never changes any later decision of
  \<open>ShouldFire\<close>, for any resource.
\<close>

theorem cleanup_unobservable:
  assumes "bd_wf b" "2 * bd_cooldown b \<le> max_int64" "now \<le> now'"
  shows "ShouldFire now' (CleanupExpiredEntries now b) r = ShouldFire now' b r"
proof -
  have pos: "0 < bd_cooldown b" and dist: "distinct (map fst (bd_lastFired b))"
    using assms(1) by (simp_all add: bd_wf_def)
  have w: "wrap64 (2 * bd_cooldown b) = 2 * bd_cooldown b"
    using pos assms(2) by (intro wrap64_id) (simp add: int64_defs)
  have "2 * bd_cooldown b < time_Sub now t \<Longrightarrow> bd_cooldown b \<le> time_Sub now' t" for t
    using time_Sub_mono [OF assms(3), of t t] pos by simp
  then show ?thesis
    using dist by (auto simp: ShouldFire_last last_fired_uid_def CleanupExpiredEntries_def w
        map_of_filter_value [of _ "\<lambda>t. \<not> 2 * bd_cooldown b < time_Sub now t"]
        split: option.splits)
qed

theorem cleanup_unobservable_witness:
  "ShouldFire hour (CleanupExpiredEntries (hour div 2) ex_base) ex_pod = ShouldFire hour ex_base ex_pod"
  by (rule cleanup_unobservable) code_simp+

end

