(* ===== verification/Detectors.thy ===== *)
theory Detectors
  imports Base_Detector
begin

text \<open>
  The seven built-in detectors (\<open>internal/detector/*.go\<close>): their configuration defaults
  (\<open>New...\<close>), the lifecycle \<open>Start\<close>/\<open>Stop\<close> all of them share, and \<open>Check\<close>, which
  evaluates the observed state and delivers through the embedded gate of \<open>Base_Detector\<close>. A
  \<open>Check\<close> that measures an age reads the clock first (\<open>now\<close>) and hands the remaining readings
  to \<open>Emit\<close>. \<open>int32\<close> and \<open>int64\<close> fields are integers; the one product that can leave 64 bits
  (a job deadline in nanoseconds) wraps.

  The locale \<open>detector_check\<close> is what the seven have in common: a \<open>Check\<close> either does nothing
  or is one \<open>Emit\<close> on the embedded detector for the observed object's UID. It extends to a
  \<open>cooldown_gate\<close>, so the spacing of deliveries is proved once for all of them.
\<close>

section \<open>What a detector is made of\<close>

definition with_default :: "int \<Rightarrow> int \<Rightarrow> int" where
  "with_default dflt x = (if x \<le> 0 then dflt else x)"

definition new_base :: "string \<Rightarrow> Severity \<Rightarrow> duration \<Rightarrow> bool \<Rightarrow> detector_error + BaseDetector" where
  "new_base name severity cooldown callback =
     (case NewBaseDetector \<lparr>bdc_Name = name, bdc_Severity = severity, bdc_Cooldown = cooldown,
             bdc_HasCallback = callback\<rparr> of
        Inl e \<Rightarrow> Inl (CreatingDetector name e) | Inr b \<Rightarrow> Inr b)"

text \<open>
  The cancel function a detector keeps: \<open>None\<close> is nil, \<open>Some c\<close> belongs to a derived context
  that is cancelled iff \<open>c\<close>. \<open>Start\<close> stores one and blocks until its context is done, which is
  when the parent is done or \<open>Stop\<close> called the stored function.
\<close>

type_synonym cancel_func = "bool option"

definition Start_enter :: "cancel_func \<Rightarrow> cancel_func" where
  "Start_enter c = Some False"

definition Start_returns :: "bool \<Rightarrow> cancel_func \<Rightarrow> bool" where
  "Start_returns parent_done c \<longleftrightarrow> parent_done \<or> c = Some True"

definition Stop :: "cancel_func \<Rightarrow> cancel_func" where
  "Stop c = (case c of None \<Rightarrow> None | Some _ \<Rightarrow> Some True)"

section \<open>PodStuckPending\<close>

record PodState =
  ps_Name :: string
  ps_Namespace :: string
  ps_UID :: string
  ps_Phase :: string
  ps_CreationTimestamp :: gotime
  ps_Labels :: "labels option"
  ps_Annotations :: "labels option"

record PodStuckPending =
  psp_base :: BaseDetector
  psp_threshold :: duration

definition NewPodStuckPending :: "duration \<Rightarrow> duration \<Rightarrow> bool \<Rightarrow> detector_error + PodStuckPending" where
  "NewPodStuckPending threshold cooldown callback =
     (let threshold' = with_default (15 * minute) threshold;
          cooldown' = with_default (30 * minute) cooldown
      in case new_base ''PodStuckPending'' SeverityWarning cooldown' callback of
           Inl e \<Rightarrow> Inl e
         | Inr base \<Rightarrow> Inr \<lparr>psp_base = base, psp_threshold = threshold'\<rparr>)"

definition PodStuckPending_Check ::
    "PodStuckPending \<Rightarrow> PodState \<times> gotime \<times> readings \<Rightarrow> PodStuckPending \<times> FaultEvent option" where
  "PodStuckPending_Check d c =
     (case c of (pod, now, rd) \<Rightarrow>
        if ps_Phase pod \<noteq> ''Pending'' then (d, None)
        else let elapsed = time_Sub now (ps_CreationTimestamp pod) in
          if elapsed < psp_threshold d then (d, None)
          else
            (let ref = \<lparr>ref_Kind = ''Pod'', ref_Namespace = ps_Namespace pod,
                        ref_Name = ps_Name pod, ref_UID = ps_UID pod\<rparr>;
                 description = ''Pod '' @ ps_Namespace pod @ ''/'' @ ps_Name pod @
                   '' has been Pending for '' @ duration_String (duration_Round elapsed second) @
                   '' (threshold: '' @ duration_String (psp_threshold d) @ '')'';
                 (b, out) = Emit rd (psp_base d) ref description (ps_Labels pod) None
             in (d\<lparr>psp_base := b\<rparr>, out)))"

section \<open>PodCrashLoop\<close>

record ContainerStatus =
  cs_Name :: string
  cs_RestartCount :: int
  cs_Waiting :: bool
  cs_WaitingReason :: string

record PodContainerState =
  pcs_Name :: string
  pcs_Namespace :: string
  pcs_UID :: string
  pcs_Labels :: "labels option"
  pcs_Annotations :: "labels option"
  pcs_ContainerStatuses :: "ContainerStatus list"
  pcs_InitContainerStatuses :: "ContainerStatus list"

record PodCrashLoop =
  pcl_base :: BaseDetector
  pcl_threshold :: int

definition NewPodCrashLoop :: "int \<Rightarrow> duration \<Rightarrow> bool \<Rightarrow> detector_error + PodCrashLoop" where
  "NewPodCrashLoop threshold cooldown callback =
     (let threshold' = with_default 3 threshold;
          cooldown' = with_default (30 * minute) cooldown
      in case new_base ''PodCrashLoop'' SeverityWarning cooldown' callback of
           Inl e \<Rightarrow> Inl e
         | Inr base \<Rightarrow> Inr \<lparr>pcl_base = base, pcl_threshold = threshold'\<rparr>)"

definition isCrashLooping :: "PodCrashLoop \<Rightarrow> ContainerStatus \<Rightarrow> bool" where
  "isCrashLooping d cs =
     (if cs_RestartCount cs < pcl_threshold d then False
      else cs_Waiting cs \<and> cs_WaitingReason cs = ''CrashLoopBackOff'')"

fun crash_loop :: "readings \<Rightarrow> PodCrashLoop \<Rightarrow> PodContainerState \<Rightarrow> ContainerStatus list \<Rightarrow>
    PodCrashLoop \<times> FaultEvent option" where
  "crash_loop rd d pod [] = (d, None)"
| "crash_loop rd d pod (cs # css) =
     (if \<not> isCrashLooping d cs then crash_loop rd d pod css
      else
        (let ref = \<lparr>ref_Kind = ''Pod'', ref_Namespace = pcs_Namespace pod,
                    ref_Name = pcs_Name pod, ref_UID = pcs_UID pod\<rparr>;
             description = ''Pod '' @ pcs_Namespace pod @ ''/'' @ pcs_Name pod @ '' container '' @
               go_quote (cs_Name cs) @ '' is in CrashLoopBackOff with '' @
               show_int (cs_RestartCount cs) @ '' restarts (threshold: '' @
               show_int (pcl_threshold d) @ '')'';
             (b, out) = Emit rd (pcl_base d) ref description (pcs_Labels pod)
               (Some [(''container'', cs_Name cs), (''restartCount'', show_int (cs_RestartCount cs))])
         in (d\<lparr>pcl_base := b\<rparr>, out)))"

definition PodCrashLoop_Check ::
    "PodCrashLoop \<Rightarrow> PodContainerState \<times> gotime \<times> readings \<Rightarrow> PodCrashLoop \<times> FaultEvent option" where
  "PodCrashLoop_Check d c =
     (case c of (pod, _, rd) \<Rightarrow>
        let allStatuses = pcs_ContainerStatuses pod @ pcs_InitContainerStatuses pod
        in crash_loop rd d pod allStatuses)"

section \<open>PodFailed\<close>

record ContainerTermination =
  ct_Name :: string
  ct_ExitCode :: int
  ct_Reason :: string

record PodFailedState =
  pfs_Name :: string
  pfs_Namespace :: string
  pfs_UID :: string
  pfs_Phase :: string
  pfs_Labels :: "labels option"
  pfs_Annotations :: "labels option"
  pfs_Terminations :: "ContainerTermination list"

record PodFailed =
  pf_base :: BaseDetector
  pf_ignoreExitCodes :: "(int \<times> bool) list"

definition NewPodFailed :: "int list \<Rightarrow> duration \<Rightarrow> bool \<Rightarrow> detector_error + PodFailed" where
  "NewPodFailed codes cooldown callback =
     (let cooldown' = with_default (30 * minute) cooldown
      in case new_base ''PodFailed'' SeverityWarning cooldown' callback of
           Inl e \<Rightarrow> Inl e
         | Inr base \<Rightarrow> Inr \<lparr>pf_base = base,
             pf_ignoreExitCodes = fold (\<lambda>code m. map_put code True m) codes []\<rparr>)"

definition IgnoresExitCode :: "PodFailed \<Rightarrow> int \<Rightarrow> bool" where
  "IgnoresExitCode d code = map_get (pf_ignoreExitCodes d) False code"

definition pod_failed_ref :: "PodFailedState \<Rightarrow> ResourceRef" where
  "pod_failed_ref pod = \<lparr>ref_Kind = ''Pod'', ref_Namespace = pfs_Namespace pod,
     ref_Name = pfs_Name pod, ref_UID = pfs_UID pod\<rparr>"

definition emitForPod :: "readings \<Rightarrow> PodFailed \<Rightarrow> PodFailedState \<Rightarrow> string \<Rightarrow>
    PodFailed \<times> FaultEvent option" where
  "emitForPod rd d pod reason =
     (let description = ''Pod '' @ pfs_Namespace pod @ ''/'' @ pfs_Name pod @ '': '' @ reason;
          (b, out) = Emit rd (pf_base d) (pod_failed_ref pod) description (pfs_Labels pod) None
      in (d\<lparr>pf_base := b\<rparr>, out))"

fun termination_loop :: "readings \<Rightarrow> PodFailed \<Rightarrow> PodFailedState \<Rightarrow> ContainerTermination list \<Rightarrow>
    PodFailed \<times> FaultEvent option" where
  "termination_loop rd d pod [] = (d, None)"
| "termination_loop rd d pod (t # ts) =
     (if IgnoresExitCode d (ct_ExitCode t) then termination_loop rd d pod ts
      else
        (let reason = (if ct_Reason t = '''' then ''Unknown'' else ct_Reason t);
             desc = ''Pod '' @ pfs_Namespace pod @ ''/'' @ pfs_Name pod @ '' container '' @
               go_quote (ct_Name t) @ '' exited with code '' @ show_int (ct_ExitCode t) @
               '' (reason: '' @ reason @ '')'';
             (b, out) = Emit rd (pf_base d) (pod_failed_ref pod) desc (pfs_Labels pod)
               (Some [(''container'', ct_Name t), (''exitCode'', show_int (ct_ExitCode t)),
                      (''reason'', reason)])
         in (d\<lparr>pf_base := b\<rparr>, out)))"

definition PodFailed_Check ::
    "PodFailed \<Rightarrow> PodFailedState \<times> gotime \<times> readings \<Rightarrow> PodFailed \<times> FaultEvent option" where
  "PodFailed_Check d c =
     (case c of (pod, _, rd) \<Rightarrow>
        if pfs_Phase pod = ''Failed'' then emitForPod rd d pod ''Pod phase is Failed''
        else termination_loop rd d pod (pfs_Terminations pod))"

section \<open>NodeNotReady\<close>

definition NodeConditionTrue :: string where "NodeConditionTrue = ''True''"

record NodeState =
  ns_Name :: string
  ns_UID :: string
  ns_ReadyCondition :: string
  ns_ReadyTransitionTime :: gotime
  ns_Labels :: "labels option"
  ns_Annotations :: "labels option"

record NodeNotReady =
  nnr_base :: BaseDetector
  nnr_threshold :: duration

definition NewNodeNotReady :: "duration \<Rightarrow> duration \<Rightarrow> bool \<Rightarrow> detector_error + NodeNotReady" where
  "NewNodeNotReady threshold cooldown callback =
     (let threshold' = with_default (5 * minute) threshold;
          cooldown' = with_default (30 * minute) cooldown
      in case new_base ''NodeNotReady'' SeverityCritical cooldown' callback of
           Inl e \<Rightarrow> Inl e
         | Inr base \<Rightarrow> Inr \<lparr>nnr_base = base, nnr_threshold = threshold'\<rparr>)"

definition NodeNotReady_Check ::
    "NodeNotReady \<Rightarrow> NodeState \<times> gotime \<times> readings \<Rightarrow> NodeNotReady \<times> FaultEvent option" where
  "NodeNotReady_Check d c =
     (case c of (node, now, rd) \<Rightarrow>
        if ns_ReadyCondition node = NodeConditionTrue then (d, None)
        else let elapsed = time_Sub now (ns_ReadyTransitionTime node) in
          if elapsed < nnr_threshold d then (d, None)
          else
            (let ref = \<lparr>ref_Kind = ''Node'', ref_Namespace = '''', ref_Name = ns_Name node,
                        ref_UID = ns_UID node\<rparr>;
                 description = ''Node '' @ ns_Name node @ '' Ready condition is '' @
                   ns_ReadyCondition node @ '' for '' @
                   duration_String (duration_Round elapsed second) @
                   '' (threshold: '' @ duration_String (nnr_threshold d) @ '')'';
                 (b, out) = Emit rd (nnr_base d) ref description (ns_Labels node)
                   (Some [(''readyCondition'', ns_ReadyCondition node)])
             in (d\<lparr>nnr_base := b\<rparr>, out)))"

section \<open>PVCStuckBinding\<close>

record PVCState =
  pvc_Name :: string
  pvc_Namespace :: string
  pvc_UID :: string
  pvc_Phase :: string
  pvc_CreationTimestamp :: gotime
  pvc_StorageClassName :: string
  pvc_Labels :: "labels option"
  pvc_Annotations :: "labels option"

record PVCStuckBinding =
  psb_base :: BaseDetector
  psb_threshold :: duration

definition NewPVCStuckBinding :: "duration \<Rightarrow> duration \<Rightarrow> bool \<Rightarrow> detector_error + PVCStuckBinding" where
  "NewPVCStuckBinding threshold cooldown callback =
     (let threshold' = with_default (10 * minute) threshold;
          cooldown' = with_default (30 * minute) cooldown
      in case new_base ''PVCStuckBinding'' SeverityWarning cooldown' callback of
           Inl e \<Rightarrow> Inl e
         | Inr base \<Rightarrow> Inr \<lparr>psb_base = base, psb_threshold = threshold'\<rparr>)"

definition PVCStuckBinding_Check ::
    "PVCStuckBinding \<Rightarrow> PVCState \<times> gotime \<times> readings \<Rightarrow> PVCStuckBinding \<times> FaultEvent option" where
  "PVCStuckBinding_Check d c =
     (case c of (pvc, now, rd) \<Rightarrow>
        if pvc_Phase pvc \<noteq> ''Pending'' then (d, None)
        else let elapsed = time_Sub now (pvc_CreationTimestamp pvc) in
          if elapsed < psb_threshold d then (d, None)
          else
            (let ref = \<lparr>ref_Kind = ''PersistentVolumeClaim'', ref_Namespace = pvc_Namespace pvc,
                        ref_Name = pvc_Name pvc, ref_UID = pvc_UID pvc\<rparr>;
                 description = ''PVC '' @ pvc_Namespace pvc @ ''/'' @ pvc_Name pvc @
                   '' has been Pending for '' @ duration_String (duration_Round elapsed second) @
                   '' (threshold: '' @ duration_String (psb_threshold d) @ '')'';
                 annotations = (if pvc_StorageClassName pvc \<noteq> ''''
                   then [(''storageClass'', pvc_StorageClassName pvc)] else []);
                 (b, out) = Emit rd (psb_base d) ref description (pvc_Labels pvc) (Some annotations)
             in (d\<lparr>psb_base := b\<rparr>, out)))"

section \<open>HighPodCount\<close>

record NamespacePodCount =
  npc_Name :: string
  npc_UID :: string
  npc_PodCount :: goint
  npc_Labels :: "labels option"

record HighPodCount =
  hpc_base :: BaseDetector
  hpc_threshold :: goint

definition NewHighPodCount :: "goint \<Rightarrow> duration \<Rightarrow> bool \<Rightarrow> detector_error + HighPodCount" where
  "NewHighPodCount threshold cooldown callback =
     (let threshold' = with_default 200 threshold;
          cooldown' = with_default (1 * hour) cooldown
      in case new_base ''HighPodCount'' SeverityInfo cooldown' callback of
           Inl e \<Rightarrow> Inl e
         | Inr base \<Rightarrow> Inr \<lparr>hpc_base = base, hpc_threshold = threshold'\<rparr>)"

definition HighPodCount_Check ::
    "HighPodCount \<Rightarrow> NamespacePodCount \<times> gotime \<times> readings \<Rightarrow> HighPodCount \<times> FaultEvent option" where
  "HighPodCount_Check d c =
     (case c of (ns, _, rd) \<Rightarrow>
        if npc_PodCount ns \<le> hpc_threshold d then (d, None)
        else
          (let ref = \<lparr>ref_Kind = ''Namespace'', ref_Namespace = '''', ref_Name = npc_Name ns,
                      ref_UID = npc_UID ns\<rparr>;
               description = ''Namespace '' @ npc_Name ns @ '' has '' @ show_int (npc_PodCount ns) @
                 '' pods (threshold: '' @ show_int (hpc_threshold d) @ '')'';
               (b, out) = Emit rd (hpc_base d) ref description (npc_Labels ns)
                 (Some [(''podCount'', show_int (npc_PodCount ns)),
                        (''threshold'', show_int (hpc_threshold d))])
           in (d\<lparr>hpc_base := b\<rparr>, out)))"

section \<open>JobDeadlineExceeded\<close>

record JobState =
  job_Name :: string
  job_Namespace :: string
  job_UID :: string
  job_ActiveDeadlineSeconds :: "int option"
  job_StartTime :: "gotime option"
  job_Completed :: bool
  job_Failed :: bool
  job_ConditionDeadlineExceeded :: bool
  job_Labels :: "labels option"
  job_Annotations :: "labels option"

record JobDeadlineExceeded =
  jde_base :: BaseDetector

definition NewJobDeadlineExceeded :: "duration \<Rightarrow> bool \<Rightarrow> detector_error + JobDeadlineExceeded" where
  "NewJobDeadlineExceeded cooldown callback =
     (let cooldown' = with_default (30 * minute) cooldown
      in case new_base ''JobDeadlineExceeded'' SeverityWarning cooldown' callback of
           Inl e \<Rightarrow> Inl e
         | Inr base \<Rightarrow> Inr \<lparr>jde_base = base\<rparr>)"

definition job_emit :: "readings \<Rightarrow> JobDeadlineExceeded \<Rightarrow> JobState \<Rightarrow> string \<Rightarrow>
    JobDeadlineExceeded \<times> FaultEvent option" where
  "job_emit rd d job reason =
     (let ref = \<lparr>ref_Kind = ''Job'', ref_Namespace = job_Namespace job, ref_Name = job_Name job,
                 ref_UID = job_UID job\<rparr>;
          description = ''Job '' @ job_Namespace job @ ''/'' @ job_Name job @ '': '' @ reason;
          annotations = (case job_ActiveDeadlineSeconds job of
              None \<Rightarrow> [] | Some s \<Rightarrow> [(''activeDeadlineSeconds'', show_int s)]);
          (b, out) = Emit rd (jde_base d) ref description (job_Labels job) (Some annotations)
      in (d\<lparr>jde_base := b\<rparr>, out))"

definition JobDeadlineExceeded_Check ::
    "JobDeadlineExceeded \<Rightarrow> JobState \<times> gotime \<times> readings \<Rightarrow> JobDeadlineExceeded \<times> FaultEvent option" where
  "JobDeadlineExceeded_Check d c =
     (case c of (job, now, rd) \<Rightarrow>
        if job_Completed job then (d, None)
        else if job_ConditionDeadlineExceeded job
          then job_emit rd d job ''Job has DeadlineExceeded condition''
        else case (job_ActiveDeadlineSeconds job, job_StartTime job) of
          (Some secs, Some start) \<Rightarrow>
            (let deadline = start + wrap64 (secs * second) in
             if now < deadline then (d, None)
             else job_emit rd d job
               (''Job has been running for '' @ duration_String (duration_Round (time_Sub now start) second) @
                '', exceeding deadline of '' @ show_int secs @ ''s''))
        | _ \<Rightarrow> (d, None))"

section \<open>The contract of a detector\<close>

definition gated :: "('d \<Rightarrow> BaseDetector) \<Rightarrow> 'd \<Rightarrow> string \<Rightarrow> readings \<Rightarrow> 'd \<times> FaultEvent option \<Rightarrow> bool"
  where
  "gated base d uid rd res \<longleftrightarrow> res = (d, None) \<or>
     (\<exists>r descr ls as. ref_UID r = uid \<and>
        base (fst res) = fst (Emit rd (base d) r descr ls as) \<and>
        snd res = snd (Emit rd (base d) r descr ls as))"

lemma gated_skip: "gated base d u rd (d, None)"
  by (simp add: gated_def)

lemma gated_emit:
  "ref_UID r = u \<Longrightarrow> b = base d \<Longrightarrow> (\<And>x. base (upd x) = x) \<Longrightarrow>
   gated base d u rd (upd (fst (Emit rd b r descr ls as)), snd (Emit rd b r descr ls as))"
  unfolding gated_def by (intro disjI2 exI [of _ r] exI) simp

locale detector_check =
  fixes op :: "'d \<Rightarrow> 'i \<times> gotime \<times> readings \<Rightarrow> 'd \<times> FaultEvent option"
    and base :: "'d \<Rightarrow> BaseDetector"
    and uid :: "'i \<Rightarrow> string"
  assumes check_gated: "gated base d (uid i) rd (op d (i, now, rd))"
begin

lemma check_emits:
  assumes "snd (op d (i, now, rd)) = Some e"
  obtains r descr ls as where "ref_UID r = uid i"
    "base (fst (op d (i, now, rd))) = fst (Emit rd (base d) r descr ls as)"
    "snd (Emit rd (base d) r descr ls as) = Some e"
  using check_gated [of d i rd now] assms by (auto simp: gated_def)

lemma check_frame:
  "bd_name (base (fst (op d (i, now, rd)))) = bd_name (base d)"
  "bd_severity (base (fst (op d (i, now, rd)))) = bd_severity (base d)"
  "bd_cooldown (base (fst (op d (i, now, rd)))) = bd_cooldown (base d)"
  using check_gated [of d i rd now] by (auto simp: gated_def)

lemma check_wf: "bd_wf (base d) \<Longrightarrow> bd_wf (base (fst (op d (i, now, rd))))"
  using check_gated [of d i rd now] by (auto simp: gated_def)

lemma check_event:
  assumes "snd (op d (i, now, rd)) = Some e"
  shows "fe_DetectorName e = bd_name (base d)" "fe_Severity e = bd_severity (base d)"
    "ref_UID (fe_Resource e) = uid i"
proof -
  obtain r descr ls as where *: "ref_UID r = uid i" "snd (Emit rd (base d) r descr ls as) = Some e"
    using check_emits [OF assms] by metis
  show "fe_DetectorName e = bd_name (base d)" "fe_Severity e = bd_severity (base d)"
    "ref_UID (fe_Resource e) = uid i"
    using NewFaultEvent_Inr [OF Emit_SomeD(2) [OF *(2)]] *(1) by simp_all
qed

end

sublocale detector_check \<subseteq> cooldown_gate op uid "\<lambda>d. last_fired_uid (base d)"
    "\<lambda>d. bd_cooldown (base d)" "\<lambda>rd. r_check (snd rd)" "\<lambda>rd. r_record (snd rd)"
proof unfold_locales
  fix d i k e t and rd :: "gotime \<times> readings"
  obtain now r where rd: "rd = (now, r)" by (cases rd)
  show "bd_cooldown (base (fst (op d (i, rd)))) = bd_cooldown (base d)"
    by (simp add: rd check_frame)
  show "last_fired_uid (base (fst (op d (i, rd)))) k = last_fired_uid (base d) k \<or>
    k = uid i \<and> last_fired_uid (base (fst (op d (i, rd)))) k = Some (r_record (snd rd))"
    using check_gated [of d i r now]
    by (auto simp: gated_def rd Emit_state split: if_splits)
  assume "snd (op d (i, rd)) = Some e"
  then obtain q descr ls as where q: "ref_UID q = uid i"
      "base (fst (op d (i, rd))) = fst (Emit r (base d) q descr ls as)"
      "snd (Emit r (base d) q descr ls as) = Some e"
    unfolding rd by (rule check_emits)
  note fire = Emit_SomeD(1) [OF q(3)]
  show "last_fired_uid (base (fst (op d (i, rd)))) (uid i) = Some (r_record (snd rd))"
    using q(1) unfolding q(2) by (simp add: Emit_state fire rd)
  show "last_fired_uid (base d) (uid i) = Some t \<Longrightarrow>
      bd_cooldown (base d) \<le> time_Sub (r_check (snd rd)) t"
    using fire q(1) by (simp add: ShouldFire_last rd)
qed

section \<open>The seven detectors meet the contract\<close>

lemma crash_loop_find:
  "crash_loop rd d pod css =
     (case find (isCrashLooping d) css of None \<Rightarrow> (d, None)
      | Some cs \<Rightarrow> crash_loop rd d pod [cs])"
  by (induction css) auto

lemma termination_loop_find:
  "termination_loop rd d pod ts =
     (case find (\<lambda>t. \<not> IgnoresExitCode d (ct_ExitCode t)) ts of None \<Rightarrow> (d, None)
      | Some t \<Rightarrow> termination_loop rd d pod [t])"
  by (induction ts) auto

lemma crash_loop_gated: "gated pcl_base d (pcs_UID pod) rd (crash_loop rd d pod css)"
  by (induction css)
    (auto simp: Let_def split_beta gated_skip intro: gated_emit [where upd = "\<lambda>b. d\<lparr>pcl_base := b\<rparr>"])

lemma termination_loop_gated: "gated pf_base d (pfs_UID pod) rd (termination_loop rd d pod ts)"
  by (induction ts)
    (auto simp: Let_def split_beta gated_skip pod_failed_ref_def
      intro: gated_emit [where upd = "\<lambda>b. d\<lparr>pf_base := b\<rparr>"])

interpretation psp: detector_check PodStuckPending_Check psp_base ps_UID
  by unfold_locales (auto simp: PodStuckPending_Check_def Let_def split_beta gated_skip
      intro: gated_emit [where upd = "\<lambda>b. _\<lparr>psp_base := b\<rparr>"])

interpretation pcl: detector_check PodCrashLoop_Check pcl_base pcs_UID
  by unfold_locales (simp add: PodCrashLoop_Check_def crash_loop_gated)

interpretation pf: detector_check PodFailed_Check pf_base pfs_UID
  by unfold_locales (auto simp: PodFailed_Check_def emitForPod_def pod_failed_ref_def Let_def
      split_beta termination_loop_gated intro: gated_emit [where upd = "\<lambda>b. _\<lparr>pf_base := b\<rparr>"])

interpretation nnr: detector_check NodeNotReady_Check nnr_base ns_UID
  by unfold_locales (auto simp: NodeNotReady_Check_def Let_def split_beta gated_skip
      intro: gated_emit [where upd = "\<lambda>b. _\<lparr>nnr_base := b\<rparr>"])

interpretation psb: detector_check PVCStuckBinding_Check psb_base pvc_UID
  by unfold_locales (auto simp: PVCStuckBinding_Check_def Let_def split_beta gated_skip
      intro: gated_emit [where upd = "\<lambda>b. _\<lparr>psb_base := b\<rparr>"])

interpretation hpc: detector_check HighPodCount_Check hpc_base npc_UID
  by unfold_locales (auto simp: HighPodCount_Check_def Let_def split_beta gated_skip
      intro: gated_emit [where upd = "\<lambda>b. _\<lparr>hpc_base := b\<rparr>"])

interpretation jde: detector_check JobDeadlineExceeded_Check jde_base job_UID
  by unfold_locales (auto simp: JobDeadlineExceeded_Check_def job_emit_def Let_def split_beta
      gated_skip intro: gated_emit [where upd = "\<lambda>b. _\<lparr>jde_base := b\<rparr>"] split: option.split)

section \<open>When the detectors fire\<close>

definition psp_ref :: "PodState \<Rightarrow> ResourceRef" where
  "psp_ref pod = \<lparr>ref_Kind = ''Pod'', ref_Namespace = ps_Namespace pod, ref_Name = ps_Name pod,
     ref_UID = ps_UID pod\<rparr>"

definition pcs_ref :: "PodContainerState \<Rightarrow> ResourceRef" where
  "pcs_ref pod = \<lparr>ref_Kind = ''Pod'', ref_Namespace = pcs_Namespace pod, ref_Name = pcs_Name pod,
     ref_UID = pcs_UID pod\<rparr>"

definition job_ref :: "JobState \<Rightarrow> ResourceRef" where
  "job_ref job = \<lparr>ref_Kind = ''Job'', ref_Namespace = job_Namespace job, ref_Name = job_Name job,
     ref_UID = job_UID job\<rparr>"

lemma crash_loop_fires:
  "bd_wf (pcl_base d) \<Longrightarrow>
   snd (crash_loop rd d pod css) \<noteq> None \<longleftrightarrow>
     list_ex (isCrashLooping d) css \<and> deliverable rd (pcl_base d) (pcs_ref pod)"
  by (induction css) (auto simp: Let_def split_beta pcs_ref_def Emit_fires_iff [simplified])

lemma termination_loop_fires:
  "bd_wf (pf_base d) \<Longrightarrow>
   snd (termination_loop rd d pod ts) \<noteq> None \<longleftrightarrow>
     list_ex (\<lambda>t. \<not> IgnoresExitCode d (ct_ExitCode t)) ts \<and>
     deliverable rd (pf_base d) (pod_failed_ref pod)"
  by (induction ts) (auto simp: Let_def split_beta Emit_fires_iff [simplified])

lemma job_emit_fires:
  "bd_wf (jde_base d) \<Longrightarrow>
   snd (job_emit rd d job reason) \<noteq> None \<longleftrightarrow> deliverable rd (jde_base d) (job_ref job)"
  by (simp add: job_emit_def Let_def split_beta job_ref_def Emit_fires_iff [simplified])

definition spaced ::
    "('d \<Rightarrow> 'i \<times> gotime \<times> readings \<Rightarrow> 'd \<times> FaultEvent option) \<Rightarrow> ('d \<Rightarrow> BaseDetector) \<Rightarrow>
     ('i \<Rightarrow> string) \<Rightarrow> 'd \<Rightarrow> ('i \<times> gotime \<times> readings) list \<Rightarrow> bool" where
  "spaced check base uid d cs \<longleftrightarrow>
     (\<forall>b < length cs. \<forall>a < b.
        run_outputs check d cs ! a \<noteq> None \<and> run_outputs check d cs ! b \<noteq> None \<and>
        uid (fst (cs ! a)) = uid (fst (cs ! b)) \<longrightarrow>
        bd_cooldown (base d) \<le>
          time_Sub (r_check (snd (snd (cs ! b)))) (r_record (snd (snd (cs ! a)))))"

definition clock_monotone :: "('i \<times> gotime \<times> readings) list \<Rightarrow> bool" where
  "clock_monotone cs \<longleftrightarrow> sorted (map (\<lambda>c. r_record (snd (snd c))) cs)"

context detector_check
begin

lemma check_spaced: "clock_monotone cs \<Longrightarrow> spaced op base uid d cs"
  unfolding spaced_def clock_monotone_def
  using fired_apart [of _ _ cs d] by (auto simp: comp_def)

end


text \<open>
  \<open>PodStuckPending\<close> fires exactly for a pod in phase Pending whose age has reached the
  threshold, when the gate lets it through.
\<close>

theorem pod_stuck_pending_fires_iff:
  assumes "bd_wf (psp_base d)"
  shows "snd (PodStuckPending_Check d (pod, now, rd)) \<noteq> None \<longleftrightarrow>
    ps_Phase pod = ''Pending'' \<and> psp_threshold d \<le> time_Sub now (ps_CreationTimestamp pod) \<and>
    deliverable rd (psp_base d) (psp_ref pod)"
  using Emit_fires_iff [OF assms] by (auto simp: PodStuckPending_Check_def Let_def split_beta psp_ref_def)

text \<open>
  \<open>PodCrashLoop\<close> fires exactly when some container or init container waits in
  CrashLoopBackOff with at least the threshold of restarts, when the gate lets it through.
\<close>

theorem pod_crash_loop_fires_iff:
  assumes "bd_wf (pcl_base d)"
  shows "snd (PodCrashLoop_Check d (pod, now, rd)) \<noteq> None \<longleftrightarrow>
    list_ex (\<lambda>cs. pcl_threshold d \<le> cs_RestartCount cs \<and> cs_Waiting cs \<and>
        cs_WaitingReason cs = ''CrashLoopBackOff'')
      (pcs_ContainerStatuses pod @ pcs_InitContainerStatuses pod) \<and>
    deliverable rd (pcl_base d) (pcs_ref pod)"
proof -
  have "isCrashLooping d = (\<lambda>cs. pcl_threshold d \<le> cs_RestartCount cs \<and> cs_Waiting cs \<and>
      cs_WaitingReason cs = ''CrashLoopBackOff'')"
    by (auto simp: isCrashLooping_def fun_eq_iff)
  then show ?thesis
    by (simp only: PodCrashLoop_Check_def Let_def prod.case crash_loop_fires [OF assms])
qed

lemma ignore_map: "map_get (fold (\<lambda>code m. map_put code True m) codes m) False c =
    (c \<in> set codes \<or> map_get m False c)"
  by (induction codes arbitrary: m) (auto simp: map_get_def)

lemma ignore_map_new: "map_get (fold (\<lambda>code m. map_put code True m) codes []) False c = (c \<in> set codes)"
  using ignore_map [of codes "[]" c] by (simp add: map_get_def)

lemma new_base_wf: "new_base n s c cb = Inr b \<Longrightarrow> bd_wf b"
  by (auto simp: new_base_def dest: NewBaseDetector_wf split: sum.splits)

lemma NewPodFailed_Inr:
  assumes "NewPodFailed codes cooldown callback = Inr d"
  shows "bd_wf (pf_base d)" "IgnoresExitCode d c = List.member codes c"
  using assms
  by (auto simp: NewPodFailed_def Let_def IgnoresExitCode_def ignore_map_new
      dest: new_base_wf split: sum.splits)

lemma PodFailed_Check_ignores [simp]:
  "pf_ignoreExitCodes (fst (PodFailed_Check d (pod, now, rd))) = pf_ignoreExitCodes d"
proof -
  have "pf_ignoreExitCodes (fst (termination_loop rd d pod ts)) = pf_ignoreExitCodes d" for ts
    by (induction ts) (auto simp: Let_def split_beta)
  then show ?thesis by (simp add: PodFailed_Check_def emitForPod_def Let_def split_beta)
qed

text \<open>
  \<open>PodFailed\<close>, built with a list of ignored exit codes, fires exactly when the pod's phase is
  Failed or some container terminated with a code outside that list, when the gate lets it
  through.
\<close>

theorem pod_failed_fires_iff:
  assumes "NewPodFailed codes cooldown callback = Inr d0"
    and "d = run_state PodFailed_Check d0 history"
  shows "snd (PodFailed_Check d (pod, now, rd)) \<noteq> None \<longleftrightarrow>
    (pfs_Phase pod = ''Failed'' \<or>
     list_ex (\<lambda>t. \<not> List.member codes (ct_ExitCode t)) (pfs_Terminations pod)) \<and>
    deliverable rd (pf_base d) (pod_failed_ref pod)"
proof -
  have "bd_wf (pf_base d) \<and> pf_ignoreExitCodes d = pf_ignoreExitCodes d0"
    unfolding assms(2)
  proof (rule run_state_invariant)
    show "bd_wf (pf_base d0) \<and> pf_ignoreExitCodes d0 = pf_ignoreExitCodes d0"
      using NewPodFailed_Inr(1) [OF assms(1)] by simp
  next
    fix s :: PodFailed and c
    assume "bd_wf (pf_base s) \<and> pf_ignoreExitCodes s = pf_ignoreExitCodes d0"
    then show "bd_wf (pf_base (fst (PodFailed_Check s c))) \<and>
        pf_ignoreExitCodes (fst (PodFailed_Check s c)) = pf_ignoreExitCodes d0"
      by (cases c) (simp add: pf.check_wf)
  qed
  then have wf: "bd_wf (pf_base d)" and ign: "IgnoresExitCode d = List.member codes"
    using NewPodFailed_Inr(2) [OF assms(1)] by (auto simp: IgnoresExitCode_def fun_eq_iff)
  show ?thesis
    using termination_loop_fires [OF wf] Emit_fires_iff [OF wf]
    by (simp add: PodFailed_Check_def emitForPod_def Let_def split_beta ign)
qed

text \<open>
  \<open>JobDeadlineExceeded\<close> fires, for a job that is not completed, exactly when the Job
  controller has set the DeadlineExceeded condition or the job has started and the clock has
  reached its start time plus its deadline, when the gate lets it through. The deadline must be
  between 0 and 9223372036 seconds, so that its nanoseconds fit 64 bits.
\<close>

theorem job_deadline_fires_iff:
  assumes "bd_wf (jde_base d)"
    and "pred_option (\<lambda>secs. 0 \<le> secs \<and> secs \<le> 9223372036) (job_ActiveDeadlineSeconds job)"
  shows "snd (JobDeadlineExceeded_Check d (job, now, rd)) \<noteq> None \<longleftrightarrow>
    \<not> job_Completed job \<and>
    (job_ConditionDeadlineExceeded job \<or>
     (case (job_ActiveDeadlineSeconds job, job_StartTime job) of
        (Some secs, Some start) \<Rightarrow> start + secs * second \<le> now | _ \<Rightarrow> False)) \<and>
    deliverable rd (jde_base d) (job_ref job)"
proof -
  have "wrap64 (secs * second) = secs * second" if "job_ActiveDeadlineSeconds job = Some secs" for secs
    using assms(2) that by (intro wrap64_id) (auto simp: int64_defs second_def)
  then show ?thesis
    using job_emit_fires [OF assms(1)]
    by (auto simp: JobDeadlineExceeded_Check_def Let_def split: option.split)
qed

text \<open>
  A deadline beyond 9223372036 seconds wraps: \<open>time.Duration(secs) * time.Second\<close> is
  negative for every number of seconds from 9223372037 to 18446744073, so a job with such a
  deadline is reported as soon as it has started.
\<close>

theorem job_deadline_overflow:
  assumes "bd_wf (jde_base d)" "\<not> job_Completed job"
    and "job_ActiveDeadlineSeconds job = Some secs" "9223372037 \<le> secs" "secs \<le> 18446744073"
    and "job_StartTime job = Some start" "start \<le> now"
    and "deliverable rd (jde_base d) (job_ref job)"
  shows "snd (JobDeadlineExceeded_Check d (job, now, rd)) \<noteq> None"
proof -
  have "wrap64 (secs * second) = secs * second - 18446744073709551616"
    using assms(4,5) by (intro wrap64_once) (simp_all add: second_def)
  then have "wrap64 (secs * second) < 0" using assms(5) by (simp add: second_def)
  then have "\<not> now < start + wrap64 (secs * second)" using assms(7) by simp
  then show ?thesis
    using assms job_emit_fires [OF assms(1)] by (simp add: JobDeadlineExceeded_Check_def Let_def)
qed

section \<open>Witnesses\<close>

definition ex_psp :: PodStuckPending where
  "ex_psp = \<lparr>psp_base = ex_base, psp_threshold = 15 * minute\<rparr>"

definition ex_pending :: PodState where
  "ex_pending = \<lparr>ps_Name = ''p'', ps_Namespace = ''ns'', ps_UID = ''u1'', ps_Phase = ''Pending'',
     ps_CreationTimestamp = 0, ps_Labels = None, ps_Annotations = None\<rparr>"

definition ex_crash :: PodContainerState where
  "ex_crash = \<lparr>pcs_Name = ''p'', pcs_Namespace = ''ns'', pcs_UID = ''u1'', pcs_Labels = None,
     pcs_Annotations = None, pcs_ContainerStatuses = [],
     pcs_InitContainerStatuses = [\<lparr>cs_Name = ''c'', cs_RestartCount = 4, cs_Waiting = True,
       cs_WaitingReason = ''CrashLoopBackOff''\<rparr>]\<rparr>"

definition ex_failed :: PodFailedState where
  "ex_failed = \<lparr>pfs_Name = ''p'', pfs_Namespace = ''ns'', pfs_UID = ''u1'', pfs_Phase = ''Running'',
     pfs_Labels = None, pfs_Annotations = None,
     pfs_Terminations = [\<lparr>ct_Name = ''c'', ct_ExitCode = 137, ct_Reason = ''OOMKilled''\<rparr>]\<rparr>"

definition ex_job :: "int \<Rightarrow> JobState" where
  "ex_job secs = \<lparr>job_Name = ''j'', job_Namespace = ''ns'', job_UID = ''u1'',
     job_ActiveDeadlineSeconds = Some secs, job_StartTime = Some 0, job_Completed = False,
     job_Failed = False, job_ConditionDeadlineExceeded = False, job_Labels = None,
     job_Annotations = None\<rparr>"

definition ex_pending_calls :: "(PodState \<times> gotime \<times> readings) list" where
  "ex_pending_calls = map (\<lambda>t. (ex_pending, t, ex_reading t)) [20 * minute, 21 * minute, 60 * minute]"


theorem pod_stuck_pending_fires_iff_witness:
  "snd (PodStuckPending_Check ex_psp (ex_pending, 20 * minute, ex_reading 0)) \<noteq> None"
proof -
  have wf: "bd_wf (psp_base ex_psp)"
    and "ps_Phase ex_pending = ''Pending'' \<and>
      psp_threshold ex_psp \<le> time_Sub (20 * minute) (ps_CreationTimestamp ex_pending) \<and>
      deliverable (ex_reading 0) (psp_base ex_psp) (psp_ref ex_pending)"
    by code_simp+
  then show ?thesis using pod_stuck_pending_fires_iff [OF wf] by blast
qed

theorem pod_crash_loop_fires_iff_witness:
  "snd (PodCrashLoop_Check \<lparr>pcl_base = ex_base, pcl_threshold = 3\<rparr> (ex_crash, 0, ex_reading 0)) \<noteq> None"
proof -
  have wf: "bd_wf (pcl_base \<lparr>pcl_base = ex_base, pcl_threshold = 3\<rparr>)" by code_simp
  show ?thesis unfolding pod_crash_loop_fires_iff [OF wf] by code_simp
qed

theorem pod_failed_fires_iff_witness:
  "\<exists>d. NewPodFailed [0, 143] 0 True = Inr d \<and>
     snd (PodFailed_Check d (ex_failed, 0, ex_reading 0)) \<noteq> None"
proof -
  define d where "d = projr (NewPodFailed [0, 143] 0 True)"
  have d: "NewPodFailed [0, 143] 0 True = Inr d" unfolding d_def by code_simp
  have gate: "deliverable (ex_reading 0) (pf_base d) (pod_failed_ref ex_failed)"
    unfolding d_def by code_simp
  have "list_ex (\<lambda>t. \<not> List.member [0, 143] (ct_ExitCode t)) (pfs_Terminations ex_failed)"
    by code_simp
  then show ?thesis
    using pod_failed_fires_iff [OF d, of d "[]" ex_failed 0 "ex_reading 0"] d gate by auto
qed

definition ex_jde :: JobDeadlineExceeded where
  "ex_jde = \<lparr>jde_base = ex_base\<rparr>"

theorem job_deadline_fires_iff_witness:
  "snd (JobDeadlineExceeded_Check ex_jde (ex_job 60, 2 * minute, ex_reading 0)) \<noteq> None \<and>
   snd (JobDeadlineExceeded_Check ex_jde (ex_job 60, 0, ex_reading 0)) = None"
proof -
  have wf: "bd_wf (jde_base ex_jde)" by code_simp
  have h: "pred_option (\<lambda>secs. 0 \<le> secs \<and> secs \<le> 9223372036) (job_ActiveDeadlineSeconds (ex_job 60))"
    by (simp add: ex_job_def)
  have gate: "deliverable (ex_reading 0) (jde_base ex_jde) (job_ref (ex_job 60))" by code_simp
  show ?thesis
    using job_deadline_fires_iff [OF wf h, of "2 * minute" "ex_reading 0"]
      job_deadline_fires_iff [OF wf h, of 0 "ex_reading 0"] gate
    by (simp add: ex_job_def duration_defs)
qed

theorem job_deadline_overflow_witness:
  "snd (JobDeadlineExceeded_Check ex_jde (ex_job 10000000000, 1, ex_reading 0)) \<noteq> None"
proof -
  have "bd_wf (jde_base ex_jde)"
    "deliverable (ex_reading 0) (jde_base ex_jde) (job_ref (ex_job 10000000000))" by code_simp+
  then show ?thesis
    by (intro job_deadline_overflow [where secs = 10000000000 and start = 0])
      (simp_all add: ex_job_def)
qed

end
