(* ===== verification/Glob.thy ===== *)
theory Glob
  imports Go_Prelude
begin

text \<open>
  \<open>filepath.Match\<close> on Unix, as package \<open>path/filepath\<close> documents it: \<open>*\<close> matches any sequence of
  bytes other than the separator, \<open>?\<close> one such byte, \<open>[a-z]\<close> and \<open>[^a-z]\<close> a character class, a
  backslash quotes the next character, and a malformed pattern matches nothing (the call returns
  \<open>ErrBadPattern\<close>, for which both callers in the sources skip the pattern). The patterns and
  names are Kubernetes object names and host names, which are ASCII, so a byte is a character.
\<close>

datatype glob_token =
    Glob_Literal char
  | Glob_Any
  | Glob_Star
  | Glob_Class bool "(char \<times> char) list"

definition glob_esc :: "string \<Rightarrow> (char \<times> string) option" where
  "glob_esc s =
     (case s of
        [] \<Rightarrow> None
      | c # cs \<Rightarrow>
          if c = CHR ''-'' \<or> c = CHR '']'' then None
          else if c = CHR 0x5C then
            (case cs of [] \<Rightarrow> None | d # ds \<Rightarrow> if ds = [] then None else Some (d, ds))
          else if cs = [] then None else Some (c, cs))"

fun glob_ranges :: "nat \<Rightarrow> bool \<Rightarrow> string \<Rightarrow> ((char \<times> char) list \<times> string) option" where
  "glob_ranges 0 first s = None"
| "glob_ranges (Suc n) first s =
     (if \<not> first \<and> s \<noteq> [] \<and> hd s = CHR '']'' then Some ([], tl s)
      else case glob_esc s of
        None \<Rightarrow> None
      | Some (lo, s1) \<Rightarrow>
          (let hi_rest = (if s1 \<noteq> [] \<and> hd s1 = CHR ''-'' then glob_esc (tl s1) else Some (lo, s1))
           in case hi_rest of
                None \<Rightarrow> None
              | Some (hi, s2) \<Rightarrow>
                  map_option (\<lambda>(rs, r). ((lo, hi) # rs, r)) (glob_ranges n False s2)))"

fun glob_parse :: "nat \<Rightarrow> string \<Rightarrow> glob_token list option" where
  "glob_parse n [] = Some []"
| "glob_parse 0 (c # cs) = None"
| "glob_parse (Suc n) (c # cs) =
     (if c = CHR ''*'' then map_option ((#) Glob_Star) (glob_parse n cs)
      else if c = CHR ''?'' then map_option ((#) Glob_Any) (glob_parse n cs)
      else if c = CHR 0x5C then
        (case cs of [] \<Rightarrow> None | d # ds \<Rightarrow> map_option ((#) (Glob_Literal d)) (glob_parse n ds))
      else if c = CHR ''['' then
        (let negated = (cs \<noteq> [] \<and> hd cs = CHR ''^'');
             body = (if negated then tl cs else cs)
         in case glob_ranges (length body) True body of
              None \<Rightarrow> None
            | Some (rs, rest) \<Rightarrow> map_option ((#) (Glob_Class negated rs)) (glob_parse n rest))
      else map_option ((#) (Glob_Literal c)) (glob_parse n cs))"

definition in_ranges :: "char \<Rightarrow> (char \<times> char) list \<Rightarrow> bool" where
  "in_ranges c rs = list_ex (\<lambda>(lo, hi). (of_char lo :: nat) \<le> of_char c \<and> (of_char c :: nat) \<le> of_char hi) rs"

fun glob_tokens :: "glob_token list \<Rightarrow> string \<Rightarrow> bool" where
  "glob_tokens [] s = (s = [])"
| "glob_tokens (Glob_Literal c # ts) s = (case s of [] \<Rightarrow> False | d # ds \<Rightarrow> c = d \<and> glob_tokens ts ds)"
| "glob_tokens (Glob_Any # ts) s =
     (case s of [] \<Rightarrow> False | d # ds \<Rightarrow> d \<noteq> CHR ''/'' \<and> glob_tokens ts ds)"
| "glob_tokens (Glob_Class neg rs # ts) s =
     (case s of [] \<Rightarrow> False | d # ds \<Rightarrow> in_ranges d rs \<noteq> neg \<and> glob_tokens ts ds)"
| "glob_tokens (Glob_Star # ts) [] = glob_tokens ts []"
| "glob_tokens (Glob_Star # ts) (d # ds) =
     (glob_tokens ts (d # ds) \<or> d \<noteq> CHR ''/'' \<and> glob_tokens (Glob_Star # ts) ds)"

definition glob_match :: "string \<Rightarrow> string \<Rightarrow> bool" where
  "glob_match pattern name =
     (case glob_parse (length pattern) pattern of None \<Rightarrow> False | Some ts \<Rightarrow> glob_tokens ts name)"

section \<open>Facts about patterns\<close>

definition plain :: "string \<Rightarrow> bool" where
  "plain p = list_all (\<lambda>c. \<not> List.member [CHR ''*'', CHR ''?'', CHR ''['', CHR 0x5C] c) p"

lemma glob_parse_plain:
  "plain p \<Longrightarrow> glob_parse (length p + n) (p @ q) =
     map_option ((@) (map Glob_Literal p)) (glob_parse n q)"
proof (induction p)
  case Nil
  show ?case by (cases "glob_parse n q") simp_all
qed (auto simp: plain_def option.map_comp comp_def intro: option.map_cong)

lemma glob_tokens_plain:
  "glob_tokens (map Glob_Literal p @ ts) s \<longleftrightarrow> has_prefix s p \<and> glob_tokens ts (drop (length p) s)"
  by (induction p arbitrary: s) (auto split: list.splits)

lemma has_prefix_refl_drop: "has_prefix s p \<Longrightarrow> drop (length p) s = [] \<Longrightarrow> s = p"
  by (auto simp: has_prefix_iff)

lemma glob_star_iff:
  "glob_tokens (Glob_Star # ts) s \<longleftrightarrow> (\<exists>u v. s = u @ v \<and> CHR ''/'' \<notin> set u \<and> glob_tokens ts v)"
proof (induction s)
  case (Cons d ds)
  show ?case
  proof
    assume "glob_tokens (Glob_Star # ts) (d # ds)"
    then show "\<exists>u v. d # ds = u @ v \<and> CHR ''/'' \<notin> set u \<and> glob_tokens ts v"
    proof (simp, elim disjE conjE)
      assume "glob_tokens ts (d # ds)"
      then show ?thesis by (intro exI [of _ "[]"] exI [of _ "d # ds"]) simp
    next
      assume "d \<noteq> CHR ''/''" "glob_tokens (Glob_Star # ts) ds"
      then obtain u v where "ds = u @ v" "CHR ''/'' \<notin> set u" "glob_tokens ts v" using Cons by auto
      then show ?thesis
        using \<open>d \<noteq> CHR ''/''\<close> by (intro exI [of _ "d # u"] exI [of _ v]) auto
    qed
  next
    assume "\<exists>u v. d # ds = u @ v \<and> CHR ''/'' \<notin> set u \<and> glob_tokens ts v"
    then obtain u v where uv: "d # ds = u @ v" "CHR ''/'' \<notin> set u" "glob_tokens ts v" by blast
    then show "glob_tokens (Glob_Star # ts) (d # ds)" using Cons by (cases u) auto
  qed
qed auto

lemma glob_match_plain: "plain p \<Longrightarrow> glob_match p s \<longleftrightarrow> s = p"
  using glob_parse_plain [of p 0 "[]"] glob_tokens_plain [of p "[]" s] has_prefix_refl_drop [of s p]
  by (auto simp: glob_match_def has_prefix_iff)

lemma glob_match_prefix_star:
  assumes "plain p"
  shows "glob_match (p @ ''*'') s \<longleftrightarrow> (\<exists>r. s = p @ r \<and> CHR ''/'' \<notin> set r)"
proof -
  have "glob_parse (length (p @ ''*'')) (p @ ''*'') = Some (map Glob_Literal p @ [Glob_Star])"
    using glob_parse_plain [OF assms, of 1 "''*''"] by simp
  then show ?thesis
    by (auto simp: glob_match_def glob_tokens_plain glob_star_iff has_prefix_iff)
qed

end
