(* ===== verification/Filter_Engine.thy ===== *)
theory Filter_Engine
  imports Glob
begin

text \<open>
  The nine-level filter in front of the pipeline (\<open>internal/filter/engine.go\<close>). Labels and
  annotations are \<open>labels option\<close>, \<open>None\<close> being the nil map. The regular expression engine is a
  parameter: \<open>re_compile p\<close> is \<open>None\<close> where \<open>regexp.Compile\<close> fails and else the compiled pattern's
  \<open>MatchString\<close>. The clock is an argument of the operations that read it. The lock only
  guards the policy list against a concurrent \<open>SetPolicies\<close>.

  \<open>filter_level\<close> states declaratively when each of the nine documented levels applies; the
  properties say that \<open>Evaluate\<close> excludes exactly when a level applies and reports the first one.
\<close>

section \<open>Data\<close>

definition AnnotationExclude :: string where "AnnotationExclude = ''wormsign.io/exclude''"
definition AnnotationExcludeDetectors :: string where
  "AnnotationExcludeDetectors = ''wormsign.io/exclude-detectors''"
definition AnnotationSuppress :: string where "AnnotationSuppress = ''wormsign.io/suppress''"

type_synonym FilterReason = string

definition ReasonNamespaceGlobal :: FilterReason where "ReasonNamespaceGlobal = ''namespace_global''"
definition ReasonNamespaceLabel :: FilterReason where "ReasonNamespaceLabel = ''namespace_label''"
definition ReasonSuppressPolicy :: FilterReason where "ReasonSuppressPolicy = ''suppress_policy''"
definition ReasonNamespaceAnnotation :: FilterReason where
  "ReasonNamespaceAnnotation = ''namespace_annotation''"
definition ReasonResourceAnnotation :: FilterReason where
  "ReasonResourceAnnotation = ''resource_annotation''"
definition ReasonOwnerAnnotation :: FilterReason where "ReasonOwnerAnnotation = ''owner_annotation''"
definition ReasonPolicyExclude :: FilterReason where "ReasonPolicyExclude = ''policy_exclude''"

lemmas reason_defs = ReasonNamespaceGlobal_def ReasonNamespaceLabel_def ReasonSuppressPolicy_def
  ReasonNamespaceAnnotation_def ReasonResourceAnnotation_def ReasonOwnerAnnotation_def
  ReasonPolicyExclude_def

record FilterResult =
  fr_Excluded :: bool
  fr_Reason :: FilterReason
  fr_DetectorExcluded :: bool
  fr_ExcludedDetectors :: "string list"

record ResourceMeta =
  rm_Kind :: string
  rm_Namespace :: string
  rm_Name :: string
  rm_UID :: string
  rm_Labels :: "labels option"
  rm_Annotations :: "labels option"

record NamespaceMeta =
  nm_Name :: string
  nm_Labels :: "labels option"
  nm_Annotations :: "labels option"

record OwnerMeta =
  om_Kind :: string
  om_Name :: string
  om_UID :: string
  om_Annotations :: "labels option"

record LabelSelectorRequirement =
  lsr_Key :: string
  lsr_Operator :: string
  lsr_Values :: "string list"

record LabelSelector =
  ls_MatchLabels :: labels
  ls_MatchExpressions :: "LabelSelectorRequirement list"

record PolicySchedule =
  sch_Start :: gotime
  sch_End :: gotime

record Policy =
  pol_Name :: string
  pol_Namespace :: string
  pol_Action :: string
  pol_Detectors :: "string list"
  pol_NamespaceSelector :: "LabelSelector option"
  pol_ResourceSelector :: "LabelSelector option"
  pol_OwnerNames :: "string list"
  pol_Schedule :: "PolicySchedule option"

record FilterInput =
  fi_DetectorName :: string
  fi_Resource :: ResourceMeta
  fi_Namespace :: NamespaceMeta
  fi_Owners :: "OwnerMeta list"

record GlobalFilterConfig =
  gfc_ExcludeNamespaces :: "string list"
  gfc_ExcludeNamespaceSelector :: "LabelSelector option"

record namespacePattern =
  np_raw :: string
  np_exact :: bool
  np_re :: "(string \<Rightarrow> bool) option"

record Engine =
  eng_globalConfig :: GlobalFilterConfig
  eng_compiledPatterns :: "namespacePattern list"
  eng_policies :: "Policy list"

datatype filter_error = InvalidPattern string

section \<open>Matching helpers\<close>

definition isAnnotationTrue :: "labels option \<Rightarrow> string \<Rightarrow> bool" where
  "isAnnotationTrue annotations key =
     (case annotations of None \<Rightarrow> False
      | Some m \<Rightarrow> equal_fold_ascii (map_get m [] key) ''true'')"

fun ownerHasAnnotationTrue :: "OwnerMeta list \<Rightarrow> string \<Rightarrow> bool" where
  "ownerHasAnnotationTrue [] key = False"
| "ownerHasAnnotationTrue (owner # owners) key =
     (if isAnnotationTrue (om_Annotations owner) key then True else ownerHasAnnotationTrue owners key)"

fun trim_parts :: "string list \<Rightarrow> string list" where
  "trim_parts [] = []"
| "trim_parts (p # ps) =
     (let trimmed = trim_space p
      in if trimmed \<noteq> [] then trimmed # trim_parts ps else trim_parts ps)"

definition getExcludedDetectors :: "labels option \<Rightarrow> string list" where
  "getExcludedDetectors annotations =
     (case annotations of None \<Rightarrow> []
      | Some m \<Rightarrow>
          (case map_of m AnnotationExcludeDetectors of
             None \<Rightarrow> []
           | Some val \<Rightarrow> if val = [] then [] else trim_parts (split_char (CHR '','') val)))"

fun add_unseen :: "string list \<times> string list \<Rightarrow> string list \<Rightarrow> string list \<times> string list" where
  "add_unseen (all, seen) [] = (all, seen)"
| "add_unseen (all, seen) (d # ds) =
     (if \<not> List.member seen d then add_unseen (all @ [d], d # seen) ds else add_unseen (all, seen) ds)"

definition getOwnerExcludedDetectors :: "OwnerMeta list \<Rightarrow> string list" where
  "getOwnerExcludedDetectors owners =
     fst (foldl (\<lambda>acc owner. add_unseen acc (getExcludedDetectors (om_Annotations owner))) ([], []) owners)"

fun containsDetector :: "string list \<Rightarrow> string \<Rightarrow> bool" where
  "containsDetector [] name = False"
| "containsDetector (d # ds) name = (if d = name then True else containsDetector ds name)"

definition matchesLabelRequirement :: "labels option \<Rightarrow> LabelSelectorRequirement \<Rightarrow> bool" where
  "matchesLabelRequirement lbls req =
     (let found = (case lbls of None \<Rightarrow> None | Some m \<Rightarrow> map_of m (lsr_Key req)) in
      if lsr_Operator req = ''In'' then
        (case found of None \<Rightarrow> False | Some val \<Rightarrow> list_ex (\<lambda>v. v = val) (lsr_Values req))
      else if lsr_Operator req = ''NotIn'' then
        (case found of None \<Rightarrow> True | Some val \<Rightarrow> \<not> list_ex (\<lambda>v. v = val) (lsr_Values req))
      else if lsr_Operator req = ''Exists'' then found \<noteq> None
      else if lsr_Operator req = ''DoesNotExist'' then found = None
      else False)"

definition matchesLabelSelector :: "labels option \<Rightarrow> LabelSelector option \<Rightarrow> bool" where
  "matchesLabelSelector lbls selector =
     (case selector of None \<Rightarrow> True
      | Some sel \<Rightarrow>
          list_all (\<lambda>(key, val). case lbls of None \<Rightarrow> False | Some m \<Rightarrow> map_get m [] key = val)
            (ls_MatchLabels sel) \<and>
          list_all (matchesLabelRequirement lbls) (ls_MatchExpressions sel))"

fun owner_matches_any :: "OwnerMeta \<Rightarrow> string list \<Rightarrow> bool" where
  "owner_matches_any owner [] = False"
| "owner_matches_any owner (pattern # patterns) =
     (if glob_match pattern (om_Name owner) then True else owner_matches_any owner patterns)"

fun matchesOwnerNames :: "OwnerMeta list \<Rightarrow> string list \<Rightarrow> bool" where
  "matchesOwnerNames [] patterns = False"
| "matchesOwnerNames (owner # owners) patterns =
     (if owner_matches_any owner patterns then True else matchesOwnerNames owners patterns)"

section \<open>Namespace patterns\<close>

fun hasRegexMeta :: "string \<Rightarrow> bool" where
  "hasRegexMeta [] = False"
| "hasRegexMeta (ch # s) =
     (if List.member [CHR ''.'', CHR ''*'', CHR ''+'', CHR ''?'', CHR ''('', CHR '')'', CHR ''['',
          CHR '']'', CHR ''{'', CHR ''}'', CHR ''^'', CHR ''$'', CHR ''|'', CHR 0x5C] ch
      then True else hasRegexMeta s)"

definition anchored :: "string \<Rightarrow> string" where
  "anchored p =
     (let a = (if \<not> has_prefix p ''^'' then ''^'' @ p else p)
      in if \<not> has_suffix a ''$'' then a @ ''$'' else a)"

fun compileNamespacePatterns ::
    "(string \<Rightarrow> (string \<Rightarrow> bool) option) \<Rightarrow> string list \<Rightarrow> filter_error + namespacePattern list" where
  "compileNamespacePatterns re_compile [] = Inr []"
| "compileNamespacePatterns re_compile (p # ps) =
     (if p = [] then compileNamespacePatterns re_compile ps
      else if hasRegexMeta p then
        (case re_compile (anchored p) of
           None \<Rightarrow> Inl (InvalidPattern p)
         | Some re \<Rightarrow>
             map_sum id ((#) \<lparr>np_raw = p, np_exact = False, np_re = Some re\<rparr>)
               (compileNamespacePatterns re_compile ps))
      else map_sum id ((#) \<lparr>np_raw = p, np_exact = True, np_re = None\<rparr>)
             (compileNamespacePatterns re_compile ps))"

section \<open>The engine\<close>

definition NewEngine ::
    "(string \<Rightarrow> (string \<Rightarrow> bool) option) \<Rightarrow> GlobalFilterConfig \<Rightarrow> filter_error + Engine" where
  "NewEngine re_compile config =
     (case compileNamespacePatterns re_compile (gfc_ExcludeNamespaces config) of
        Inl e \<Rightarrow> Inl e
      | Inr patterns \<Rightarrow> Inr \<lparr>eng_globalConfig = config, eng_compiledPatterns = patterns,
                             eng_policies = []\<rparr>)"

definition SetPolicies :: "Engine \<Rightarrow> Policy list \<Rightarrow> Engine" where
  "SetPolicies e policies = e\<lparr>eng_policies := policies\<rparr>"

fun pattern_loop :: "namespacePattern list \<Rightarrow> string \<Rightarrow> bool" where
  "pattern_loop [] namespace = False"
| "pattern_loop (p # ps) namespace =
     (if np_exact p
      then (if np_raw p = namespace then True else pattern_loop ps namespace)
      else case np_re p of
        None \<Rightarrow> pattern_loop ps namespace
      | Some re \<Rightarrow> (if re namespace then True else pattern_loop ps namespace))"

definition matchesGlobalNamespaceExclusion :: "Engine \<Rightarrow> string \<Rightarrow> bool" where
  "matchesGlobalNamespaceExclusion e namespace = pattern_loop (eng_compiledPatterns e) namespace"

definition matchesNamespaceLabelSelector :: "Engine \<Rightarrow> labels option \<Rightarrow> bool" where
  "matchesNamespaceLabelSelector e lbls =
     (case gfc_ExcludeNamespaceSelector (eng_globalConfig e) of
        None \<Rightarrow> False
      | Some sel \<Rightarrow>
          if ls_MatchLabels sel = [] \<and> ls_MatchExpressions sel = [] then False
          else matchesLabelSelector lbls (Some sel))"

definition policyAppliesToNamespace :: "Policy \<Rightarrow> NamespaceMeta \<Rightarrow> bool" where
  "policyAppliesToNamespace p ns =
     (case pol_NamespaceSelector p of
        Some sel \<Rightarrow> matchesLabelSelector (nm_Labels ns) (Some sel)
      | None \<Rightarrow> pol_Namespace p = nm_Name ns)"

fun suppress_loop :: "gotime \<Rightarrow> FilterInput \<Rightarrow> Policy list \<Rightarrow> string" where
  "suppress_loop now input [] = []"
| "suppress_loop now input (p # ps) =
     (if pol_Action p \<noteq> ''Suppress'' then suppress_loop now input ps
      else if (case pol_Schedule p of None \<Rightarrow> False
               | Some sch \<Rightarrow> now < sch_Start sch \<or> sch_End sch < now) then suppress_loop now input ps
      else if \<not> policyAppliesToNamespace p (fi_Namespace input) then suppress_loop now input ps
      else if pol_Detectors p \<noteq> [] \<and> \<not> containsDetector (pol_Detectors p) (fi_DetectorName input)
        then suppress_loop now input ps
      else pol_Name p)"

definition matchesSuppressPolicy :: "gotime \<Rightarrow> Engine \<Rightarrow> FilterInput \<Rightarrow> string" where
  "matchesSuppressPolicy now e input = suppress_loop now input (eng_policies e)"

fun exclude_loop :: "FilterInput \<Rightarrow> Policy list \<Rightarrow> string" where
  "exclude_loop input [] = []"
| "exclude_loop input (p # ps) =
     (if pol_Action p \<noteq> ''Exclude'' then exclude_loop input ps
      else if \<not> policyAppliesToNamespace p (fi_Namespace input) then exclude_loop input ps
      else if pol_Detectors p \<noteq> [] \<and> \<not> containsDetector (pol_Detectors p) (fi_DetectorName input)
        then exclude_loop input ps
      else if pol_ResourceSelector p \<noteq> None \<and>
              \<not> matchesLabelSelector (rm_Labels (fi_Resource input)) (pol_ResourceSelector p)
        then exclude_loop input ps
      else if pol_OwnerNames p \<noteq> [] \<and> \<not> matchesOwnerNames (fi_Owners input) (pol_OwnerNames p)
        then exclude_loop input ps
      else pol_Name p)"

definition matchesExcludePolicy :: "Engine \<Rightarrow> FilterInput \<Rightarrow> string" where
  "matchesExcludePolicy e input = exclude_loop input (eng_policies e)"

definition excluded_for :: "FilterReason \<Rightarrow> FilterResult" where
  "excluded_for reason = \<lparr>fr_Excluded = True, fr_Reason = reason, fr_DetectorExcluded = False,
     fr_ExcludedDetectors = []\<rparr>"

definition detector_excluded_for :: "FilterReason \<Rightarrow> string list \<Rightarrow> FilterResult" where
  "detector_excluded_for reason ds = \<lparr>fr_Excluded = True, fr_Reason = reason,
     fr_DetectorExcluded = True, fr_ExcludedDetectors = ds\<rparr>"

definition Evaluate :: "gotime \<Rightarrow> Engine \<Rightarrow> FilterInput \<Rightarrow> FilterResult" where
  "Evaluate now e input =
     (if matchesGlobalNamespaceExclusion e (nm_Name (fi_Namespace input))
        then excluded_for ReasonNamespaceGlobal
      else if matchesNamespaceLabelSelector e (nm_Labels (fi_Namespace input))
        then excluded_for ReasonNamespaceLabel
      else if matchesSuppressPolicy now e input \<noteq> [] then excluded_for ReasonSuppressPolicy
      else if isAnnotationTrue (nm_Annotations (fi_Namespace input)) AnnotationSuppress
        then excluded_for ReasonNamespaceAnnotation
      else if isAnnotationTrue (rm_Annotations (fi_Resource input)) AnnotationExclude
        then excluded_for ReasonResourceAnnotation
      else if ownerHasAnnotationTrue (fi_Owners input) AnnotationExclude
        then excluded_for ReasonOwnerAnnotation
      else
        let detectors = getExcludedDetectors (rm_Annotations (fi_Resource input)) in
        if 0 < length detectors \<and> containsDetector detectors (fi_DetectorName input)
          then detector_excluded_for ReasonResourceAnnotation detectors
        else
          let owner_detectors = getOwnerExcludedDetectors (fi_Owners input) in
          if 0 < length owner_detectors \<and> containsDetector owner_detectors (fi_DetectorName input)
            then detector_excluded_for ReasonOwnerAnnotation owner_detectors
          else if matchesExcludePolicy e input \<noteq> [] then excluded_for ReasonPolicyExclude
          else \<lparr>fr_Excluded = False, fr_Reason = [], fr_DetectorExcluded = False,
                fr_ExcludedDetectors = []\<rparr>)"

section \<open>What the levels mean\<close>

definition lists_detector :: "string \<Rightarrow> labels option \<Rightarrow> bool" where
  "lists_detector name annotations \<longleftrightarrow> name \<noteq> [] \<and>
     (case annotations of None \<Rightarrow> False
      | Some m \<Rightarrow> (case map_of m AnnotationExcludeDetectors of None \<Rightarrow> False
          | Some val \<Rightarrow> list_ex (\<lambda>part. trim_space part = name) (split_char (CHR '','') val)))"

definition covers :: "FilterInput \<Rightarrow> Policy \<Rightarrow> bool" where
  "covers input p \<longleftrightarrow> policyAppliesToNamespace p (fi_Namespace input) \<and>
     (pol_Detectors p = [] \<or> List.member (pol_Detectors p) (fi_DetectorName input))"

definition suppressing :: "gotime \<Rightarrow> FilterInput \<Rightarrow> Policy \<Rightarrow> bool" where
  "suppressing now input p \<longleftrightarrow> pol_Action p = ''Suppress'' \<and> covers input p \<and>
     (case pol_Schedule p of None \<Rightarrow> True | Some sch \<Rightarrow> sch_Start sch \<le> now \<and> now \<le> sch_End sch)"

definition excluding :: "FilterInput \<Rightarrow> Policy \<Rightarrow> bool" where
  "excluding input p \<longleftrightarrow> pol_Action p = ''Exclude'' \<and> covers input p \<and>
     matchesLabelSelector (rm_Labels (fi_Resource input)) (pol_ResourceSelector p) \<and>
     (pol_OwnerNames p = [] \<or>
      list_ex (\<lambda>owner. list_ex (\<lambda>g. glob_match g (om_Name owner)) (pol_OwnerNames p)) (fi_Owners input))"

definition pattern_hits :: "(string \<Rightarrow> (string \<Rightarrow> bool) option) \<Rightarrow> string \<Rightarrow> string \<Rightarrow> bool" where
  "pattern_hits re_compile ns p \<longleftrightarrow> p \<noteq> [] \<and>
     (if hasRegexMeta p
      then (case re_compile (anchored p) of None \<Rightarrow> False | Some re \<Rightarrow> re ns) else p = ns)"

definition namespace_excluded :: "(string \<Rightarrow> (string \<Rightarrow> bool) option) \<Rightarrow> string list \<Rightarrow> string \<Rightarrow> bool" where
  "namespace_excluded re_compile ps ns = list_ex (pattern_hits re_compile ns) ps"

definition filter_level ::
    "(string \<Rightarrow> (string \<Rightarrow> bool) option) \<Rightarrow> GlobalFilterConfig \<Rightarrow> Policy list \<Rightarrow> gotime \<Rightarrow>
     FilterInput \<Rightarrow> nat \<Rightarrow> bool" where
  "filter_level re_compile cfg ps now input i =
     (if i = 1 then
        namespace_excluded re_compile (gfc_ExcludeNamespaces cfg) (nm_Name (fi_Namespace input))
      else if i = 2 then
        (case gfc_ExcludeNamespaceSelector cfg of None \<Rightarrow> False
         | Some sel \<Rightarrow> (ls_MatchLabels sel \<noteq> [] \<or> ls_MatchExpressions sel \<noteq> []) \<and>
             matchesLabelSelector (nm_Labels (fi_Namespace input)) (Some sel))
      else if i = 3 then list_ex (suppressing now input) ps
      else if i = 4 then isAnnotationTrue (nm_Annotations (fi_Namespace input)) AnnotationSuppress
      else if i = 5 then isAnnotationTrue (rm_Annotations (fi_Resource input)) AnnotationExclude
      else if i = 6 then list_ex (\<lambda>o'. isAnnotationTrue (om_Annotations o') AnnotationExclude) (fi_Owners input)
      else if i = 7 then lists_detector (fi_DetectorName input) (rm_Annotations (fi_Resource input))
      else if i = 8 then list_ex (\<lambda>o'. lists_detector (fi_DetectorName input) (om_Annotations o')) (fi_Owners input)
      else i = 9 \<and> list_ex (excluding input) ps)"

definition level_reason :: "nat \<Rightarrow> FilterReason" where
  "level_reason i = [[], ReasonNamespaceGlobal, ReasonNamespaceLabel, ReasonSuppressPolicy,
     ReasonNamespaceAnnotation, ReasonResourceAnnotation, ReasonOwnerAnnotation,
     ReasonResourceAnnotation, ReasonOwnerAnnotation, ReasonPolicyExclude] ! i"

definition filter_levels :: "nat list" where
  "filter_levels = [1, 2, 3, 4, 5, 6, 7, 8, 9]"

section \<open>The helpers compute the levels\<close>

lemma containsDetector_iff [simp]: "containsDetector ds name \<longleftrightarrow> name \<in> set ds"
  by (induction ds) auto

lemma ownerHasAnnotationTrue_iff:
  "ownerHasAnnotationTrue owners key \<longleftrightarrow> list_ex (\<lambda>o'. isAnnotationTrue (om_Annotations o') key) owners"
  by (induction owners) auto

lemma trim_parts_eq: "trim_parts ps = filter (\<lambda>t. t \<noteq> []) (map trim_space ps)"
  by (induction ps) (auto simp: Let_def)

lemma trim_space_Nil [simp]: "trim_space [] = []"
  by (simp add: trim_space_def trim_left_def trim_right_def)

lemma getExcludedDetectors_set:
  "name \<in> set (getExcludedDetectors as) \<longleftrightarrow> lists_detector name as"
proof (cases as)
  case (Some m)
  show ?thesis
  proof (cases "map_of m AnnotationExcludeDetectors")
    case (Some val)
    with \<open>as = Some m\<close> show ?thesis
      by (cases "val = []")
        (auto simp: getExcludedDetectors_def lists_detector_def trim_parts_eq list_ex_iff)
  qed (simp add: getExcludedDetectors_def lists_detector_def \<open>as = Some m\<close>)
qed (simp add: getExcludedDetectors_def lists_detector_def)

lemma add_unseen_set:
  "set all = set seen \<Longrightarrow> add_unseen (all, seen) ds = (all', seen') \<Longrightarrow>
   set all' = set all \<union> set ds \<and> set seen' = set all' \<and> (distinct all \<longrightarrow> distinct all')"
proof (induction "(all, seen)" ds arbitrary: all seen rule: add_unseen.induct)
  case (2 all seen d ds)
  then show ?case by (cases "d \<in> set seen") auto
qed auto

lemma getOwnerExcludedDetectors_spec:
  "set (getOwnerExcludedDetectors owners) =
     (\<Union>o' \<in> set owners. set (getExcludedDetectors (om_Annotations o'))) \<and>
   distinct (getOwnerExcludedDetectors owners)"
proof -
  define f where "f = (\<lambda>acc (owner :: OwnerMeta). add_unseen acc (getExcludedDetectors (om_Annotations owner)))"
  have "set (fst (foldl f ([], []) owners)) =
      (\<Union>o' \<in> set owners. set (getExcludedDetectors (om_Annotations o'))) \<and>
    set (snd (foldl f ([], []) owners)) = set (fst (foldl f ([], []) owners)) \<and>
    distinct (fst (foldl f ([], []) owners))"
  proof (induction owners rule: rev_induct)
    case (snoc o' owners)
    obtain all seen where as: "foldl f ([], []) owners = (all, seen)" by fastforce
    obtain all' seen' where as': "f (all, seen) o' = (all', seen')" by fastforce
    show ?case
      using snoc add_unseen_set [of all seen _ all' seen'] as as' by (auto simp: f_def)
  qed simp
  then show ?thesis by (simp add: getOwnerExcludedDetectors_def f_def)
qed

lemma getOwnerExcludedDetectors_set:
  "name \<in> set (getOwnerExcludedDetectors owners) \<longleftrightarrow>
     list_ex (\<lambda>o'. lists_detector name (om_Annotations o')) owners"
  by (auto simp: getOwnerExcludedDetectors_spec getExcludedDetectors_set list_ex_iff)

lemma owner_matches_any_iff:
  "owner_matches_any owner ps \<longleftrightarrow> list_ex (\<lambda>g. glob_match g (om_Name owner)) ps"
  by (induction ps) auto

lemma matchesOwnerNames_iff:
  "matchesOwnerNames owners ps \<longleftrightarrow>
     list_ex (\<lambda>owner. list_ex (\<lambda>g. glob_match g (om_Name owner)) ps) owners"
  by (induction owners) (auto simp: owner_matches_any_iff)

lemma suppress_loop_nonempty:
  "list_all (\<lambda>p. pol_Name p \<noteq> []) ps \<Longrightarrow>
   suppress_loop now input ps \<noteq> [] \<longleftrightarrow> list_ex (suppressing now input) ps"
  by (induction ps) (auto simp: suppressing_def covers_def split: option.splits)

lemma exclude_loop_nonempty:
  "list_all (\<lambda>p. pol_Name p \<noteq> []) ps \<Longrightarrow>
   exclude_loop input ps \<noteq> [] \<longleftrightarrow> list_ex (excluding input) ps"
  by (induction ps) (auto simp: excluding_def covers_def matchesOwnerNames_iff matchesLabelSelector_def)

lemma pattern_loop_compiled:
  "compileNamespacePatterns re_compile ps = Inr nps \<Longrightarrow>
   pattern_loop nps ns \<longleftrightarrow> namespace_excluded re_compile ps ns"
  unfolding namespace_excluded_def
proof (induction re_compile ps arbitrary: nps rule: compileNamespacePatterns.induct)
  case (2 re_compile p ps)
  consider (empty) "p = []" | (regex) "p \<noteq> []" "hasRegexMeta p" | (exact) "p \<noteq> []" "\<not> hasRegexMeta p"
    by blast
  then show ?case
  proof cases
    case empty
    with 2 show ?thesis by (simp add: pattern_hits_def)
  next
    case regex
    with "2.prems" obtain re nps' where r: "re_compile (anchored p) = Some re"
      "compileNamespacePatterns re_compile ps = Inr nps'"
      "nps = \<lparr>np_raw = p, np_exact = False, np_re = Some re\<rparr> # nps'"
      by (auto split: option.splits simp: map_sum_def split: sum.splits)
    with 2 regex show ?thesis by (simp add: pattern_hits_def)
  next
    case exact
    with "2.prems" obtain nps' where r: "compileNamespacePatterns re_compile ps = Inr nps'"
      "nps = \<lparr>np_raw = p, np_exact = True, np_re = None\<rparr> # nps'"
      by (cases "compileNamespacePatterns re_compile ps") auto
    with 2 exact show ?thesis by (simp add: pattern_hits_def)
  qed
qed simp

lemma NewEngine_Inr:
  assumes "NewEngine re_compile cfg = Inr e"
  shows "eng_globalConfig e = cfg"
    "matchesGlobalNamespaceExclusion (SetPolicies e ps) ns \<longleftrightarrow>
       namespace_excluded re_compile (gfc_ExcludeNamespaces cfg) ns"
  using assms pattern_loop_compiled [of re_compile "gfc_ExcludeNamespaces cfg" _ ns]
  by (auto simp: NewEngine_def SetPolicies_def matchesGlobalNamespaceExclusion_def split: sum.splits)

lemma SetPolicies_fields [simp]:
  "eng_policies (SetPolicies e ps) = ps" "eng_globalConfig (SetPolicies e ps) = eng_globalConfig e"
  by (simp_all add: SetPolicies_def)

lemmas level_helpers = matchesNamespaceLabelSelector_def matchesSuppressPolicy_def
  matchesExcludePolicy_def ownerHasAnnotationTrue_iff
  getExcludedDetectors_set getOwnerExcludedDetectors_set

section \<open>Properties\<close>

text \<open>
  C33. The filter honours the documented order: for an engine compiled from a configuration and
  carrying named policies, \<open>Evaluate\<close> excludes the resource exactly when one of the nine levels
  applies, and the reason it reports is the reason of the first level that applies.
\<close>

theorem evaluate_first_level:
  assumes "NewEngine re_compile cfg = Inr e" "list_all (\<lambda>p. pol_Name p \<noteq> []) ps"
  shows "case find (filter_level re_compile cfg ps now input) filter_levels of
      None \<Rightarrow> \<not> fr_Excluded (Evaluate now (SetPolicies e ps) input) \<and>
              fr_Reason (Evaluate now (SetPolicies e ps) input) = []
    | Some i \<Rightarrow> fr_Excluded (Evaluate now (SetPolicies e ps) input) \<and>
                fr_Reason (Evaluate now (SetPolicies e ps) input) = level_reason i"
proof -
  let ?e = "SetPolicies e ps" and ?L = "filter_level re_compile cfg ps now input"
  note c = NewEngine_Inr [OF assms(1)]
  have len: "0 < length ds \<and> n \<in> set ds \<longleftrightarrow> n \<in> set ds" for ds and n :: string
    by (cases ds) auto
  have L: "matchesGlobalNamespaceExclusion ?e (nm_Name (fi_Namespace input)) = ?L 1"
    "matchesNamespaceLabelSelector ?e (nm_Labels (fi_Namespace input)) = ?L 2"
    "(matchesSuppressPolicy now ?e input \<noteq> []) = ?L 3"
    "isAnnotationTrue (nm_Annotations (fi_Namespace input)) AnnotationSuppress = ?L 4"
    "isAnnotationTrue (rm_Annotations (fi_Resource input)) AnnotationExclude = ?L 5"
    "ownerHasAnnotationTrue (fi_Owners input) AnnotationExclude = ?L 6"
    "(0 < length (getExcludedDetectors (rm_Annotations (fi_Resource input))) \<and>
      containsDetector (getExcludedDetectors (rm_Annotations (fi_Resource input))) (fi_DetectorName input)) = ?L 7"
    "(0 < length (getOwnerExcludedDetectors (fi_Owners input)) \<and>
      containsDetector (getOwnerExcludedDetectors (fi_Owners input)) (fi_DetectorName input)) = ?L 8"
    "(matchesExcludePolicy ?e input \<noteq> []) = ?L 9"
    using suppress_loop_nonempty [OF assms(2)] exclude_loop_nonempty [OF assms(2)]
    by (simp_all only: containsDetector_iff len)
      (simp_all add: filter_level_def c level_helpers split: option.split, auto)
  show ?thesis
    unfolding Evaluate_def Let_def L
    by (simp add: filter_levels_def level_reason_def excluded_for_def detector_excluded_for_def)
qed

text \<open>
  A label selector matches a non-nil label set exactly when every \<open>matchLabels\<close> entry finds
  its value and every expression holds, where an entry with an empty value also accepts a set that
  does not have the key at all (the lookup of a missing key yields the empty string).
\<close>

theorem label_selector_matches_iff:
  "matchesLabelSelector (Some m) (Some sel) \<longleftrightarrow>
     list_all (\<lambda>(k, v). map_of m k = Some v \<or> v = [] \<and> map_of m k = None) (ls_MatchLabels sel) \<and>
     list_all (\<lambda>req.
       lsr_Operator req = ''In'' \<and> (\<exists>v. map_of m (lsr_Key req) = Some v \<and> v \<in> set (lsr_Values req)) \<or>
       lsr_Operator req = ''NotIn'' \<and> (\<nexists>v. map_of m (lsr_Key req) = Some v \<and> v \<in> set (lsr_Values req)) \<or>
       lsr_Operator req = ''Exists'' \<and> has_key m (lsr_Key req) \<or>
       lsr_Operator req = ''DoesNotExist'' \<and> map_of m (lsr_Key req) = None) (ls_MatchExpressions sel)"
proof -
  have l: "map_get m [] k = v \<longleftrightarrow> map_of m k = Some v \<or> v = [] \<and> map_of m k = None" for k v
    by (auto simp: map_get_def split: option.split)
  have r: "matchesLabelRequirement (Some m) req \<longleftrightarrow>
       lsr_Operator req = ''In'' \<and> (\<exists>v. map_of m (lsr_Key req) = Some v \<and> v \<in> set (lsr_Values req)) \<or>
       lsr_Operator req = ''NotIn'' \<and> (\<nexists>v. map_of m (lsr_Key req) = Some v \<and> v \<in> set (lsr_Values req)) \<or>
       lsr_Operator req = ''Exists'' \<and> has_key m (lsr_Key req) \<or>
       lsr_Operator req = ''DoesNotExist'' \<and> map_of m (lsr_Key req) = None" for req
    by (cases "map_of m (lsr_Key req)") (auto simp: matchesLabelRequirement_def Let_def list_ex_iff)
  show ?thesis unfolding matchesLabelSelector_def by (simp add: l list_all_iff r)
qed

text \<open>
  Owner patterns: a pattern without glob characters matches exactly the owner of that name,
  and such a pattern followed by \<open>*\<close> matches every owner whose name extends it without a slash.
\<close>

theorem owner_patterns_match:
  assumes "plain p"
  shows "(matchesOwnerNames owners [p] \<longleftrightarrow> list_ex (\<lambda>owner. om_Name owner = p) owners) \<and>
    (matchesOwnerNames owners [p @ ''*''] \<longleftrightarrow>
       list_ex (\<lambda>owner. \<exists>r. om_Name owner = p @ r \<and> CHR ''/'' \<notin> set r) owners)"
  by (simp add: matchesOwnerNames_iff glob_match_plain [OF assms] glob_match_prefix_star [OF assms])

section \<open>Witnesses\<close>

definition ex_filter_config :: GlobalFilterConfig where
  "ex_filter_config = \<lparr>gfc_ExcludeNamespaces = [''kube-system'', ''test-.*''],
     gfc_ExcludeNamespaceSelector = None\<rparr>"

text \<open>A compiler that knows one pattern, standing for the regular expression package.\<close>

definition ex_re_compile :: "string \<Rightarrow> (string \<Rightarrow> bool) option" where
  "ex_re_compile p = (if p = ''^test-.*$'' then Some (\<lambda>s. has_prefix s ''test-'') else None)"

definition ex_policy :: Policy where
  "ex_policy = \<lparr>pol_Name = ''maintenance'', pol_Namespace = ''prod'', pol_Action = ''Suppress'',
     pol_Detectors = [], pol_NamespaceSelector = None, pol_ResourceSelector = None,
     pol_OwnerNames = [], pol_Schedule = Some \<lparr>sch_Start = 10, sch_End = 20\<rparr>\<rparr>"

definition ex_input :: "string \<Rightarrow> FilterInput" where
  "ex_input ns = \<lparr>fi_DetectorName = ''PodFailed'',
     fi_Resource = \<lparr>rm_Kind = ''Pod'', rm_Namespace = ns, rm_Name = ''p'', rm_UID = ''u'',
       rm_Labels = None, rm_Annotations = Some [(AnnotationExclude, ''TRUE'')]\<rparr>,
     fi_Namespace = \<lparr>nm_Name = ns, nm_Labels = None, nm_Annotations = None\<rparr>, fi_Owners = []\<rparr>"

lemma ex_engine: "\<exists>e. NewEngine ex_re_compile ex_filter_config = Inr e"
  by (simp add: NewEngine_def ex_filter_config_def ex_re_compile_def anchored_def has_suffix_def)

theorem evaluate_first_level_witness:
  "\<exists>e. NewEngine ex_re_compile ex_filter_config = Inr e \<and>
     fr_Reason (Evaluate 15 (SetPolicies e [ex_policy]) (ex_input ''test-1'')) = ReasonNamespaceGlobal \<and>
     fr_Reason (Evaluate 15 (SetPolicies e [ex_policy]) (ex_input ''prod'')) = ReasonSuppressPolicy \<and>
     fr_Reason (Evaluate 25 (SetPolicies e [ex_policy]) (ex_input ''prod'')) = ReasonResourceAnnotation"
proof -
  obtain e where e: "NewEngine ex_re_compile ex_filter_config = Inr e" using ex_engine by blast
  have named: "list_all (\<lambda>p. pol_Name p \<noteq> []) [ex_policy]" by (simp add: ex_policy_def)
  note spec = evaluate_first_level [OF e named]
  have "find (filter_level ex_re_compile ex_filter_config [ex_policy] 15 (ex_input ''test-1'')) filter_levels = Some 1"
    "find (filter_level ex_re_compile ex_filter_config [ex_policy] 15 (ex_input ''prod'')) filter_levels = Some 3"
    "find (filter_level ex_re_compile ex_filter_config [ex_policy] 25 (ex_input ''prod'')) filter_levels = Some 5"
    by code_simp+
  then show ?thesis
    using e spec [of 15 "ex_input ''test-1''"] spec [of 15 "ex_input ''prod''"]
      spec [of 25 "ex_input ''prod''"]
    by (simp add: level_reason_def)
qed

theorem owner_patterns_match_witness:
  "matchesOwnerNames [\<lparr>om_Kind = ''Deployment'', om_Name = ''canary-web'', om_UID = ''u'',
     om_Annotations = None\<rparr>] [''canary-'' @ ''*'']"
  using owner_patterns_match [of "''canary-''" "[\<lparr>om_Kind = ''Deployment'', om_Name = ''canary-web'',
     om_UID = ''u'', om_Annotations = None\<rparr>]"]
  by (simp add: plain_def del: matchesOwnerNames.simps)

end
