(* ===== verification/Correlator.thy ===== *)
theory Correlator
  imports Model
begin

text \<open>
  The correlation engine (\<open>internal/pipeline/correlator/correlator.go\<close> and \<open>rules.go\<close>): the
  buffer of the current window, the four rules in their order and the pass-through of what no rule
  consumed. The set of consumed event IDs is the list of its keys. A rule ranges over a Go map, in
  an order the language leaves open: each rule takes that order as a function on the keys, and the
  properties assume only that it permutes them (\<open>permuting\<close>). Each call of
  \<open>model.NewSuperEvent\<close> consumes the next reading of the random source and the clock from \<open>env\<close>;
  the counter of readings is part of the evaluation state.

  The locale \<open>correlation_rule\<close> is the contract of a rule: the events of the super-events it
  makes are exactly the events it takes out of the window. It is interpreted by the four rules;
  the conservation of events through a whole window follows from the contract alone.
\<close>

section \<open>Configuration\<close>

record NodeCascadeConfig =
  ncc_Enabled :: bool
  ncc_MinPodFailures :: goint

record DeploymentRolloutConfig =
  drc_Enabled :: bool
  drc_MinPodFailures :: goint

record StorageCascadeConfig =
  scc_Enabled :: bool

record NamespaceStormConfig =
  nsc_Enabled :: bool
  nsc_Threshold :: goint

record RulesConfig =
  rc_NodeCascade :: NodeCascadeConfig
  rc_DeploymentRollout :: DeploymentRolloutConfig
  rc_StorageCascade :: StorageCascadeConfig
  rc_NamespaceStorm :: NamespaceStormConfig

record CorrelatorConfig =
  cc_Enabled :: bool
  cc_WindowDuration :: duration
  cc_Rules :: RulesConfig

definition DefaultCorrelatorConfig :: CorrelatorConfig where
  "DefaultCorrelatorConfig = \<lparr>cc_Enabled = True, cc_WindowDuration = 2 * minute,
     cc_Rules = \<lparr>rc_NodeCascade = \<lparr>ncc_Enabled = True, ncc_MinPodFailures = 2\<rparr>,
       rc_DeploymentRollout = \<lparr>drc_Enabled = True, drc_MinPodFailures = 3\<rparr>,
       rc_StorageCascade = \<lparr>scc_Enabled = True\<rparr>,
       rc_NamespaceStorm = \<lparr>nsc_Enabled = True, nsc_Threshold = 20\<rparr>\<rparr>\<rparr>"

datatype correlator_error =
    WindowNotPositive duration
  | NodeCascadeMinPods goint
  | DeploymentMinPods goint
  | StormThreshold goint
  | NilHandler
  | NilMetrics

definition ValidateCorrelatorConfig :: "CorrelatorConfig \<Rightarrow> correlator_error option" where
  "ValidateCorrelatorConfig cfg =
     (if cc_WindowDuration cfg \<le> 0 then Some (WindowNotPositive (cc_WindowDuration cfg))
      else if ncc_Enabled (rc_NodeCascade (cc_Rules cfg)) \<and>
              ncc_MinPodFailures (rc_NodeCascade (cc_Rules cfg)) < 1
        then Some (NodeCascadeMinPods (ncc_MinPodFailures (rc_NodeCascade (cc_Rules cfg))))
      else if drc_Enabled (rc_DeploymentRollout (cc_Rules cfg)) \<and>
              drc_MinPodFailures (rc_DeploymentRollout (cc_Rules cfg)) < 1
        then Some (DeploymentMinPods (drc_MinPodFailures (rc_DeploymentRollout (cc_Rules cfg))))
      else if nsc_Enabled (rc_NamespaceStorm (cc_Rules cfg)) \<and>
              nsc_Threshold (rc_NamespaceStorm (cc_Rules cfg)) < 1
        then Some (StormThreshold (nsc_Threshold (rc_NamespaceStorm (cc_Rules cfg))))
      else None)"

record CorrelationResult =
  cr_SuperEvents :: "SuperEvent list"
  cr_UncorrelatedEvents :: "FaultEvent list"

record Correlator =
  co_config :: CorrelatorConfig
  co_buffer :: "FaultEvent list"

definition NewCorrelator :: "CorrelatorConfig \<Rightarrow> bool \<Rightarrow> bool \<Rightarrow> correlator_error + Correlator" where
  "NewCorrelator cfg handler metrics =
     (case ValidateCorrelatorConfig cfg of
        Some e \<Rightarrow> Inl e
      | None \<Rightarrow>
          if \<not> handler then Inl NilHandler
          else if \<not> metrics then Inl NilMetrics
          else Inr \<lparr>co_config = cfg, co_buffer = []\<rparr>)"

section \<open>Grouping\<close>

definition nodeAnnotationKey :: string where "nodeAnnotationKey = ''wormsign.io/node-name''"
definition deploymentAnnotationKey :: string where
  "deploymentAnnotationKey = ''wormsign.io/owner-deployment''"
definition pvcAnnotationKey :: string where "pvcAnnotationKey = ''wormsign.io/pvc-name''"

type_synonym env = "nat \<Rightarrow> byte list option \<times> gotime"
type_synonym eval_state = "SuperEvent list \<times> string list \<times> nat"

definition annotation :: "string \<Rightarrow> FaultEvent \<Rightarrow> string" where
  "annotation key e = map_get (fe_Annotations e) [] key"

definition index_events :: "(FaultEvent \<Rightarrow> bool) \<Rightarrow> (FaultEvent \<Rightarrow> 'k) \<Rightarrow> FaultEvent list \<Rightarrow> ('k \<times> FaultEvent) list" where
  "index_events P key events = foldl (\<lambda>m e. if P e then map_put (key e) e m else m) [] events"

definition group_events :: "(FaultEvent \<Rightarrow> bool) \<Rightarrow> (FaultEvent \<Rightarrow> 'k) \<Rightarrow> FaultEvent list \<Rightarrow>
    ('k \<times> FaultEvent list) list" where
  "group_events P key events = foldl (\<lambda>m e. if P e then map_append (key e) e m else m) [] events"

definition emit_group :: "env \<Rightarrow> string \<Rightarrow> ResourceRef \<Rightarrow> FaultEvent list \<Rightarrow> eval_state \<Rightarrow> eval_state" where
  "emit_group env rule primary evs st =
     (case st of (result, consumed, n) \<Rightarrow>
        case NewSuperEvent (fst (env n)) (snd (env n)) rule primary evs of
          Inl _ \<Rightarrow> (result, consumed, Suc n)
        | Inr se \<Rightarrow> (result @ [se], consumed @ map fe_ID evs, Suc n))"

abbreviation unconsumed :: "string list \<Rightarrow> FaultEvent \<Rightarrow> bool" where
  "unconsumed consumed e \<equiv> fe_ID e \<notin> set consumed"

section \<open>The rules\<close>

definition is_node_event :: "string list \<Rightarrow> FaultEvent \<Rightarrow> bool" where
  "is_node_event consumed e \<longleftrightarrow> unconsumed consumed e \<and>
     fe_DetectorName e = ''NodeNotReady'' \<and> ref_Kind (fe_Resource e) = ''Node''"

definition is_pod_with :: "string \<Rightarrow> string list \<Rightarrow> FaultEvent \<Rightarrow> bool" where
  "is_pod_with key consumed e \<longleftrightarrow> unconsumed consumed e \<and> ref_Kind (fe_Resource e) = ''Pod'' \<and>
     annotation key e \<noteq> []"

definition evaluateNodeCascade ::
    "NodeCascadeConfig \<Rightarrow> env \<Rightarrow> (string list \<Rightarrow> string list) \<Rightarrow> FaultEvent list \<Rightarrow> string list \<Rightarrow> nat \<Rightarrow> eval_state" where
  "evaluateNodeCascade cfg env ord events consumed n =
     (let nodeEvents = index_events (is_node_event consumed) (\<lambda>e. ref_Name (fe_Resource e)) events in
      if nodeEvents = [] then ([], consumed, n)
      else
        let podsByNode = group_events (\<lambda>e. is_pod_with nodeAnnotationKey consumed e \<and>
                           has_key nodeEvents (annotation nodeAnnotationKey e))
                         (annotation nodeAnnotationKey) events
        in foldl (\<lambda>st (nodeName, nodeEvent).
             let podEvents = map_get podsByNode [] nodeName in
             if int (length podEvents) < ncc_MinPodFailures cfg then st
             else emit_group env ''NodeCascade'' (fe_Resource nodeEvent) (nodeEvent # podEvents) st)
           ([], consumed, n) (range_map ord nodeEvents))"

definition evaluateDeploymentRollout ::
    "DeploymentRolloutConfig \<Rightarrow> env \<Rightarrow> ((string \<times> string) list \<Rightarrow> (string \<times> string) list) \<Rightarrow>
     FaultEvent list \<Rightarrow> string list \<Rightarrow> nat \<Rightarrow> eval_state" where
  "evaluateDeploymentRollout cfg env ord events consumed n =
     (let deployPods = group_events (is_pod_with deploymentAnnotationKey consumed)
            (\<lambda>e. (ref_Namespace (fe_Resource e), annotation deploymentAnnotationKey e)) events
      in foldl (\<lambda>st (key, podEvents).
           if int (length podEvents) < drc_MinPodFailures cfg then st
           else emit_group env ''DeploymentRollout''
             \<lparr>ref_Kind = ''Deployment'', ref_Namespace = fst key, ref_Name = snd key, ref_UID = []\<rparr>
             podEvents st)
         ([], consumed, n) (range_map ord deployPods))"

definition is_pvc_event :: "string list \<Rightarrow> FaultEvent \<Rightarrow> bool" where
  "is_pvc_event consumed e \<longleftrightarrow> unconsumed consumed e \<and>
     fe_DetectorName e = ''PVCStuckBinding'' \<and> ref_Kind (fe_Resource e) = ''PersistentVolumeClaim''"

definition evaluateStorageCascade ::
    "env \<Rightarrow> ((string \<times> string) list \<Rightarrow> (string \<times> string) list) \<Rightarrow>
     FaultEvent list \<Rightarrow> string list \<Rightarrow> nat \<Rightarrow> eval_state" where
  "evaluateStorageCascade env ord events consumed n =
     (let pvcEvents = index_events (is_pvc_event consumed)
            (\<lambda>e. (ref_Namespace (fe_Resource e), ref_Name (fe_Resource e))) events in
      if pvcEvents = [] then ([], consumed, n)
      else
        let pvcKey = (\<lambda>e. (ref_Namespace (fe_Resource e), annotation pvcAnnotationKey e));
            podsByPVC = group_events (\<lambda>e. is_pod_with pvcAnnotationKey consumed e \<and>
              has_key pvcEvents (pvcKey e)) pvcKey events
        in foldl (\<lambda>st (key, pvcEvent).
             let podEvents = map_get podsByPVC [] key in
             if length podEvents = 0 then st
             else emit_group env ''StorageCascade'' (fe_Resource pvcEvent) (pvcEvent # podEvents) st)
           ([], consumed, n) (range_map ord pvcEvents))"

definition evaluateNamespaceStorm ::
    "NamespaceStormConfig \<Rightarrow> env \<Rightarrow> (string list \<Rightarrow> string list) \<Rightarrow> FaultEvent list \<Rightarrow> string list \<Rightarrow> nat \<Rightarrow> eval_state" where
  "evaluateNamespaceStorm cfg env ord events consumed n =
     (let nsByEvents = group_events
            (\<lambda>e. unconsumed consumed e \<and> ref_Namespace (fe_Resource e) \<noteq> [])
            (\<lambda>e. ref_Namespace (fe_Resource e)) events
      in foldl (\<lambda>st (ns, nsEvents).
           if int (length nsEvents) \<le> nsc_Threshold cfg then st
           else emit_group env ''NamespaceStorm''
             \<lparr>ref_Kind = ''Namespace'', ref_Namespace = [], ref_Name = ns, ref_UID = []\<rparr> nsEvents st)
         ([], consumed, n) (range_map ord nsByEvents))"

section \<open>The window\<close>

record orders =
  ord_node :: "string list \<Rightarrow> string list"
  ord_deploy :: "(string \<times> string) list \<Rightarrow> (string \<times> string) list"
  ord_pvc :: "(string \<times> string) list \<Rightarrow> (string \<times> string) list"
  ord_ns :: "string list \<Rightarrow> string list"

definition rule_step :: "bool \<Rightarrow> (string list \<Rightarrow> nat \<Rightarrow> eval_state) \<Rightarrow> eval_state \<Rightarrow> eval_state" where
  "rule_step enabled rule st =
     (case st of (ses, consumed, n) \<Rightarrow>
        if enabled then (case rule consumed n of (new, consumed', n') \<Rightarrow> (ses @ new, consumed', n'))
        else (ses, consumed, n))"

definition evaluate :: "CorrelatorConfig \<Rightarrow> env \<Rightarrow> orders \<Rightarrow> FaultEvent list \<Rightarrow> CorrelationResult" where
  "evaluate cfg env os events =
     (let rules = cc_Rules cfg;
          st1 = rule_step (ncc_Enabled (rc_NodeCascade rules))
                  (evaluateNodeCascade (rc_NodeCascade rules) env (ord_node os) events) ([], [], 0);
          st2 = rule_step (drc_Enabled (rc_DeploymentRollout rules))
                  (evaluateDeploymentRollout (rc_DeploymentRollout rules) env (ord_deploy os) events) st1;
          st3 = rule_step (scc_Enabled (rc_StorageCascade rules))
                  (evaluateStorageCascade env (ord_pvc os) events) st2;
          st4 = rule_step (nsc_Enabled (rc_NamespaceStorm rules))
                  (evaluateNamespaceStorm (rc_NamespaceStorm rules) env (ord_ns os) events) st3
      in case st4 of (ses, consumed, _) \<Rightarrow>
           \<lparr>cr_SuperEvents = ses, cr_UncorrelatedEvents = filter (unconsumed consumed) events\<rparr>)"

text \<open>
  \<open>Submit\<close> and \<open>evaluateAndEmit\<close> return what they hand to the output handler; the evaluation
  loop \<open>Run\<close> calls \<open>evaluateAndEmit\<close> at every tick and once more when it is told to stop.
\<close>

definition Submit :: "Correlator \<Rightarrow> FaultEvent \<Rightarrow> Correlator \<times> CorrelationResult option" where
  "Submit c event =
     (if \<not> cc_Enabled (co_config c)
      then (c, Some \<lparr>cr_SuperEvents = [], cr_UncorrelatedEvents = [event]\<rparr>)
      else (c\<lparr>co_buffer := co_buffer c @ [event]\<rparr>, None))"

definition evaluateAndEmit :: "env \<Rightarrow> orders \<Rightarrow> Correlator \<Rightarrow> Correlator \<times> CorrelationResult option" where
  "evaluateAndEmit env os c =
     (let events = co_buffer c; c' = c\<lparr>co_buffer := []\<rparr> in
      if length events = 0 then (c', None)
      else let result = evaluate (co_config c) env os events in
        if cr_SuperEvents result \<noteq> [] \<or> cr_UncorrelatedEvents result \<noteq> []
        then (c', Some result) else (c', None))"

section \<open>Grouping facts\<close>

lemma index_events_snoc:
  "index_events P key (es @ [e]) =
     (if P e then map_put (key e) e (index_events P key es) else index_events P key es)"
  by (simp add: index_events_def)

lemma group_events_snoc:
  "group_events P key (es @ [e]) =
     (if P e then map_append (key e) e (group_events P key es) else group_events P key es)"
  by (simp add: group_events_def)

lemma index_events_sound:
  "map_of (index_events P key es) k = Some e \<Longrightarrow> e \<in> set es \<and> P e \<and> key e = k"
proof (induction es rule: rev_induct)
  case Nil
  then show ?case by (simp add: index_events_def)
qed (auto simp: index_events_snoc split: if_splits)

lemma index_events_dom:
  "has_key (index_events P key es) k \<longleftrightarrow> (\<exists>e \<in> set es. P e \<and> key e = k)"
proof (induction es rule: rev_induct)
  case Nil
  then show ?case by (simp add: index_events_def)
qed (auto simp: index_events_snoc)

lemma index_events_distinct [simp]: "distinct (map fst (index_events P key es))"
  by (induction es rule: rev_induct) (auto simp: index_events_snoc, simp add: index_events_def)

lemma group_events_get [simp]:
  "map_get (group_events P key es) [] k = filter (\<lambda>e. P e \<and> key e = k) es"
proof (induction es rule: rev_induct)
  case Nil
  then show ?case by (simp add: group_events_def map_get_def)
qed (auto simp: group_events_snoc)

lemma group_events_distinct [simp]: "distinct (map fst (group_events P key es))"
  by (induction es rule: rev_induct) (auto simp: group_events_snoc, simp add: group_events_def)

lemma group_events_dom: "has_key (group_events P key es) k \<longleftrightarrow> (\<exists>e \<in> set es. P e \<and> key e = k)"
proof (induction es rule: rev_induct)
  case Nil
  then show ?case by (simp add: group_events_def)
qed (auto simp: group_events_snoc map_append_def)

lemma group_events_entry:
  assumes "map_of (group_events P key es) k = Some evs"
  shows "evs = filter (\<lambda>e. P e \<and> key e = k) es" "evs \<noteq> []"
proof -
  show evs: "evs = filter (\<lambda>e. P e \<and> key e = k) es"
    using group_events_get [of P key es k] assms by (simp add: map_get_def)
  show "evs \<noteq> []"
    using group_events_dom [of P key es k] assms by (auto simp: evs filter_empty_conv)
qed

section \<open>Emitting groups\<close>

definition super_event_ok :: "string \<Rightarrow> SuperEvent \<Rightarrow> bool" where
  "super_event_ok rule se \<longleftrightarrow> se_CorrelationRule se = rule \<and> se_FaultEvents se \<noteq> [] \<and>
     se_Severity se = highestSeverity (se_FaultEvents se)"

definition emit_all :: "env \<Rightarrow> string \<Rightarrow> (ResourceRef \<times> FaultEvent list) list \<Rightarrow> eval_state \<Rightarrow> eval_state" where
  "emit_all env rule gs st = foldl (\<lambda>st (p, evs). emit_group env rule p evs st) st gs"

definition group_of :: "SuperEvent \<Rightarrow> ResourceRef \<times> FaultEvent list" where
  "group_of se = (se_PrimaryResource se, se_FaultEvents se)"

lemma NewSuperEvent_ok: "NewSuperEvent rnd now rule p evs = Inr se \<Longrightarrow> super_event_ok rule se"
  using NewSuperEvent_Inr [of rnd now rule p evs se] by (simp add: super_event_ok_def)

lemma foldl_filter: "foldl (\<lambda>st x. if c x then st else f st x) st xs = foldl f st (filter (\<lambda>x. \<not> c x) xs)"
  by (induction xs arbitrary: st) auto

lemma foldl_emit_all:
  "foldl (\<lambda>st x. if c x then st else emit_group env rule (p x) (evs x) st) st xs =
     emit_all env rule (map (\<lambda>x. (p x, evs x)) (filter (\<lambda>x. \<not> c x) xs)) st"
  unfolding foldl_filter emit_all_def
  by (induction xs arbitrary: st) auto

lemma emit_all_spec:
  "\<exists>new gs'. emit_all env rule gs (ses, consumed, n) =
      (ses @ new, consumed @ map fe_ID (concat (map se_FaultEvents new)), n + length gs) \<and>
    map group_of new = gs' \<and> subseq gs' gs \<and> list_all (super_event_ok rule) new"
proof (induction gs arbitrary: ses consumed n)
  case Nil
  then show ?case by (intro exI [of _ "[]"]) (simp add: emit_all_def)
next
  case (Cons g gs)
  obtain p evs where g: "g = (p, evs)" by (cases g)
  show ?case
  proof (cases "NewSuperEvent (fst (env n)) (snd (env n)) rule p evs")
    case (Inl e)
    then show ?thesis
      using Cons.IH [of ses consumed "Suc n"] by (auto simp: emit_all_def g emit_group_def)
  next
    case (Inr se)
    obtain new where new: "emit_all env rule gs (ses @ [se], consumed @ map fe_ID evs, Suc n) =
        (ses @ se # new, consumed @ map fe_ID evs @ map fe_ID (concat (map se_FaultEvents new)), Suc n + length gs)"
      "subseq (map group_of new) gs" "list_all (super_event_ok rule) new"
      using Cons.IH [of "ses @ [se]" "consumed @ map fe_ID evs" "Suc n"] by auto
    note N = NewSuperEvent_Inr [OF Inr] NewSuperEvent_ok [OF Inr]
    show ?thesis
      using new N by (intro exI [of _ "se # new"] exI [of _ "map group_of (se # new)"])
        (auto simp: emit_all_def g emit_group_def Inr group_of_def)
  qed
qed

lemma emit_all_complete:
  assumes "\<forall>i. fst (env i) \<noteq> None" "rule \<noteq> []"
    and "\<forall>(p, evs) \<in> set gs. ref_Kind p \<noteq> [] \<and> ref_Name p \<noteq> [] \<and> evs \<noteq> []"
  shows "\<exists>new. emit_all env rule gs (ses, consumed, n) =
      (ses @ new, consumed @ map fe_ID (concat (map se_FaultEvents new)), n + length gs) \<and>
    map group_of new = gs \<and> list_all (super_event_ok rule) new"
  using assms(3)
proof (induction gs arbitrary: ses consumed n)
  case Nil
  then show ?case by (simp add: emit_all_def)
next
  case (Cons g gs)
  obtain p evs where g: "g = (p, evs)" by (cases g)
  obtain u where u: "fst (env n) = Some u" using assms(1) by auto
  obtain se where se: "NewSuperEvent (fst (env n)) (snd (env n)) rule p evs = Inr se"
    using NewSuperEvent_total [of rule p evs u] assms(2) Cons.prems g u by auto
  obtain new where new: "emit_all env rule gs (ses @ [se], consumed @ map fe_ID evs, Suc n) =
      (ses @ se # new, consumed @ map fe_ID evs @ map fe_ID (concat (map se_FaultEvents new)), Suc n + length gs)"
    "map group_of new = gs" "list_all (super_event_ok rule) new"
    using Cons.IH [of "ses @ [se]" "consumed @ map fe_ID evs" "Suc n"] Cons.prems by auto
  note N = NewSuperEvent_Inr [OF se] NewSuperEvent_ok [OF se]
  show ?case
    using new N by (intro exI [of _ "se # new"])
      (auto simp: emit_all_def g emit_group_def se group_of_def)
qed

section \<open>The contract of a rule\<close>

locale correlation_rule =
  fixes rule :: "('k list \<Rightarrow> 'k list) \<Rightarrow> FaultEvent list \<Rightarrow> string list \<Rightarrow> nat \<Rightarrow> eval_state"
    and rule_name :: string
  assumes conserves: "permuting ord \<Longrightarrow> distinct (map fe_ID events) \<Longrightarrow>
      rule ord events consumed n = (ses, consumed', n') \<Longrightarrow>
      mset (concat (map se_FaultEvents ses)) + mset (filter (unconsumed consumed') events) =
        mset (filter (unconsumed consumed) events)"
    and only_consumes: "rule ord events consumed n = (ses, consumed', n') \<Longrightarrow>
      set consumed \<subseteq> set consumed'"
    and well_formed: "rule ord events consumed n = (ses, consumed', n') \<Longrightarrow>
      list_all (super_event_ok rule_name) ses"
begin

lemma step_conserves:
  assumes "permuting ord" "distinct (map fe_ID events)"
    and "mset (concat (map se_FaultEvents ses)) + mset (filter (unconsumed consumed) events) = mset events"
    and "rule_step enabled (rule ord events) (ses, consumed, n) = (ses', consumed', n')"
  shows "mset (concat (map se_FaultEvents ses')) + mset (filter (unconsumed consumed') events) = mset events"
proof (cases enabled)
  case True
  obtain new c m where r: "rule ord events consumed n = (new, c, m)" by (metis prod_cases3)
  show ?thesis
    using assms(3,4) conserves [OF assms(1,2) r] True
    by (auto simp: rule_step_def r)
      (metis (no_types, lifting) union_assoc union_commute union_lcomm)
next
  case False
  then show ?thesis using assms(3,4) by (simp add: rule_step_def)
qed

lemma step_well_formed:
  assumes "list_all (\<lambda>se. \<exists>r. super_event_ok r se) ses"
    and "rule_step enabled (rule ord events) (ses, consumed, n) = (ses', consumed', n')"
  shows "list_all (\<lambda>se. \<exists>r. super_event_ok r se) ses'"
proof (cases enabled)
  case True
  obtain new c m where r: "rule ord events consumed n = (new, c, m)" by (metis prod_cases3)
  show ?thesis using assms well_formed [OF r] True by (auto simp: rule_step_def r list_all_iff)
qed (use assms in \<open>simp add: rule_step_def\<close>)

lemma step_only_consumes:
  assumes "rule_step enabled (rule ord events) (ses, consumed, n) = (ses', consumed', n')"
  shows "set consumed \<subseteq> set consumed'"
proof (cases enabled)
  case True
  obtain new c m where r: "rule ord events consumed n = (new, c, m)" by (metis prod_cases3)
  show ?thesis using assms only_consumes [OF r] True by (auto simp: rule_step_def r)
qed (use assms in \<open>simp add: rule_step_def\<close>)

end

section \<open>The four rules meet the contract\<close>

lemma consume_distinct:
  assumes "distinct (map fe_ID events)" "distinct E" "set E \<subseteq> set (filter (unconsumed c) events)"
  shows "mset E + mset (filter (unconsumed (c @ map fe_ID E)) events) = mset (filter (unconsumed c) events)"
proof -
  have inj: "inj_on fe_ID (set events)" and d: "distinct events"
    using assms(1) by (simp_all add: distinct_map)
  let ?rest = "filter (unconsumed (c @ map fe_ID E)) events"
  have rest: "set ?rest = set (filter (unconsumed c) events) - set E"
    using assms(3) inj by (auto dest: inj_onD)
  have "mset E + mset ?rest = mset_set (set E) + mset_set (set ?rest)"
    using assms(2) d by (simp only: mset_set_set distinct_filter)
  also have "\<dots> = mset_set (set E \<union> set ?rest)"
    unfolding rest by (intro mset_set_Union [symmetric]) auto
  also have "set E \<union> set ?rest = set (filter (unconsumed c) events)"
    unfolding rest using assms(3) by blast
  also have "mset_set \<dots> = mset (filter (unconsumed c) events)"
    using d by (intro mset_set_set distinct_filter)
  finally show ?thesis .
qed

lemma distinct_concat_keys:
  assumes "distinct (map fst gs)"
    and "\<forall>(k, p, evs) \<in> set gs. distinct evs \<and> (\<forall>e \<in> set evs. kf e = k)"
  shows "distinct (concat (map (\<lambda>(k, p, evs). evs) gs))"
  using assms by (induction gs) fastforce+

lemma concat_subseq:
  "subseq gs' gs \<Longrightarrow> subseq (concat (map snd gs')) (concat (map snd gs))"
  by (induction rule: list_emb.induct) (auto intro: list_emb_append_mono)

lemma subseq_distinct: "subseq xs ys \<Longrightarrow> set xs \<subseteq> set ys \<and> (distinct ys \<longrightarrow> distinct xs)"
  by (induction rule: list_emb.induct) auto

lemma emit_all_conserves:
  assumes "distinct (map fe_ID events)"
    and "distinct (concat (map snd gs))" "set (concat (map snd gs)) \<subseteq> set (filter (unconsumed consumed) events)"
    and "emit_all env rule gs ([], consumed, n) = (ses, consumed', n')"
  shows "mset (concat (map se_FaultEvents ses)) + mset (filter (unconsumed consumed') events) =
      mset (filter (unconsumed consumed) events)"
    and "list_all (super_event_ok rule) ses" and "set consumed \<subseteq> set consumed'"
proof -
  obtain gs' where r: "consumed' = consumed @ map fe_ID (concat (map se_FaultEvents ses))"
      "map group_of ses = gs'" "subseq gs' gs" "list_all (super_event_ok rule) ses"
    using emit_all_spec [of env rule gs "[]" consumed n] assms(4) by auto
  have "concat (map se_FaultEvents ses) = concat (map snd gs')"
    unfolding r(2) [symmetric] by (simp add: group_of_def comp_def)
  then have sub: "subseq (concat (map se_FaultEvents ses)) (concat (map snd gs))"
    using concat_subseq [OF r(3)] by simp
  have "distinct (concat (map se_FaultEvents ses))"
    using subseq_distinct [OF sub] assms(2) by simp
  moreover have "set (concat (map se_FaultEvents ses)) \<subseteq> set (filter (unconsumed consumed) events)"
    using subseq_distinct [OF sub] assms(3) by blast
  ultimately show "mset (concat (map se_FaultEvents ses)) + mset (filter (unconsumed consumed') events) =
      mset (filter (unconsumed consumed) events)"
    unfolding r(1) by (rule consume_distinct [OF assms(1)])
  show "list_all (super_event_ok rule) ses" "set consumed \<subseteq> set consumed'" using r by auto
qed

definition node_pods :: "FaultEvent list \<Rightarrow> string list \<Rightarrow> string \<Rightarrow> FaultEvent list" where
  "node_pods events consumed node =
     filter (\<lambda>e. is_pod_with nodeAnnotationKey consumed e \<and> annotation nodeAnnotationKey e = node) events"

definition deploy_key :: "FaultEvent \<Rightarrow> string \<times> string" where
  "deploy_key e = (ref_Namespace (fe_Resource e), annotation deploymentAnnotationKey e)"

definition pvc_key :: "FaultEvent \<Rightarrow> string \<times> string" where
  "pvc_key e = (ref_Namespace (fe_Resource e), annotation pvcAnnotationKey e)"

definition pvc_pods :: "FaultEvent list \<Rightarrow> string list \<Rightarrow> string \<times> string \<Rightarrow> FaultEvent list" where
  "pvc_pods events consumed key =
     filter (\<lambda>e. is_pod_with pvcAnnotationKey consumed e \<and> pvc_key e = key) events"

definition node_groups where
  "node_groups cfg ord events consumed =
     map (\<lambda>(k, ne). (fe_Resource ne, ne # node_pods events consumed k))
       (filter (\<lambda>(k, ne). ncc_MinPodFailures cfg \<le> int (length (node_pods events consumed k)))
         (range_map ord (index_events (is_node_event consumed) (\<lambda>e. ref_Name (fe_Resource e)) events)))"

definition deploy_groups where
  "deploy_groups cfg ord events consumed =
     map (\<lambda>(k, evs). (\<lparr>ref_Kind = ''Deployment'', ref_Namespace = fst k, ref_Name = snd k, ref_UID = []\<rparr>, evs))
       (filter (\<lambda>(k, evs). drc_MinPodFailures cfg \<le> int (length evs))
         (range_map ord (group_events (is_pod_with deploymentAnnotationKey consumed) deploy_key events)))"

definition pvc_groups where
  "pvc_groups ord events consumed =
     map (\<lambda>(k, pe). (fe_Resource pe, pe # pvc_pods events consumed k))
       (filter (\<lambda>(k, pe). pvc_pods events consumed k \<noteq> [])
         (range_map ord (index_events (is_pvc_event consumed)
           (\<lambda>e. (ref_Namespace (fe_Resource e), ref_Name (fe_Resource e))) events)))"

definition storm_groups where
  "storm_groups cfg ord events consumed =
     map (\<lambda>(k, evs). (\<lparr>ref_Kind = ''Namespace'', ref_Namespace = [], ref_Name = k, ref_UID = []\<rparr>, evs))
       (filter (\<lambda>(k, evs). nsc_Threshold cfg < int (length evs))
         (range_map ord (group_events (\<lambda>e. unconsumed consumed e \<and> ref_Namespace (fe_Resource e) \<noteq> [])
           (\<lambda>e. ref_Namespace (fe_Resource e)) events)))"

lemma foldl_cong_range:
  "(\<And>st k v. (k, v) \<in> set xs \<Longrightarrow> f st (k, v) = g st (k, v)) \<Longrightarrow> foldl f st xs = foldl g st xs"
  by (rule foldl_cong) auto

lemma foldl_groups:
  assumes "\<And>st k v. (k, v) \<in> set xs \<Longrightarrow>
    f st (k, v) = (if c k v then emit_group env rule (p k v) (evs k v) st else st)"
  shows "foldl f st xs = emit_all env rule (map (\<lambda>(k, v). (p k v, evs k v)) (filter (\<lambda>(k, v). c k v) xs)) st"
proof -
  have "foldl f st xs = foldl (\<lambda>st x. if \<not> c (fst x) (snd x) then st
      else emit_group env rule (p (fst x) (snd x)) (evs (fst x) (snd x)) st) st xs"
    by (rule foldl_cong_range) (simp add: assms)
  then show ?thesis by (simp add: foldl_emit_all case_prod_beta')
qed

lemma evaluateNodeCascade_eq:
  "evaluateNodeCascade cfg env ord events consumed n =
     emit_all env ''NodeCascade'' (node_groups cfg ord events consumed) ([], consumed, n)"
proof -
  let ?m = "index_events (is_node_event consumed) (\<lambda>e. ref_Name (fe_Resource e)) events"
  have pods: "filter (\<lambda>e. (is_pod_with nodeAnnotationKey consumed e \<and> has_key ?m (annotation nodeAnnotationKey e)) \<and>
      annotation nodeAnnotationKey e = k) events = node_pods events consumed k"
    if "(k, v) \<in> set (range_map ord ?m)" for k v
    using range_map_has_key [OF that] by (auto simp: node_pods_def intro!: filter_cong)
  show ?thesis
  proof (cases "?m = []")
    case True
    then show ?thesis by (simp add: evaluateNodeCascade_def node_groups_def emit_all_def)
  next
    case False
    then show ?thesis
      unfolding evaluateNodeCascade_def node_groups_def Let_def
      by (simp only: if_False, intro foldl_groups)
        (simp only: prod.case group_events_get pods, auto)
  qed
qed

lemma evaluateDeploymentRollout_eq:
  "evaluateDeploymentRollout cfg env ord events consumed n =
     emit_all env ''DeploymentRollout'' (deploy_groups cfg ord events consumed) ([], consumed, n)"
  unfolding evaluateDeploymentRollout_def deploy_groups_def Let_def deploy_key_def [abs_def]
  by (rule foldl_groups) auto

lemma evaluateStorageCascade_eq:
  "evaluateStorageCascade env ord events consumed n =
     emit_all env ''StorageCascade'' (pvc_groups ord events consumed) ([], consumed, n)"
proof -
  let ?m = "index_events (is_pvc_event consumed)
      (\<lambda>e. (ref_Namespace (fe_Resource e), ref_Name (fe_Resource e))) events"
  have pods: "filter (\<lambda>e. (is_pod_with pvcAnnotationKey consumed e \<and> has_key ?m (pvc_key e)) \<and>
      pvc_key e = k) events = pvc_pods events consumed k"
    if "(k, v) \<in> set (range_map ord ?m)" for k v
    using range_map_has_key [OF that] by (auto simp: pvc_pods_def intro!: filter_cong)
  show ?thesis
  proof (cases "?m = []")
    case True
    then show ?thesis by (simp add: evaluateStorageCascade_def pvc_groups_def emit_all_def)
  next
    case False
    then show ?thesis
      unfolding evaluateStorageCascade_def pvc_groups_def Let_def pvc_key_def [symmetric]
      by (simp only: if_False, intro foldl_groups)
        (simp only: prod.case group_events_get pods, auto)
  qed
qed

lemma evaluateNamespaceStorm_eq:
  "evaluateNamespaceStorm cfg env ord events consumed n =
     emit_all env ''NamespaceStorm'' (storm_groups cfg ord events consumed) ([], consumed, n)"
  unfolding evaluateNamespaceStorm_def storm_groups_def Let_def
  by (rule foldl_groups) auto

lemma groups_distinct:
  assumes "distinct (map fst xs)"
    and "\<And>k v. (k, v) \<in> set xs \<Longrightarrow> distinct (g k v) \<and> (\<forall>e \<in> set (g k v). kf e = k)"
  shows "distinct (concat (map snd (map (\<lambda>(k, v). (p k v, g k v)) (filter P xs))))"
  using assms
proof (induction xs)
  case (Cons x xs)
  obtain k v where x: "x = (k, v)" by (cases x)
  have "kf e \<noteq> k" if "(k', v') \<in> set xs" "e \<in> set (g k' v')" for k' v' e
  proof -
    have "kf e = k'" using Cons.prems(2) [of k' v'] that by simp
    moreover have "k' \<in> fst ` set xs" using that(1) by force
    ultimately show ?thesis using Cons.prems(1) x by auto
  qed
  moreover have "\<forall>e \<in> set (g k v). kf e = k" using Cons.prems(2) [of k v] x by simp
  ultimately have "set (g k v) \<inter> (\<Union>y \<in> set xs. set (g (fst y) (snd y))) = {}" by fastforce
  moreover have "set (concat (map snd (map (\<lambda>(k, v). (p k v, g k v)) (filter P xs)))) \<subseteq>
      (\<Union>y \<in> set xs. set (g (fst y) (snd y)))"
    by auto
  ultimately have "set (g k v) \<inter> set (concat (map snd (map (\<lambda>(k, v). (p k v, g k v)) (filter P xs)))) = {}"
    by blast
  moreover have "distinct (concat (map snd (map (\<lambda>(k, v). (p k v, g k v)) (filter P xs))))"
    using Cons.prems by (intro Cons.IH) auto
  moreover have "distinct (g k v)" using Cons.prems(2) [of k v] x by simp
  ultimately show ?case unfolding x filter.simps by (cases "P (k, v)") simp_all
qed simp

definition node_kf :: "FaultEvent \<Rightarrow> string" where
  "node_kf e = (if ref_Kind (fe_Resource e) = ''Pod'' then annotation nodeAnnotationKey e
     else ref_Name (fe_Resource e))"

definition pvc_kf :: "FaultEvent \<Rightarrow> string \<times> string" where
  "pvc_kf e = (if ref_Kind (fe_Resource e) = ''Pod'' then pvc_key e
     else (ref_Namespace (fe_Resource e), ref_Name (fe_Resource e)))"

lemma node_groups_ok:
  assumes "permuting ord" "distinct events"
  shows "distinct (concat (map snd (node_groups cfg ord events consumed)))"
    and "set (concat (map snd (node_groups cfg ord events consumed))) \<subseteq> set (filter (unconsumed consumed) events)"
proof -
  let ?m = "index_events (is_node_event consumed) (\<lambda>e. ref_Name (fe_Resource e)) events"
  have ne: "v \<in> set events \<and> is_node_event consumed v \<and> ref_Name (fe_Resource v) = k"
    if "(k, v) \<in> set (range_map ord ?m)" for k v
    using index_events_sound [OF range_map_has_key [OF that]] .
  show "distinct (concat (map snd (node_groups cfg ord events consumed)))"
    unfolding node_groups_def
  proof (rule groups_distinct [where kf = node_kf])
    show "distinct (map fst (range_map ord ?m))" using assms(1) by (simp add: range_map_distinct)
    show "distinct (v # node_pods events consumed k) \<and>
        (\<forall>e \<in> set (v # node_pods events consumed k). node_kf e = k)"
      if "(k, v) \<in> set (range_map ord ?m)" for k v
      using ne [OF that] assms(2)
      by (auto simp: node_pods_def is_pod_with_def is_node_event_def node_kf_def)
  qed
  show "set (concat (map snd (node_groups cfg ord events consumed))) \<subseteq> set (filter (unconsumed consumed) events)"
    using ne by (force simp: node_groups_def node_pods_def is_pod_with_def is_node_event_def)
qed

lemma deploy_groups_ok:
  assumes "permuting ord" "distinct events"
  shows "distinct (concat (map snd (deploy_groups cfg ord events consumed)))"
    and "set (concat (map snd (deploy_groups cfg ord events consumed))) \<subseteq> set (filter (unconsumed consumed) events)"
proof -
  let ?m = "group_events (is_pod_with deploymentAnnotationKey consumed) deploy_key events"
  have evs: "v = filter (\<lambda>e. is_pod_with deploymentAnnotationKey consumed e \<and> deploy_key e = k) events"
    if "(k, v) \<in> set (range_map ord ?m)" for k v
    using group_events_entry(1) [OF range_map_has_key [OF that]] .
  show "distinct (concat (map snd (deploy_groups cfg ord events consumed)))"
    unfolding deploy_groups_def
  proof (rule groups_distinct [where kf = deploy_key])
    show "distinct (map fst (range_map ord ?m))" using assms(1) by (simp add: range_map_distinct)
    show "distinct v \<and> (\<forall>e \<in> set v. deploy_key e = k)" if "(k, v) \<in> set (range_map ord ?m)" for k v
      using evs [OF that] assms(2) by simp
  qed
  show "set (concat (map snd (deploy_groups cfg ord events consumed))) \<subseteq> set (filter (unconsumed consumed) events)"
    using evs by (force simp: deploy_groups_def is_pod_with_def)
qed

lemma pvc_groups_ok:
  assumes "permuting ord" "distinct events"
  shows "distinct (concat (map snd (pvc_groups ord events consumed)))"
    and "set (concat (map snd (pvc_groups ord events consumed))) \<subseteq> set (filter (unconsumed consumed) events)"
proof -
  let ?m = "index_events (is_pvc_event consumed)
      (\<lambda>e. (ref_Namespace (fe_Resource e), ref_Name (fe_Resource e))) events"
  have ne: "v \<in> set events \<and> is_pvc_event consumed v \<and>
      (ref_Namespace (fe_Resource v), ref_Name (fe_Resource v)) = k"
    if "(k, v) \<in> set (range_map ord ?m)" for k v
    using index_events_sound [OF range_map_has_key [OF that]] .
  show "distinct (concat (map snd (pvc_groups ord events consumed)))"
    unfolding pvc_groups_def
  proof (rule groups_distinct [where kf = pvc_kf])
    show "distinct (map fst (range_map ord ?m))" using assms(1) by (simp add: range_map_distinct)
    show "distinct (v # pvc_pods events consumed k) \<and>
        (\<forall>e \<in> set (v # pvc_pods events consumed k). pvc_kf e = k)"
      if "(k, v) \<in> set (range_map ord ?m)" for k v
      using ne [OF that] assms(2)
      by (auto simp: pvc_pods_def is_pod_with_def is_pvc_event_def pvc_kf_def)
  qed
  show "set (concat (map snd (pvc_groups ord events consumed))) \<subseteq> set (filter (unconsumed consumed) events)"
  proof
    fix e assume "e \<in> set (concat (map snd (pvc_groups ord events consumed)))"
    then obtain k v where kv: "(k, v) \<in> set (range_map ord ?m)"
        "e = v \<or> e \<in> set (pvc_pods events consumed k)"
      by (auto simp: pvc_groups_def)
    then show "e \<in> set (filter (unconsumed consumed) events)"
      using ne [OF kv(1)] by (auto simp: pvc_pods_def is_pod_with_def is_pvc_event_def)
  qed
qed

lemma storm_groups_ok:
  assumes "permuting ord" "distinct events"
  shows "distinct (concat (map snd (storm_groups cfg ord events consumed)))"
    and "set (concat (map snd (storm_groups cfg ord events consumed))) \<subseteq> set (filter (unconsumed consumed) events)"
proof -
  let ?P = "\<lambda>e. unconsumed consumed e \<and> ref_Namespace (fe_Resource e) \<noteq> []"
  let ?key = "\<lambda>e. ref_Namespace (fe_Resource e)"
  let ?m = "group_events ?P ?key events"
  have evs: "v = filter (\<lambda>e. ?P e \<and> ?key e = k) events" if "(k, v) \<in> set (range_map ord ?m)" for k v
    using group_events_entry(1) [OF range_map_has_key [OF that]] .
  show "distinct (concat (map snd (storm_groups cfg ord events consumed)))"
    unfolding storm_groups_def
  proof (rule groups_distinct [where kf = ?key])
    show "distinct (map fst (range_map ord ?m))" using assms(1) by (simp add: range_map_distinct)
    show "distinct v \<and> (\<forall>e \<in> set v. ?key e = k)" if "(k, v) \<in> set (range_map ord ?m)" for k v
      using evs [OF that] assms(2) by simp
  qed
  show "set (concat (map snd (storm_groups cfg ord events consumed))) \<subseteq> set (filter (unconsumed consumed) events)"
    using evs by (force simp: storm_groups_def)
qed

lemma emit_all_contract:
  assumes "\<And>ord events consumed n. rule ord events consumed n =
      emit_all env name (groups ord events consumed) ([], consumed, n)"
    and "\<And>ord events consumed. permuting ord \<Longrightarrow> distinct events \<Longrightarrow>
      distinct (concat (map snd (groups ord events consumed)))"
    and "\<And>ord events consumed. permuting ord \<Longrightarrow> distinct events \<Longrightarrow>
      set (concat (map snd (groups ord events consumed))) \<subseteq> set (filter (unconsumed consumed) events)"
  shows "correlation_rule rule name"
proof
  fix ord and events :: "FaultEvent list" and consumed n ses consumed' n'
  assume r: "rule ord events consumed n = (ses, consumed', n')"
  have sp: "\<exists>new gs'. emit_all env name (groups ord events consumed) ([], consumed, n) =
      ([] @ new, consumed @ map fe_ID (concat (map se_FaultEvents new)), n + length (groups ord events consumed)) \<and>
    map group_of new = gs' \<and> subseq gs' (groups ord events consumed) \<and> list_all (super_event_ok name) new"
    by (rule emit_all_spec)
  show "set consumed \<subseteq> set consumed'" "list_all (super_event_ok name) ses"
    using sp r by (auto simp: assms(1))
  assume ord: "permuting ord" and d: "distinct (map fe_ID events)"
  then have "distinct events" by (simp add: distinct_map)
  then show "mset (concat (map se_FaultEvents ses)) + mset (filter (unconsumed consumed') events) =
      mset (filter (unconsumed consumed) events)"
    using emit_all_conserves(1) [OF d assms(2,3) [OF ord] r [unfolded assms(1)]] by blast
qed

interpretation nc: correlation_rule "evaluateNodeCascade cfg env" "''NodeCascade''" for cfg env
  by (rule emit_all_contract [OF evaluateNodeCascade_eq node_groups_ok])

interpretation dr: correlation_rule "evaluateDeploymentRollout cfg env" "''DeploymentRollout''" for cfg env
  by (rule emit_all_contract [OF evaluateDeploymentRollout_eq deploy_groups_ok])

interpretation sc: correlation_rule "evaluateStorageCascade env" "''StorageCascade''" for env
  by (rule emit_all_contract [OF evaluateStorageCascade_eq pvc_groups_ok])

interpretation st: correlation_rule "evaluateNamespaceStorm cfg env" "''NamespaceStorm''" for cfg env
  by (rule emit_all_contract [OF evaluateNamespaceStorm_eq storm_groups_ok])

section \<open>A whole window\<close>

definition permuting_orders :: "orders \<Rightarrow> bool" where
  "permuting_orders os \<longleftrightarrow> permuting (ord_node os) \<and> permuting (ord_deploy os) \<and>
     permuting (ord_pvc os) \<and> permuting (ord_ns os)"

abbreviation node_stage :: "CorrelatorConfig \<Rightarrow> env \<Rightarrow> orders \<Rightarrow> FaultEvent list \<Rightarrow> eval_state \<Rightarrow> eval_state" where
  "node_stage cfg env os events \<equiv> rule_step (ncc_Enabled (rc_NodeCascade (cc_Rules cfg)))
     (evaluateNodeCascade (rc_NodeCascade (cc_Rules cfg)) env (ord_node os) events)"

abbreviation deploy_stage :: "CorrelatorConfig \<Rightarrow> env \<Rightarrow> orders \<Rightarrow> FaultEvent list \<Rightarrow> eval_state \<Rightarrow> eval_state" where
  "deploy_stage cfg env os events \<equiv> rule_step (drc_Enabled (rc_DeploymentRollout (cc_Rules cfg)))
     (evaluateDeploymentRollout (rc_DeploymentRollout (cc_Rules cfg)) env (ord_deploy os) events)"

abbreviation storage_stage :: "CorrelatorConfig \<Rightarrow> env \<Rightarrow> orders \<Rightarrow> FaultEvent list \<Rightarrow> eval_state \<Rightarrow> eval_state" where
  "storage_stage cfg env os events \<equiv> rule_step (scc_Enabled (rc_StorageCascade (cc_Rules cfg)))
     (evaluateStorageCascade env (ord_pvc os) events)"

abbreviation storm_stage :: "CorrelatorConfig \<Rightarrow> env \<Rightarrow> orders \<Rightarrow> FaultEvent list \<Rightarrow> eval_state \<Rightarrow> eval_state" where
  "storm_stage cfg env os events \<equiv> rule_step (nsc_Enabled (rc_NamespaceStorm (cc_Rules cfg)))
     (evaluateNamespaceStorm (rc_NamespaceStorm (cc_Rules cfg)) env (ord_ns os) events)"

lemma evaluate_stages:
  obtains s1 c1 n1 s2 c2 n2 s3 c3 n3 s4 c4 n4 where
    "node_stage cfg env os events ([], [], 0) = (s1, c1, n1)"
    "deploy_stage cfg env os events (s1, c1, n1) = (s2, c2, n2)"
    "storage_stage cfg env os events (s2, c2, n2) = (s3, c3, n3)"
    "storm_stage cfg env os events (s3, c3, n3) = (s4, c4, n4)"
    "evaluate cfg env os events =
       \<lparr>cr_SuperEvents = s4, cr_UncorrelatedEvents = filter (unconsumed c4) events\<rparr>"
proof -
  obtain s1 c1 n1 where 1: "node_stage cfg env os events ([], [], 0) = (s1, c1, n1)" by (rule prod_cases3)
  obtain s2 c2 n2 where 2: "deploy_stage cfg env os events (s1, c1, n1) = (s2, c2, n2)" by (rule prod_cases3)
  obtain s3 c3 n3 where 3: "storage_stage cfg env os events (s2, c2, n2) = (s3, c3, n3)" by (rule prod_cases3)
  obtain s4 c4 n4 where 4: "storm_stage cfg env os events (s3, c3, n3) = (s4, c4, n4)" by (rule prod_cases3)
  have "evaluate cfg env os events =
       \<lparr>cr_SuperEvents = s4, cr_UncorrelatedEvents = filter (unconsumed c4) events\<rparr>"
    by (simp add: evaluate_def Let_def 1 2 3 4)
  with 1 2 3 4 show ?thesis by (rule that)
qed

definition result_events :: "CorrelationResult \<Rightarrow> FaultEvent list" where
  "result_events r = concat (map se_FaultEvents (cr_SuperEvents r)) @ cr_UncorrelatedEvents r"

lemma evaluate_conserves:
  assumes "permuting_orders os" "distinct (map fe_ID events)"
  shows "mset (result_events (evaluate cfg env os events)) = mset events"
proof -
  have p: "permuting (ord_node os)" "permuting (ord_deploy os)" "permuting (ord_pvc os)" "permuting (ord_ns os)"
    using assms(1) by (auto simp: permuting_orders_def)
  show ?thesis
  proof (rule evaluate_stages [of cfg env os events])
    fix s1 c1 n1 s2 c2 n2 s3 c3 n3 s4 c4 n4
    assume r: "node_stage cfg env os events ([], [], 0) = (s1, c1, n1)"
      "deploy_stage cfg env os events (s1, c1, n1) = (s2, c2, n2)"
      "storage_stage cfg env os events (s2, c2, n2) = (s3, c3, n3)"
      "storm_stage cfg env os events (s3, c3, n3) = (s4, c4, n4)"
    and e: "evaluate cfg env os events =
       \<lparr>cr_SuperEvents = s4, cr_UncorrelatedEvents = filter (unconsumed c4) events\<rparr>"
    have "mset (concat (map se_FaultEvents [])) + mset (filter (unconsumed []) events) = mset events" by simp
    from nc.step_conserves [OF p(1) assms(2) this r(1)]
    have "mset (concat (map se_FaultEvents s1)) + mset (filter (unconsumed c1) events) = mset events" .
    from dr.step_conserves [OF p(2) assms(2) this r(2)]
    have "mset (concat (map se_FaultEvents s2)) + mset (filter (unconsumed c2) events) = mset events" .
    from sc.step_conserves [OF p(3) assms(2) this r(3)]
    have "mset (concat (map se_FaultEvents s3)) + mset (filter (unconsumed c3) events) = mset events" .
    from st.step_conserves [OF p(4) assms(2) this r(4)]
    show ?thesis by (simp add: e result_events_def)
  qed
qed

lemma evaluate_well_formed:
  "list_all (\<lambda>se. \<exists>r. super_event_ok r se) (cr_SuperEvents (evaluate cfg env os events))"
proof (rule evaluate_stages [of cfg env os events])
  fix s1 c1 n1 s2 c2 n2 s3 c3 n3 s4 c4 n4
  assume r: "node_stage cfg env os events ([], [], 0) = (s1, c1, n1)"
    "deploy_stage cfg env os events (s1, c1, n1) = (s2, c2, n2)"
    "storage_stage cfg env os events (s2, c2, n2) = (s3, c3, n3)"
    "storm_stage cfg env os events (s3, c3, n3) = (s4, c4, n4)"
  and e: "evaluate cfg env os events =
     \<lparr>cr_SuperEvents = s4, cr_UncorrelatedEvents = filter (unconsumed c4) events\<rparr>"
  have "list_all (\<lambda>se. \<exists>r. super_event_ok r se) []" by simp
  from st.step_well_formed [OF sc.step_well_formed [OF dr.step_well_formed
        [OF nc.step_well_formed [OF this r(1)] r(2)] r(3)] r(4)]
  show ?thesis by (simp add: e)
qed

section \<open>Properties\<close>

text \<open>
  C28. No event is lost or duplicated by correlation: whatever order the maps are ranged over and
  whether or not the random source fails, the events inside the super-events of a window together
  with its uncorrelated events are exactly the window's events, each once.
\<close>

theorem correlation_conserves_events:
  assumes "permuting_orders os" "distinct (map fe_ID events)"
  shows "mset (result_events (evaluate cfg env os events)) = mset events"
  using assms by (rule evaluate_conserves)

text \<open>
  Every super-event has members, carries the highest severity among them and names its rule.
\<close>

theorem super_events_well_formed:
  "list_all (\<lambda>se. se_FaultEvents se \<noteq> [] \<and> se_Severity se = highestSeverity (se_FaultEvents se) \<and>
     IsValid (se_Severity se)) (cr_SuperEvents (evaluate cfg env os events))"
  using evaluate_well_formed [of cfg env os events] by (auto simp: super_event_ok_def list_all_iff)

lemma storm_leftover:
  assumes ord: "permuting ord" and env: "\<forall>i. fst (env i) \<noteq> None" and thr: "0 \<le> nsc_Threshold cfg"
    and r: "evaluateNamespaceStorm cfg env ord events consumed n = (ses, consumed', n')"
    and ns: "ns \<noteq> []"
  shows "int (length (filter (\<lambda>e. ref_Namespace (fe_Resource e) = ns) (filter (unconsumed consumed') events)))
    \<le> nsc_Threshold cfg"
proof -
  let ?P = "\<lambda>e. unconsumed consumed e \<and> ref_Namespace (fe_Resource e) \<noteq> []"
  let ?key = "\<lambda>e. ref_Namespace (fe_Resource e)"
  let ?m = "group_events ?P ?key events" and ?gs = "storm_groups cfg ord events consumed"
  let ?G = "filter (\<lambda>e. unconsumed consumed e \<and> ?key e = ns) events"
  have entry: "v = filter (\<lambda>e. ?P e \<and> ?key e = k) events \<and> v \<noteq> []" if "(k, v) \<in> set (range_map ord ?m)" for k v
    using group_events_entry [OF range_map_has_key [OF that]] by blast
  have wf: "\<forall>(p, evs) \<in> set ?gs. ref_Kind p \<noteq> [] \<and> ref_Name p \<noteq> [] \<and> evs \<noteq> []"
    using entry by (fastforce simp: storm_groups_def filter_empty_conv)
  obtain new where new: "consumed' = consumed @ map fe_ID (concat (map se_FaultEvents new))" "map group_of new = ?gs"
    using emit_all_complete [OF env _ wf, of "''NamespaceStorm''" "[]" consumed n] r
    by (auto simp: evaluateNamespaceStorm_eq)
  show ?thesis
  proof (cases "int (length ?G) \<le> nsc_Threshold cfg")
    case True
    have "length (filter (\<lambda>e. ?key e = ns) (filter (unconsumed consumed') events)) \<le> length ?G"
      unfolding filter_filter new(1)
      by (rule length_filter_mono_impl) auto
    with True show ?thesis by linarith
  next
    case False
    then have "?G \<noteq> []" using thr by auto
    then obtain e0 where "e0 \<in> set events" "?P e0" "?key e0 = ns" using ns by (auto simp: filter_empty_conv)
    then obtain v where "map_of ?m ns = Some v" using group_events_dom [of ?P ?key events ns] by auto
    then have "(ns, v) \<in> set (range_map ord ?m)"
      using range_map_keys(2) [OF ord group_events_distinct] map_of_SomeD by fastforce
    moreover from this have "v = ?G" using entry [of ns v] ns by (auto intro!: filter_cong)
    ultimately have "(\<lparr>ref_Kind = ''Namespace'', ref_Namespace = [], ref_Name = ns, ref_UID = []\<rparr>, ?G) \<in> set ?gs"
      using False by (force simp: storm_groups_def)
    then obtain se where se: "se \<in> set new" "se_FaultEvents se = ?G"
      unfolding new(2) [symmetric] by (auto simp: group_of_def)
    have "set (se_FaultEvents se) \<subseteq> set (concat (map se_FaultEvents new))" using se(1) by auto
    then have "set ?G \<subseteq> set (concat (map se_FaultEvents new))" unfolding se(2) .
    then have "fe_ID ` set ?G \<subseteq> set consumed'" unfolding new(1) by auto
    then have "filter (\<lambda>e. ?key e = ns) (filter (unconsumed consumed') events) = []"
      using new(1) by (auto simp: filter_empty_conv)
    then show ?thesis using thr by simp
  qed
qed

text \<open>
  The storm rule bounds what passes through: with the rule enabled and a working random
  source, no namespace keeps more uncorrelated events after a window than the configured
  threshold, for every order of the maps and whatever the other rules consumed.
\<close>

theorem namespace_storm_bound:
  assumes "permuting_orders os" "\<forall>i. fst (env i) \<noteq> None"
    and "nsc_Enabled (rc_NamespaceStorm (cc_Rules cfg))" "0 \<le> nsc_Threshold (rc_NamespaceStorm (cc_Rules cfg))"
    and "ns \<noteq> []"
  shows "int (length (filter (\<lambda>e. ref_Namespace (fe_Resource e) = ns)
      (cr_UncorrelatedEvents (evaluate cfg env os events)))) \<le> nsc_Threshold (rc_NamespaceStorm (cc_Rules cfg))"
proof (rule evaluate_stages [of cfg env os events])
  fix s3 c3 n3 s4 c4 n4
  assume r: "storm_stage cfg env os events (s3, c3, n3) = (s4, c4, n4)"
    and e: "evaluate cfg env os events =
      \<lparr>cr_SuperEvents = s4, cr_UncorrelatedEvents = filter (unconsumed c4) events\<rparr>"
  obtain new c m where st: "evaluateNamespaceStorm (rc_NamespaceStorm (cc_Rules cfg)) env (ord_ns os) events c3 n3 = (new, c, m)"
    by (rule prod_cases3)
  with r assms(3) have "c = c4" by (simp add: rule_step_def)
  then show ?thesis
    using storm_leftover [OF _ assms(2,4) st assms(5)] assms(1) by (simp add: e permuting_orders_def)
qed

lemma node_cascade_groups:
  assumes "permuting ord" "evaluateNodeCascade cfg env ord events consumed n = (ses, consumed', n')"
  shows "list_all (\<lambda>se. \<exists>ne. is_node_event consumed ne \<and> List.member events ne \<and>
        se_PrimaryResource se = fe_Resource ne \<and>
        se_FaultEvents se = ne # node_pods events consumed (ref_Name (fe_Resource ne)) \<and>
        ncc_MinPodFailures cfg \<le> int (length (node_pods events consumed (ref_Name (fe_Resource ne))))) ses"
    and "\<forall>i. fst (env i) \<noteq> None \<Longrightarrow> list_all (\<lambda>e. ref_Name (fe_Resource e) \<noteq> []) events \<Longrightarrow>
      List.member events ne \<Longrightarrow> is_node_event consumed ne \<Longrightarrow>
      ncc_MinPodFailures cfg \<le> int (length (node_pods events consumed (ref_Name (fe_Resource ne)))) \<Longrightarrow>
      list_ex (\<lambda>se. ref_Name (se_PrimaryResource se) = ref_Name (fe_Resource ne) \<and>
        tl (se_FaultEvents se) = node_pods events consumed (ref_Name (fe_Resource ne))) ses"
proof -
  let ?m = "index_events (is_node_event consumed) (\<lambda>e. ref_Name (fe_Resource e)) events"
  let ?gs = "node_groups cfg ord events consumed"
  have ix: "v \<in> set events \<and> is_node_event consumed v \<and> ref_Name (fe_Resource v) = k"
    if "(k, v) \<in> set (range_map ord ?m)" for k v
    using index_events_sound [OF range_map_has_key [OF that]] .
  obtain gs' where "map group_of ses = gs'" "subseq gs' ?gs"
    using emit_all_spec [of env "''NodeCascade''" ?gs "[]" consumed n] assms(2)
    by (auto simp: evaluateNodeCascade_eq)
  then have "group_of se \<in> set ?gs" if "se \<in> set ses" for se
    using subseq_distinct [of gs' ?gs] that by auto
  then show "list_all (\<lambda>se. \<exists>ne. is_node_event consumed ne \<and> List.member events ne \<and>
        se_PrimaryResource se = fe_Resource ne \<and>
        se_FaultEvents se = ne # node_pods events consumed (ref_Name (fe_Resource ne)) \<and>
        ncc_MinPodFailures cfg \<le> int (length (node_pods events consumed (ref_Name (fe_Resource ne))))) ses"
    using ix by (fastforce simp: list_all_iff node_groups_def group_of_def)
  assume env: "\<forall>i. fst (env i) \<noteq> None" and named: "list_all (\<lambda>e. ref_Name (fe_Resource e) \<noteq> []) events"
    and ne: "List.member events ne" "is_node_event consumed ne"
    and min: "ncc_MinPodFailures cfg \<le> int (length (node_pods events consumed (ref_Name (fe_Resource ne))))"
  have wf: "\<forall>(p, evs) \<in> set ?gs. ref_Kind p \<noteq> [] \<and> ref_Name p \<noteq> [] \<and> evs \<noteq> []"
    using ix named by (fastforce simp: node_groups_def is_node_event_def list_all_iff)
  have all: "map group_of ses = ?gs"
    using emit_all_complete [OF env _ wf, of "''NodeCascade''" "[]" consumed n] assms(2)
    by (auto simp: evaluateNodeCascade_eq)
  obtain v where "map_of ?m (ref_Name (fe_Resource ne)) = Some v"
    using index_events_dom [of "is_node_event consumed" "\<lambda>e. ref_Name (fe_Resource e)" events] ne by fastforce
  then have v: "(ref_Name (fe_Resource ne), v) \<in> set (range_map ord ?m)"
    using range_map_keys(2) [OF assms(1) index_events_distinct] map_of_SomeD by fastforce
  have "(fe_Resource v, v # node_pods events consumed (ref_Name (fe_Resource ne))) \<in> set ?gs"
    using v min by (force simp: node_groups_def)
  then have "\<exists>se \<in> set ses. group_of se = (fe_Resource v, v # node_pods events consumed (ref_Name (fe_Resource ne)))"
    unfolding all [symmetric] by auto
  then show "list_ex (\<lambda>se. ref_Name (se_PrimaryResource se) = ref_Name (fe_Resource ne) \<and>
        tl (se_FaultEvents se) = node_pods events consumed (ref_Name (fe_Resource ne))) ses"
    using ix [OF v] by (force simp: group_of_def list_ex_iff)
qed

text \<open>
  The node cascade is exact: every super-event of the rule is a NodeNotReady event of some
  node followed by all the pod events that name this node, in arrival order and at least as many
  as the threshold; and with a working random source every named node with a NodeNotReady event and
  at least that many pod events gets one.
\<close>

theorem node_cascade_exact:
  assumes "permuting ord" "evaluateNodeCascade cfg env ord events consumed n = (ses, consumed', n')"
  shows "list_all (\<lambda>se. \<exists>ne. is_node_event consumed ne \<and> List.member events ne \<and>
        se_PrimaryResource se = fe_Resource ne \<and>
        se_FaultEvents se = ne # node_pods events consumed (ref_Name (fe_Resource ne)) \<and>
        ncc_MinPodFailures cfg \<le> int (length (node_pods events consumed (ref_Name (fe_Resource ne))))) ses \<and>
    ((\<forall>i. fst (env i) \<noteq> None) \<and> list_all (\<lambda>e. ref_Name (fe_Resource e) \<noteq> []) events \<longrightarrow>
     list_all (\<lambda>ne. is_node_event consumed ne \<and>
        ncc_MinPodFailures cfg \<le> int (length (node_pods events consumed (ref_Name (fe_Resource ne)))) \<longrightarrow>
        list_ex (\<lambda>se. ref_Name (se_PrimaryResource se) = ref_Name (fe_Resource ne) \<and>
          tl (se_FaultEvents se) = node_pods events consumed (ref_Name (fe_Resource ne))) ses) events)"
  using node_cascade_groups [OF assms] by (simp add: list_all_iff)

section \<open>Sequences of windows\<close>

text \<open>
  The correlator with its evaluation loop: submissions from the detectors, ticks of the window
  timer and the stop of the loop (the context is done or \<open>Flush\<close> closed \<open>stopCh\<close>), which
  evaluates once more and ends it. A disabled correlator's loop evaluates nothing.
\<close>

datatype co_cmd = Co_Submit FaultEvent | Co_Tick env orders | Co_Stop env orders

definition Run_step :: "Correlator \<times> bool \<Rightarrow> co_cmd \<Rightarrow> (Correlator \<times> bool) \<times> CorrelationResult option" where
  "Run_step st cmd =
     (case (st, cmd) of
        ((c, running), Co_Submit e) \<Rightarrow> (case Submit c e of (c', out) \<Rightarrow> ((c', running), out))
      | ((c, running), Co_Tick env os) \<Rightarrow>
          if running \<and> cc_Enabled (co_config c)
          then (case evaluateAndEmit env os c of (c', out) \<Rightarrow> ((c', running), out))
          else ((c, running), None)
      | ((c, running), Co_Stop env os) \<Rightarrow>
          if running \<and> cc_Enabled (co_config c)
          then (case evaluateAndEmit env os c of (c', out) \<Rightarrow> ((c', False), out))
          else ((c, False), None))"

definition submitted :: "co_cmd list \<Rightarrow> FaultEvent list" where
  "submitted cmds = List.map_filter (\<lambda>cmd. case cmd of Co_Submit e \<Rightarrow> Some e | _ \<Rightarrow> None) cmds"

definition emitted :: "CorrelationResult option list \<Rightarrow> FaultEvent list" where
  "emitted outs = concat (map (\<lambda>out. case out of None \<Rightarrow> [] | Some r \<Rightarrow> result_events r) outs)"

definition fair_cmd :: "co_cmd \<Rightarrow> bool" where
  "fair_cmd cmd \<longleftrightarrow> (case cmd of Co_Submit _ \<Rightarrow> True | Co_Tick _ os \<Rightarrow> permuting_orders os
     | Co_Stop _ os \<Rightarrow> permuting_orders os)"

lemma evaluateAndEmit_conserves:
  assumes "permuting_orders os" "distinct (map fe_ID (co_buffer c))"
    and "evaluateAndEmit env os c = (c', out)"
  shows "mset (case out of None \<Rightarrow> [] | Some r \<Rightarrow> result_events r) = mset (co_buffer c)"
    "co_buffer c' = []" "co_config c' = co_config c"
proof -
  note cons = evaluate_conserves [OF assms(1,2), of "co_config c" env]
  show "mset (case out of None \<Rightarrow> [] | Some r \<Rightarrow> result_events r) = mset (co_buffer c)"
    using assms(3) cons
    by (auto simp: evaluateAndEmit_def Let_def result_events_def split: if_splits)
  show "co_buffer c' = []" "co_config c' = co_config c"
    using assms(3) by (auto simp: evaluateAndEmit_def Let_def split: if_splits)
qed

lemma Run_step_conserves:
  assumes "fair_cmd cmd" "distinct (map fe_ID (co_buffer c))" "Run_step (c, running) cmd = ((c', running'), out)"
  shows "mset (emitted [out]) + mset (co_buffer c') = mset (co_buffer c) + mset (submitted [cmd])"
proof (cases cmd)
  case (Co_Submit e)
  then show ?thesis
    using assms(3)
    by (auto simp: Run_step_def Submit_def emitted_def submitted_def result_events_def split: if_splits prod.splits)
next
  case (Co_Tick env os)
  obtain c1 o1 where e: "evaluateAndEmit env os c = (c1, o1)" by (cases "evaluateAndEmit env os c")
  have "permuting_orders os" using assms(1) Co_Tick by (simp add: fair_cmd_def)
  note cons = evaluateAndEmit_conserves [OF this assms(2) e]
  show ?thesis
    using assms(3) cons(1,2) Co_Tick
    by (auto simp: Run_step_def e emitted_def submitted_def split: if_splits)
next
  case (Co_Stop env os)
  obtain c1 o1 where e: "evaluateAndEmit env os c = (c1, o1)" by (cases "evaluateAndEmit env os c")
  have "permuting_orders os" using assms(1) Co_Stop by (simp add: fair_cmd_def)
  note cons = evaluateAndEmit_conserves [OF this assms(2) e]
  show ?thesis
    using assms(3) cons(1,2) Co_Stop
    by (auto simp: Run_step_def e emitted_def submitted_def split: if_splits)
qed

lemma submitted_Cons: "submitted (cmd # cmds) = submitted [cmd] @ submitted cmds"
  by (simp add: submitted_def split: option.split)

lemma emitted_Cons: "emitted (out # outs) = emitted [out] @ emitted outs"
  by (simp add: emitted_def)

lemma trace_conserves:
  assumes "list_all fair_cmd cmds" "distinct (map fe_ID (co_buffer (fst st) @ submitted cmds))"
  shows "mset (emitted (run_outputs Run_step st cmds)) + mset (co_buffer (fst (run_state Run_step st cmds))) =
    mset (co_buffer (fst st)) + mset (submitted cmds)"
  using assms
proof (induction cmds arbitrary: st)
  case Nil
  then show ?case by (simp add: emitted_def submitted_def)
next
  case (Cons cmd cmds)
  obtain c running where st: "st = (c, running)" by (cases st)
  obtain c' running' out where r: "Run_step st cmd = ((c', running'), out)"
    by (metis surj_pair)
  have d: "distinct (map fe_ID (co_buffer c))" using Cons.prems(2) by (simp add: st)
  have step: "mset (emitted [out]) + mset (co_buffer c') = mset (co_buffer c) + mset (submitted [cmd])"
    using Run_step_conserves [OF _ d r [unfolded st]] Cons.prems(1) by simp
  have "mset (co_buffer c @ submitted (cmd # cmds)) = (mset (co_buffer c) + mset (submitted [cmd])) + mset (submitted cmds)"
    unfolding submitted_Cons [of cmd cmds] by simp
  also have "\<dots> = mset (emitted [out]) + mset (co_buffer c' @ submitted cmds)"
    unfolding step [symmetric] by simp
  finally have "mset (map fe_ID (co_buffer c' @ submitted cmds)) \<subseteq># mset (map fe_ID (co_buffer c @ submitted (cmd # cmds)))"
    unfolding mset_map by (simp only: image_mset_union mset_subset_eq_add_right)
  then have "distinct (map fe_ID (co_buffer c' @ submitted cmds))"
    by (rule mset_distinct_subset) (use Cons.prems(2) st in simp)
  then have IH: "mset (emitted (run_outputs Run_step (c', running') cmds)) +
      mset (co_buffer (fst (run_state Run_step (c', running') cmds))) = mset (co_buffer c') + mset (submitted cmds)"
    using Cons.IH [of "(c', running')"] Cons.prems(1) by simp
  have "mset (emitted (run_outputs Run_step st (cmd # cmds))) +
      mset (co_buffer (fst (run_state Run_step st (cmd # cmds)))) =
      mset (emitted [out]) + (mset (co_buffer c') + mset (submitted cmds))"
    unfolding IH [symmetric] by (simp add: r emitted_Cons [of out "run_outputs Run_step (c', running') cmds"])
  also have "\<dots> = mset (co_buffer c) + mset (submitted [cmd]) + mset (submitted cmds)"
    unfolding step [symmetric] by simp
  finally show ?case unfolding submitted_Cons [of cmd cmds] by (simp add: st)
qed

text \<open>
  C29. Over any run of submissions, window ticks and the final stop, every submitted event is
  handed to the output handler exactly once, inside a super-event or on its own, or is still in the
  buffer; a stop of a running correlator leaves the buffer empty.
\<close>

theorem correlator_trace_conserves:
  assumes "NewCorrelator cfg True True = Inr c" "list_all fair_cmd cmds"
    and "distinct (map fe_ID (submitted cmds))"
  shows "mset (emitted (run_outputs Run_step (c, True) cmds)) +
      mset (co_buffer (fst (run_state Run_step (c, True) cmds))) = mset (submitted cmds) \<and>
    (snd (run_state Run_step (c, True) cmds) \<longrightarrow>
       co_buffer (fst (fst (Run_step (run_state Run_step (c, True) cmds) (Co_Stop env os)))) = [])"
proof -
  have new: "c = \<lparr>co_config = cfg, co_buffer = []\<rparr>"
    using assms(1) by (auto simp: NewCorrelator_def split: option.splits)
  have idle: "\<not> cc_Enabled (co_config (fst st)) \<Longrightarrow> co_buffer (fst st) = [] \<Longrightarrow>
      \<not> cc_Enabled (co_config (fst (fst (Run_step st cmd)))) \<and> co_buffer (fst (fst (Run_step st cmd))) = []"
    for st cmd by (auto simp: Run_step_def Submit_def split: co_cmd.split prod.split)
  have cfg: "co_config (fst (fst (Run_step st cmd))) = co_config (fst st)" for st cmd
    by (auto simp: Run_step_def Submit_def evaluateAndEmit_def Let_def split: co_cmd.split prod.split)
  have "co_config (fst (run_state Run_step (c, True) cmds)) = cfg \<and>
      (\<not> cc_Enabled cfg \<longrightarrow> co_buffer (fst (run_state Run_step (c, True) cmds)) = [])"
    by (rule run_state_invariant) (use idle in \<open>auto simp: new cfg\<close>)
  then have "co_buffer (fst (fst (Run_step (run_state Run_step (c, True) cmds) (Co_Stop env os)))) = []"
    if "snd (run_state Run_step (c, True) cmds)"
    using that by (cases "run_state Run_step (c, True) cmds")
      (auto simp: Run_step_def evaluateAndEmit_def Let_def split: prod.splits)
  then show ?thesis using trace_conserves [OF assms(2), of "(c, True)"] assms(3) by (simp add: new)
qed


section \<open>Witnesses\<close>

definition ex_event :: "string \<Rightarrow> string \<Rightarrow> string \<Rightarrow> string \<Rightarrow> labels \<Rightarrow> FaultEvent" where
  "ex_event i det kind name as = \<lparr>fe_ID = i, fe_DetectorName = det, fe_Severity = SeverityWarning,
     fe_Timestamp = 0, fe_Resource = \<lparr>ref_Kind = kind, ref_Namespace = (if kind = ''Node'' then [] else ''ns''),
       ref_Name = name, ref_UID = i\<rparr>, fe_Description = [], fe_Labels = [], fe_Annotations = as\<rparr>"

definition ex_window :: "FaultEvent list" where
  "ex_window = [ex_event ''1'' ''PodFailed'' ''Pod'' ''a'' [(nodeAnnotationKey, ''n1'')],
     ex_event ''2'' ''NodeNotReady'' ''Node'' ''n1'' [],
     ex_event ''3'' ''PodFailed'' ''Pod'' ''b'' [(nodeAnnotationKey, ''n1'')],
     ex_event ''4'' ''PodFailed'' ''Pod'' ''c'' []]"

definition ex_env :: env where
  "ex_env i = (Some (replicate 16 (of_nat i)), int i)"

definition ex_orders :: orders where
  "ex_orders = \<lparr>ord_node = rev, ord_deploy = id, ord_pvc = rev, ord_ns = id\<rparr>"

lemma ex_orders_permuting: "permuting_orders ex_orders"
  by (simp add: permuting_orders_def permuting_def ex_orders_def)

lemma ex_window_ids: "distinct (map fe_ID ex_window)"
  by (simp add: ex_window_def ex_event_def)

theorem correlation_conserves_events_witness:
  "mset (result_events (evaluate DefaultCorrelatorConfig ex_env ex_orders ex_window)) = mset ex_window"
  by (rule correlation_conserves_events [OF ex_orders_permuting ex_window_ids])

theorem namespace_storm_bound_witness:
  "int (length (filter (\<lambda>e. ref_Namespace (fe_Resource e) = ''ns'')
      (cr_UncorrelatedEvents (evaluate DefaultCorrelatorConfig ex_env ex_orders ex_window)))) \<le> 20"
  using namespace_storm_bound [OF ex_orders_permuting, of ex_env DefaultCorrelatorConfig "''ns''" ex_window]
  by (simp add: ex_env_def DefaultCorrelatorConfig_def)

theorem node_cascade_exact_witness:
  "list_ex (\<lambda>se. ref_Name (se_PrimaryResource se) = ''n1'' \<and>
     map fe_ID (tl (se_FaultEvents se)) = [''1'', ''3''])
   (fst (evaluateNodeCascade \<lparr>ncc_Enabled = True, ncc_MinPodFailures = 2\<rparr> ex_env rev ex_window [] 0))"
proof -
  let ?cfg = "\<lparr>ncc_Enabled = True, ncc_MinPodFailures = 2\<rparr>"
  obtain ses c m where r: "evaluateNodeCascade ?cfg ex_env rev ex_window [] 0 = (ses, c, m)"
    by (rule prod_cases3)
  have p: "permuting (rev :: string list \<Rightarrow> string list)" by (simp add: permuting_def)
  have env: "\<forall>i. fst (ex_env i) \<noteq> None" by (simp add: ex_env_def)
  have ok: "list_all (\<lambda>e. ref_Name (fe_Resource e) \<noteq> []) ex_window" by code_simp
  have pods: "map fe_ID (node_pods ex_window [] ''n1'') = [''1'', ''3'']" by code_simp
  then have len: "length (node_pods ex_window [] ''n1'') = 2" by (metis length_map length_Cons list.size(3) numeral_2_eq_2)
  have node: "ex_event ''2'' ''NodeNotReady'' ''Node'' ''n1'' [] \<in> set ex_window" by (simp add: ex_window_def)
  have isn: "is_node_event [] (ex_event ''2'' ''NodeNotReady'' ''Node'' ''n1'' [])"
    "ref_Name (fe_Resource (ex_event ''2'' ''NodeNotReady'' ''Node'' ''n1'' [])) = ''n1''" by code_simp+
  from node_cascade_exact [OF p r] env ok
  have "list_all (\<lambda>ne. is_node_event [] ne \<and>
      2 \<le> int (length (node_pods ex_window [] (ref_Name (fe_Resource ne)))) \<longrightarrow>
      list_ex (\<lambda>se. ref_Name (se_PrimaryResource se) = ref_Name (fe_Resource ne) \<and>
        tl (se_FaultEvents se) = node_pods ex_window [] (ref_Name (fe_Resource ne))) ses) ex_window" by simp
  from this [unfolded list_all_iff, rule_format, OF node] isn len
  have "list_ex (\<lambda>se. ref_Name (se_PrimaryResource se) = ''n1'' \<and>
      tl (se_FaultEvents se) = node_pods ex_window [] ''n1'') ses" by simp
  then show ?thesis using pods by (auto simp: r list_ex_iff)
qed

definition ex_cmds :: "co_cmd list" where
  "ex_cmds = map Co_Submit ex_window @ [Co_Tick ex_env ex_orders]"

theorem correlator_trace_conserves_witness:
  "\<exists>c. NewCorrelator DefaultCorrelatorConfig True True = Inr c \<and>
     mset (emitted (run_outputs Run_step (c, True) ex_cmds)) +
       mset (co_buffer (fst (run_state Run_step (c, True) ex_cmds))) = mset ex_window"
proof -
  define c where "c = \<lparr>co_config = DefaultCorrelatorConfig, co_buffer = []\<rparr>"
  have new: "NewCorrelator DefaultCorrelatorConfig True True = Inr c" unfolding c_def by code_simp
  have fair: "list_all fair_cmd ex_cmds"
    by (simp add: ex_cmds_def list_all_iff fair_cmd_def ex_orders_permuting)
  have sub: "submitted ex_cmds = ex_window" by (simp add: ex_cmds_def ex_window_def submitted_def)
  show ?thesis
    using correlator_trace_conserves [OF new fair] ex_window_ids new by (simp add: sub)
qed


end
