(* ===== verification/Priority_Queue.thy ===== *)
theory Priority_Queue
  imports Model
begin

text \<open>
  The severity-ordered queue in front of the analyzer (\<open>PriorityQueue\<close> of
  \<open>internal/pipeline/queue/queues.go\<close>): three slices, one per severity class, a shutdown flag and
  the number of items handed out and not yet done. An operation runs under the mutex, so it is a
  function on the state. \<open>Get\<close> says whether the caller would wait on the condition variable, is
  told that the queue is shut down, or receives an item.

  The abstract queue is the list of waiting items in the order they will be served: a new item
  goes behind the last item of its own or a more urgent class (\<open>enqueue_by\<close>), \<open>Get\<close> takes the
  head. The locale \<open>stable_priority_queue\<close> states this contract and derives from it, for all
  sequences of operations, that nothing is lost or duplicated, that each class is served in
  arrival order and that no item overtakes a more urgent one. The last part models the condition
  variable itself, with the waiting goroutines, as a step relation.
\<close>

section \<open>The queue\<close>

record AnalysisItem =
  ai_Bundle :: DiagnosticBundle
  ai_Severity :: Severity

record PriorityQueue =
  pq_name :: string
  pq_queues :: "AnalysisItem list list"
  pq_shutdown :: bool
  pq_inflight :: nat

definition NewPriorityQueue :: "string \<Rightarrow> PriorityQueue" where
  "NewPriorityQueue name =
     \<lparr>pq_name = name, pq_queues = [[], [], []], pq_shutdown = False, pq_inflight = 0\<rparr>"

definition severityIndex :: "Severity \<Rightarrow> nat" where
  "severityIndex s = (if s = SeverityCritical then 0 else if s = SeverityWarning then 1 else 2)"

definition totalLen :: "PriorityQueue \<Rightarrow> nat" where
  "totalLen pq = foldl (\<lambda>total q. total + length q) 0 (pq_queues pq)"

definition Add :: "PriorityQueue \<Rightarrow> AnalysisItem \<Rightarrow> PriorityQueue" where
  "Add pq item =
     (if pq_shutdown pq then pq
      else let idx = severityIndex (ai_Severity item)
        in pq\<lparr>pq_queues := (pq_queues pq)[idx := pq_queues pq ! idx @ [item]]\<rparr>)"

datatype get_result = GetWaits | GetShutdown | GetItem AnalysisItem

fun get_loop :: "PriorityQueue \<Rightarrow> nat list \<Rightarrow> PriorityQueue \<times> get_result" where
  "get_loop pq [] = (pq, GetShutdown)"
| "get_loop pq (i # is) =
     (case pq_queues pq ! i of
        item # rest \<Rightarrow>
          (pq\<lparr>pq_queues := (pq_queues pq)[i := rest], pq_inflight := pq_inflight pq + 1\<rparr>, GetItem item)
      | [] \<Rightarrow> get_loop pq is)"

definition Get :: "PriorityQueue \<Rightarrow> PriorityQueue \<times> get_result" where
  "Get pq =
     (if totalLen pq = 0 \<and> \<not> pq_shutdown pq then (pq, GetWaits)
      else if pq_shutdown pq \<and> totalLen pq = 0 then (pq, GetShutdown)
      else get_loop pq [0..<length (pq_queues pq)])"

definition Done :: "PriorityQueue \<Rightarrow> PriorityQueue" where
  "Done pq = (if 0 < pq_inflight pq then pq\<lparr>pq_inflight := pq_inflight pq - 1\<rparr> else pq)"

definition Len :: "PriorityQueue \<Rightarrow> nat" where
  "Len pq = totalLen pq"

definition ShutDown :: "PriorityQueue \<Rightarrow> PriorityQueue" where
  "ShutDown pq = pq\<lparr>pq_shutdown := True\<rparr>"

definition ShuttingDown :: "PriorityQueue \<Rightarrow> bool" where
  "ShuttingDown pq = pq_shutdown pq"

definition Drain :: "PriorityQueue \<Rightarrow> PriorityQueue \<times> AnalysisItem list" where
  "Drain pq = (pq\<lparr>pq_queues := map (\<lambda>_. []) (pq_queues pq)\<rparr>, foldl (@) [] (pq_queues pq))"

definition InFlight :: "PriorityQueue \<Rightarrow> nat" where
  "InFlight pq = pq_inflight pq"

definition drain_waits :: "PriorityQueue \<Rightarrow> bool" where
  "drain_waits pq \<longleftrightarrow> 0 < pq_inflight pq \<or> 0 < totalLen pq"

definition inflight_waits :: "PriorityQueue \<Rightarrow> bool" where
  "inflight_waits pq \<longleftrightarrow> 0 < pq_inflight pq"

section \<open>Severity classes\<close>

datatype priority_class = Class_Critical | Class_Warning | Class_Info

fun class_rank :: "priority_class \<Rightarrow> nat" where
  "class_rank Class_Critical = 0"
| "class_rank Class_Warning = 1"
| "class_rank Class_Info = 2"

instantiation priority_class :: linorder
begin

definition less_eq_priority_class :: "priority_class \<Rightarrow> priority_class \<Rightarrow> bool" where
  "less_eq_priority_class a b \<longleftrightarrow> class_rank a \<le> class_rank b"

definition less_priority_class :: "priority_class \<Rightarrow> priority_class \<Rightarrow> bool" where
  "less_priority_class a b \<longleftrightarrow> class_rank a < class_rank b"

instance
proof
  fix a b c :: priority_class
  show "a < b \<longleftrightarrow> a \<le> b \<and> \<not> b \<le> a"
    by (auto simp: less_eq_priority_class_def less_priority_class_def)
  show "a \<le> a" by (simp add: less_eq_priority_class_def)
  show "a \<le> b \<Longrightarrow> b \<le> c \<Longrightarrow> a \<le> c" by (simp add: less_eq_priority_class_def)
  show "a \<le> b \<Longrightarrow> b \<le> a \<Longrightarrow> a = b"
    by (cases a; cases b) (simp_all add: less_eq_priority_class_def)
  show "a \<le> b \<or> b \<le> a" by (auto simp: less_eq_priority_class_def)
qed

end

definition class_of :: "AnalysisItem \<Rightarrow> priority_class" where
  "class_of item =
     (if ai_Severity item = SeverityCritical then Class_Critical
      else if ai_Severity item = SeverityWarning then Class_Warning else Class_Info)"

lemma severityIndex_class [simp]: "severityIndex (ai_Severity x) = class_rank (class_of x)"
  by (simp add: severityIndex_def class_of_def)

lemma class_rank_less [simp]: "class_rank c < 3"
  by (cases c) simp_all

section \<open>The abstract queue\<close>

definition enqueue_by :: "('a \<Rightarrow> 'c :: linorder) \<Rightarrow> 'a \<Rightarrow> 'a list \<Rightarrow> 'a list" where
  "enqueue_by f x xs = takeWhile (\<lambda>y. f y \<le> f x) xs @ x # dropWhile (\<lambda>y. f y \<le> f x) xs"

lemma enqueue_by_simps [simp]:
  "enqueue_by f x [] = [x]"
  "enqueue_by f x (y # ys) = (if f y \<le> f x then y # enqueue_by f x ys else x # y # ys)"
  by (simp_all add: enqueue_by_def)

lemma mset_enqueue_by [simp]: "mset (enqueue_by f x xs) = add_mset x (mset xs)"
  by (induction xs) auto

lemma set_enqueue_by [simp]: "set (enqueue_by f x xs) = insert x (set xs)"
  by (induction xs) auto

lemma sorted_enqueue_by: "sorted (map f xs) \<Longrightarrow> sorted (map f (enqueue_by f x xs))"
  by (induction xs) auto

lemma filter_class_sorted:
  "sorted (map f xs) \<Longrightarrow> filter (\<lambda>y. f y = c) (enqueue_by f x xs) =
     filter (\<lambda>y. f y = c) xs @ (if f x = c then [x] else [])"
proof (induction xs)
  case (Cons a xs)
  show ?case
  proof (cases "f a \<le> f x")
    case False
    with Cons.prems have "\<forall>y \<in> set xs. f y \<noteq> f x" by auto
    then have "filter (\<lambda>y. f y = f x) xs = []" by (simp add: filter_empty_conv)
    with False show ?thesis by auto
  qed (use Cons in auto)
qed simp

lemma insort_enqueue_commute:
  "sorted (map f xs) \<Longrightarrow>
   insort_key f y (enqueue_by f x xs) = enqueue_by f x (insort_key f y xs)"
  by (induction xs) auto

lemma sort_key_snoc: "sort_key f (xs @ [x]) = enqueue_by f x (sort_key f xs)"
  by (induction xs) (simp_all add: insort_enqueue_commute)

datatype 'a pq_op = Put 'a | Take

definition pq_apply :: "('q \<Rightarrow> 'a \<Rightarrow> 'q) \<Rightarrow> ('q \<Rightarrow> ('a \<times> 'q) option) \<Rightarrow> 'q \<Rightarrow> 'a pq_op \<Rightarrow> 'q \<times> 'a option"
  where
  "pq_apply add get q c =
     (case c of Put x \<Rightarrow> (add q x, None)
      | Take \<Rightarrow> (case get q of None \<Rightarrow> (q, None) | Some (x, q') \<Rightarrow> (q', Some x)))"

definition puts :: "'a pq_op list \<Rightarrow> 'a list" where
  "puts cs = List.map_filter (\<lambda>c. case c of Put x \<Rightarrow> Some x | Take \<Rightarrow> None) cs"

definition taken :: "'a option list \<Rightarrow> 'a list" where
  "taken os = List.map_filter id os"

lemma puts_simps [simp]:
  "puts [] = []" "puts (Put x # cs) = x # puts cs" "puts (Take # cs) = puts cs"
  by (simp_all add: puts_def)

lemma taken_simps [simp]:
  "taken [] = []" "taken (None # os) = taken os" "taken (Some x # os) = x # taken os"
  by (simp_all add: taken_def)

locale stable_priority_queue =
  fixes add :: "'q \<Rightarrow> 'a \<Rightarrow> 'q"
    and get :: "'q \<Rightarrow> ('a \<times> 'q) option"
    and view :: "'q \<Rightarrow> 'a list"
    and ok :: "'q \<Rightarrow> bool"
    and prio :: "'a \<Rightarrow> 'c :: linorder"
  assumes ok_sorted: "ok q \<Longrightarrow> sorted (map prio (view q))"
    and add_ok: "ok q \<Longrightarrow> ok (add q x)"
    and add_view: "ok q \<Longrightarrow> view (add q x) = enqueue_by prio x (view q)"
    and get_none: "ok q \<Longrightarrow> get q = None \<longleftrightarrow> view q = []"
    and get_ok: "ok q \<Longrightarrow> get q = Some (x, q') \<Longrightarrow> ok q'"
    and get_view: "ok q \<Longrightarrow> get q = Some (x, q') \<Longrightarrow> view q = x # view q'"
begin

lemma step_ok: "ok q \<Longrightarrow> ok (fst (pq_apply add get q c))"
  by (auto simp: pq_apply_def add_ok get_ok split: pq_op.split option.split)

lemma run_ok: "ok q \<Longrightarrow> ok (run_state (pq_apply add get) q cs)"
  by (rule run_state_invariant) (auto intro: step_ok)

lemma served_most_urgent:
  "ok q \<Longrightarrow> get q = Some (x, q') \<Longrightarrow> y \<in> set (view q') \<Longrightarrow> prio x \<le> prio y"
  using ok_sorted [of q] get_view [of q x q'] by auto

lemma class_order:
  assumes "ok q"
  shows "filter (\<lambda>y. prio y = c) (taken (run_outputs (pq_apply add get) q cs)) @
           filter (\<lambda>y. prio y = c) (view (run_state (pq_apply add get) q cs)) =
         filter (\<lambda>y. prio y = c) (view q) @ filter (\<lambda>y. prio y = c) (puts cs)"
  using assms
proof (induction cs arbitrary: q)
  case (Cons a cs)
  note IH = Cons.IH [OF step_ok [OF Cons.prems, of a]]
  show ?case
  proof (cases a)
    case (Put x)
    then show ?thesis
      using IH Cons.prems by (simp add: pq_apply_def add_view filter_class_sorted ok_sorted)
  next
    case Take
    then show ?thesis
      using IH Cons.prems get_view [OF Cons.prems]
      by (cases "get q") (auto simp: pq_apply_def)
  qed
qed simp

lemma conservation:
  assumes "ok q"
  shows "mset (taken (run_outputs (pq_apply add get) q cs)) +
           mset (view (run_state (pq_apply add get) q cs)) = mset (view q) + mset (puts cs)"
  using assms
proof (induction cs arbitrary: q)
  case (Cons a cs)
  note IH = Cons.IH [OF step_ok [OF Cons.prems, of a]]
  show ?case
  proof (cases a)
    case (Put x)
    then show ?thesis using IH Cons.prems by (simp add: pq_apply_def add_view)
  next
    case Take
    then show ?thesis
      using IH Cons.prems get_view [OF Cons.prems]
      by (cases "get q") (auto simp: pq_apply_def)
  qed
qed simp

lemma batch_sorted:
  "ok q \<Longrightarrow> view q = [] \<Longrightarrow> view (foldl add q xs) = sort_key prio xs \<and> ok (foldl add q xs)"
  by (induction xs rule: rev_induct) (auto simp: add_view add_ok sort_key_snoc)

end

section \<open>The code's queue implements the abstract queue\<close>

definition pq_view :: "PriorityQueue \<Rightarrow> AnalysisItem list" where
  "pq_view pq = concat (pq_queues pq)"

definition pq_wf :: "PriorityQueue \<Rightarrow> bool" where
  "pq_wf pq \<longleftrightarrow> length (pq_queues pq) = 3 \<and>
     (\<forall>i < 3. list_all (\<lambda>x. class_rank (class_of x) = i) (pq_queues pq ! i))"

definition pq_open :: "PriorityQueue \<Rightarrow> bool" where
  "pq_open pq \<longleftrightarrow> pq_wf pq \<and> \<not> pq_shutdown pq"

definition get_item :: "PriorityQueue \<Rightarrow> (AnalysisItem \<times> PriorityQueue) option" where
  "get_item pq = (case Get pq of (pq', GetItem x) \<Rightarrow> Some (x, pq') | _ \<Rightarrow> None)"

lemma three_queues:
  "pq_wf pq \<Longrightarrow> \<exists>a b c. pq_queues pq = [a, b, c] \<and>
     list_all (\<lambda>x. class_of x = Class_Critical) a \<and> list_all (\<lambda>x. class_of x = Class_Warning) b \<and>
     list_all (\<lambda>x. class_of x = Class_Info) c"
proof -
  assume wf: "pq_wf pq"
  then obtain a b c where abc: "pq_queues pq = [a, b, c]"
    by (auto simp: pq_wf_def eval_nat_numeral length_Suc_conv)
  have rank: "class_rank k = 0 \<longleftrightarrow> k = Class_Critical" "class_rank k = Suc 0 \<longleftrightarrow> k = Class_Warning"
    "class_rank k = 2 \<longleftrightarrow> k = Class_Info" for k by (cases k; simp)+
  have "\<forall>i < 3. list_all (\<lambda>x. class_rank (class_of x) = i) ([a, b, c] ! i)"
    using wf by (simp add: pq_wf_def abc)
  from this [rule_format, of 0] this [rule_format, of 1] this [rule_format, of 2]
  show ?thesis by (simp add: abc rank)
qed

lemma totalLen_view: "totalLen pq = length (pq_view pq)"
proof -
  have "foldl (\<lambda>total q. total + length q) n qs = n + length (concat qs)" for n and qs :: "AnalysisItem list list"
    by (induction qs arbitrary: n) auto
  then show ?thesis by (simp add: totalLen_def pq_view_def)
qed

lemma map_const_class: "list_all (\<lambda>x. f x = c) xs \<Longrightarrow> map f xs = replicate (length xs) c"
  by (induction xs) auto

lemma class_order_simps [simp]:
  "Class_Critical \<le> k" "k \<le> Class_Info" "Class_Warning \<le> Class_Warning"
  "\<not> Class_Warning \<le> Class_Critical" "\<not> Class_Info \<le> Class_Critical" "\<not> Class_Info \<le> Class_Warning"
  by (cases k; simp add: less_eq_priority_class_def)+

lemma pq_view_sorted: "pq_wf pq \<Longrightarrow> sorted (map class_of (pq_view pq))"
proof -
  assume "pq_wf pq"
  then obtain a b c where abc: "pq_queues pq = [a, b, c]"
    "list_all (\<lambda>x. class_of x = Class_Critical) a" "list_all (\<lambda>x. class_of x = Class_Warning) b"
    "list_all (\<lambda>x. class_of x = Class_Info) c"
    using three_queues by blast
  from abc(2-4)[THEN map_const_class] show ?thesis
    by (simp add: pq_view_def abc(1) sorted_append)
qed

lemma enqueue_classes:
  assumes "list_all (\<lambda>x. class_of x = Class_Critical) a" "list_all (\<lambda>x. class_of x = Class_Warning) b"
    "list_all (\<lambda>x. class_of x = Class_Info) c"
  shows "class_of x = Class_Critical \<Longrightarrow> enqueue_by class_of x (a @ b @ c) = a @ x # b @ c"
    and "class_of x = Class_Warning \<Longrightarrow> enqueue_by class_of x (a @ b @ c) = a @ b @ x # c"
    and "class_of x = Class_Info \<Longrightarrow> enqueue_by class_of x (a @ b @ c) = a @ b @ c @ [x]"
proof -
  have skip: "list_all (\<lambda>y. class_of y \<le> class_of x) ys \<Longrightarrow>
      enqueue_by class_of x (ys @ zs) = ys @ enqueue_by class_of x zs" for ys zs
    by (induction ys) auto
  have stop: "list_all (\<lambda>y. \<not> class_of y \<le> class_of x) ys \<Longrightarrow> enqueue_by class_of x ys = x # ys" for ys
    by (cases ys) auto
  show "enqueue_by class_of x (a @ b @ c) = a @ x # b @ c" if "class_of x = Class_Critical"
    using assms that by (subst skip, simp add: list_all_iff, subst stop) (auto simp: list_all_iff)
  show "enqueue_by class_of x (a @ b @ c) = a @ b @ x # c" if "class_of x = Class_Warning"
    using assms that by (subst skip, simp add: list_all_iff, subst skip) (auto simp: list_all_iff intro!: stop)
  show "enqueue_by class_of x (a @ b @ c) = a @ b @ c @ [x]" if "class_of x = Class_Info"
    using skip [of "a @ b @ c" "[]"] that by (simp add: list_all_iff)
qed

lemma Add_wf: "pq_wf pq \<Longrightarrow> pq_wf (Add pq x)"
  by (auto simp: pq_wf_def Add_def Let_def nth_list_update)

lemma Add_view:
  assumes "pq_open pq"
  shows "pq_view (Add pq x) = enqueue_by class_of x (pq_view pq)"
proof -
  obtain a b c where abc: "pq_queues pq = [a, b, c]"
    "list_all (\<lambda>x. class_of x = Class_Critical) a" "list_all (\<lambda>x. class_of x = Class_Warning) b"
    "list_all (\<lambda>x. class_of x = Class_Info) c"
    using three_queues assms unfolding pq_open_def by blast
  note e = enqueue_classes [OF abc(2-4), of x]
  show ?thesis
    using assms e by (cases "class_of x") (simp_all add: pq_open_def pq_view_def Add_def Let_def abc(1))
qed

lemma get_loop_concat:
  assumes "pq_queues pq = [a, b, c]" "a @ b @ c \<noteq> []"
  shows "\<exists>pq' x. get_loop pq [0, 1, 2] = (pq', GetItem x) \<and> pq_view pq = x # pq_view pq' \<and>
    (pq_wf pq \<longrightarrow> pq_wf pq') \<and> pq_shutdown pq' = pq_shutdown pq \<and>
    pq_inflight pq' = pq_inflight pq + 1"
proof -
  have upd: "pq_wf pq \<Longrightarrow> i < 3 \<Longrightarrow> pq_queues pq ! i = y # ys \<Longrightarrow>
      pq_wf (pq\<lparr>pq_queues := (pq_queues pq)[i := ys], pq_inflight := n\<rparr>)" for i y ys n
    by (auto simp: pq_wf_def nth_list_update)
  show ?thesis
    using assms upd [of 0] upd [of 1] upd [of 2]
    by (cases a; cases b; cases c) (auto simp: pq_view_def)
qed

lemma Get_cases:
  assumes "pq_wf pq"
  obtains (waits) "pq_view pq = []" "\<not> pq_shutdown pq" "Get pq = (pq, GetWaits)"
    | (down) "pq_view pq = []" "pq_shutdown pq" "Get pq = (pq, GetShutdown)"
    | (item) x pq' where "Get pq = (pq', GetItem x)" "pq_view pq = x # pq_view pq'" "pq_wf pq'"
        "pq_shutdown pq' = pq_shutdown pq" "pq_inflight pq' = pq_inflight pq + 1"
proof (cases "pq_view pq = []")
  case True
  then show ?thesis using that by (cases "pq_shutdown pq") (auto simp: Get_def totalLen_view)
next
  case False
  obtain a b c where abc: "pq_queues pq = [a, b, c]" using three_queues [OF assms] by blast
  have "a @ b @ c \<noteq> []" using False by (simp add: pq_view_def abc)
  then show ?thesis
    using get_loop_concat [OF abc] that(3) assms False
    by (auto simp: Get_def totalLen_view abc upt_rec numeral_eq_Suc)
qed

interpretation pq: stable_priority_queue Add get_item pq_view pq_open class_of
proof unfold_locales
  fix q q' :: PriorityQueue and x
  assume ok: "pq_open q"
  then have wf: "pq_wf q" and up: "\<not> pq_shutdown q" by (simp_all add: pq_open_def)
  show "sorted (map class_of (pq_view q))" by (rule pq_view_sorted [OF wf])
  show "pq_open (Add q x)" using Add_wf [OF wf] up by (simp add: pq_open_def Add_def Let_def)
  show "pq_view (Add q x) = enqueue_by class_of x (pq_view q)" by (rule Add_view [OF ok])
  show "get_item q = None \<longleftrightarrow> pq_view q = []"
    using wf by (rule Get_cases) (auto simp: get_item_def)
  assume g: "get_item q = Some (x, q')"
  show "pq_open q'"
    using wf by (rule Get_cases) (use g up in \<open>auto simp: get_item_def pq_open_def\<close>)
  show "pq_view q = x # pq_view q'"
    using wf by (rule Get_cases) (use g in \<open>auto simp: get_item_def\<close>)
qed

lemma New_open [simp]: "pq_open (NewPriorityQueue n)" "pq_view (NewPriorityQueue n) = []"
  by (auto simp: pq_open_def pq_wf_def NewPriorityQueue_def pq_view_def less_Suc_eq numeral_eq_Suc)

section \<open>Properties\<close>

text \<open>
  C30. Refinement: on an open queue \<open>Add\<close> and \<open>Get\<close> are the operations of a list kept in
  severity order: \<open>Add\<close> puts the item behind the last waiting item of its own or a higher
  severity and leaves the others in place, \<open>Get\<close> hands out the head or, on an empty queue, waits.
\<close>

theorem priority_queue_refines:
  assumes "pq_open pq"
  shows "pq_view (Add pq x) = enqueue_by class_of x (pq_view pq) \<and>
    (case pq_view pq of
       [] \<Rightarrow> Get pq = (pq, GetWaits)
     | y # ys \<Rightarrow> snd (Get pq) = GetItem y \<and> pq_view (fst (Get pq)) = ys \<and> pq_open (fst (Get pq)) \<and>
         InFlight (fst (Get pq)) = InFlight pq + 1)"
proof -
  have wf: "pq_wf pq" using assms by (simp add: pq_open_def)
  then have "case pq_view pq of
       [] \<Rightarrow> Get pq = (pq, GetWaits)
     | y # ys \<Rightarrow> snd (Get pq) = GetItem y \<and> pq_view (fst (Get pq)) = ys \<and> pq_open (fst (Get pq)) \<and>
         InFlight (fst (Get pq)) = InFlight pq + 1"
    by (rule Get_cases) (use assms in \<open>auto simp: pq_open_def InFlight_def\<close>)
  then show ?thesis using Add_view [OF assms] by simp
qed

text \<open>
  Nothing is lost, duplicated or reordered within a severity: after any sequence of \<open>Add\<close>
  and \<open>Get\<close> on a new queue, the items handed out followed by the items waiting are, class by
  class, exactly the added items in arrival order.
\<close>

theorem priority_queue_fifo_per_class:
  "filter (\<lambda>y. class_of y = c) (taken (run_outputs (pq_apply Add get_item) (NewPriorityQueue n) cs)) @
     filter (\<lambda>y. class_of y = c) (pq_view (run_state (pq_apply Add get_item) (NewPriorityQueue n) cs)) =
   filter (\<lambda>y. class_of y = c) (puts cs)"
  using pq.class_order [of "NewPriorityQueue n" c cs] by simp

text \<open>
  A batch of items is served in stable severity order: adding a list to a new queue leaves
  the items in the order of a stable sort by severity class, and \<open>Drain\<close> returns all of them in
  that order and leaves the queue empty.
\<close>

theorem priority_queue_stable_sort:
  "pq_view (foldl Add (NewPriorityQueue n) xs) = sort_key class_of xs \<and>
   snd (Drain (foldl Add (NewPriorityQueue n) xs)) = sort_key class_of xs \<and>
   Len (fst (Drain (foldl Add (NewPriorityQueue n) xs))) = 0"
proof -
  have "foldl (@) ys qs = ys @ concat qs" for ys :: "AnalysisItem list" and qs
    by (induction qs arbitrary: ys) auto
  then have d: "snd (Drain pq) = pq_view pq" "pq_view (fst (Drain pq)) = []" for pq
    by (simp_all add: Drain_def pq_view_def)
  show ?thesis using pq.batch_sorted [of "NewPriorityQueue n" xs] d by (simp add: Len_def totalLen_view)
qed

section \<open>The condition variable\<close>

text \<open>
  The goroutines around one queue: workers asleep in \<open>Get\<close> (\<open>cv_get\<close>), waiters of
  \<open>WaitForDrain\<close> (\<open>cv_drain\<close>) and of \<open>WaitForInflight\<close> (\<open>cv_infl\<close>), and of each kind those that
  have been woken and have not run yet. \<open>Signal\<close> wakes some one sleeper, of any kind, where there
  is one; \<open>Broadcast\<close> wakes all. A woken goroutine tests its condition again under the mutex.
  \<open>Drain\<close> is not called by the controller and takes no part.
\<close>

record cv_state =
  cv_pq :: PriorityQueue
  cv_get :: nat
  cv_get_woken :: nat
  cv_drain :: nat
  cv_drain_woken :: nat
  cv_infl :: nat
  cv_infl_woken :: nat

definition cv_init :: "string \<Rightarrow> cv_state" where
  "cv_init n = \<lparr>cv_pq = NewPriorityQueue n, cv_get = 0, cv_get_woken = 0, cv_drain = 0,
     cv_drain_woken = 0, cv_infl = 0, cv_infl_woken = 0\<rparr>"

definition broadcast :: "cv_state \<Rightarrow> cv_state" where
  "broadcast s = s\<lparr>cv_get := 0, cv_get_woken := cv_get_woken s + cv_get s,
     cv_drain := 0, cv_drain_woken := cv_drain_woken s + cv_drain s,
     cv_infl := 0, cv_infl_woken := cv_infl_woken s + cv_infl s\<rparr>"

inductive cv_step :: "cv_state \<Rightarrow> cv_state \<Rightarrow> bool" where
  add_unheard: "cv_get s = 0 \<Longrightarrow> cv_drain s = 0 \<Longrightarrow> cv_infl s = 0 \<Longrightarrow>
    cv_step s (s\<lparr>cv_pq := Add (cv_pq s) x\<rparr>)"
| add_down: "pq_shutdown (cv_pq s) \<Longrightarrow> cv_step s (s\<lparr>cv_pq := Add (cv_pq s) x\<rparr>)"
| add_get: "\<not> pq_shutdown (cv_pq s) \<Longrightarrow> 0 < cv_get s \<Longrightarrow>
    cv_step s (s\<lparr>cv_pq := Add (cv_pq s) x, cv_get := cv_get s - 1, cv_get_woken := cv_get_woken s + 1\<rparr>)"
| add_drain: "\<not> pq_shutdown (cv_pq s) \<Longrightarrow> 0 < cv_drain s \<Longrightarrow>
    cv_step s (s\<lparr>cv_pq := Add (cv_pq s) x, cv_drain := cv_drain s - 1, cv_drain_woken := cv_drain_woken s + 1\<rparr>)"
| add_infl: "\<not> pq_shutdown (cv_pq s) \<Longrightarrow> 0 < cv_infl s \<Longrightarrow>
    cv_step s (s\<lparr>cv_pq := Add (cv_pq s) x, cv_infl := cv_infl s - 1, cv_infl_woken := cv_infl_woken s + 1\<rparr>)"
| get_waits: "snd (Get (cv_pq s)) = GetWaits \<Longrightarrow> cv_step s (s\<lparr>cv_get := cv_get s + 1\<rparr>)"
| get_returns: "snd (Get (cv_pq s)) \<noteq> GetWaits \<Longrightarrow> cv_step s (s\<lparr>cv_pq := fst (Get (cv_pq s))\<rparr>)"
| get_waits_again: "0 < cv_get_woken s \<Longrightarrow> snd (Get (cv_pq s)) = GetWaits \<Longrightarrow>
    cv_step s (s\<lparr>cv_get := cv_get s + 1, cv_get_woken := cv_get_woken s - 1\<rparr>)"
| get_woken_returns: "0 < cv_get_woken s \<Longrightarrow> snd (Get (cv_pq s)) \<noteq> GetWaits \<Longrightarrow>
    cv_step s (s\<lparr>cv_pq := fst (Get (cv_pq s)), cv_get_woken := cv_get_woken s - 1\<rparr>)"
| finish: "cv_step s (broadcast (s\<lparr>cv_pq := Done (cv_pq s)\<rparr>))"
| shut: "cv_step s (broadcast (s\<lparr>cv_pq := ShutDown (cv_pq s)\<rparr>))"
| drain_waits: "drain_waits (cv_pq s) \<Longrightarrow> cv_step s (s\<lparr>cv_drain := cv_drain s + 1\<rparr>)"
| drain_waits_again: "0 < cv_drain_woken s \<Longrightarrow> drain_waits (cv_pq s) \<Longrightarrow>
    cv_step s (s\<lparr>cv_drain := cv_drain s + 1, cv_drain_woken := cv_drain_woken s - 1\<rparr>)"
| drain_returns: "0 < cv_drain_woken s \<Longrightarrow> \<not> drain_waits (cv_pq s) \<Longrightarrow>
    cv_step s (s\<lparr>cv_drain_woken := cv_drain_woken s - 1\<rparr>)"
| infl_waits: "inflight_waits (cv_pq s) \<Longrightarrow> cv_step s (s\<lparr>cv_infl := cv_infl s + 1\<rparr>)"
| infl_waits_again: "0 < cv_infl_woken s \<Longrightarrow> inflight_waits (cv_pq s) \<Longrightarrow>
    cv_step s (s\<lparr>cv_infl := cv_infl s + 1, cv_infl_woken := cv_infl_woken s - 1\<rparr>)"
| infl_returns: "0 < cv_infl_woken s \<Longrightarrow> \<not> inflight_waits (cv_pq s) \<Longrightarrow>
    cv_step s (s\<lparr>cv_infl_woken := cv_infl_woken s - 1\<rparr>)"

definition cv_inv :: "cv_state \<Rightarrow> bool" where
  "cv_inv s \<longleftrightarrow> pq_wf (cv_pq s) \<and>
     (pq_shutdown (cv_pq s) \<longrightarrow> cv_get s = 0) \<and>
     (0 < cv_get s \<and> 0 < totalLen (cv_pq s) \<longrightarrow> 0 < cv_get_woken s \<or> 0 < pq_inflight (cv_pq s)) \<and>
     (0 < cv_get s \<and> 0 < cv_drain s \<longrightarrow> 0 < cv_get_woken s \<or> 0 < pq_inflight (cv_pq s)) \<and>
     (0 < cv_drain s \<longrightarrow> drain_waits (cv_pq s)) \<and>
     (0 < cv_infl s \<longrightarrow> inflight_waits (cv_pq s))"

lemma Get_waitsD: "pq_wf pq \<Longrightarrow> snd (Get pq) = GetWaits \<Longrightarrow> totalLen pq = 0 \<and> \<not> pq_shutdown pq"
  by (erule Get_cases) (auto simp: totalLen_view)

lemma Get_returnsD:
  "pq_wf pq \<Longrightarrow> snd (Get pq) \<noteq> GetWaits \<Longrightarrow>
   pq_wf (fst (Get pq)) \<and> pq_shutdown (fst (Get pq)) = pq_shutdown pq \<and>
   (fst (Get pq) = pq \<and> pq_shutdown pq \<and> totalLen pq = 0 \<or> 0 < pq_inflight (fst (Get pq)))"
  by (rule Get_cases [of pq]) (auto simp: totalLen_view)

lemma Add_effect:
  "pq_inflight (Add pq x) = pq_inflight pq" "pq_shutdown (Add pq x) = pq_shutdown pq"
  "pq_wf pq \<Longrightarrow> totalLen (Add pq x) = (if pq_shutdown pq then totalLen pq else totalLen pq + 1)"
proof -
  show "pq_inflight (Add pq x) = pq_inflight pq" "pq_shutdown (Add pq x) = pq_shutdown pq"
    by (simp_all add: Add_def Let_def)
  show "totalLen (Add pq x) = (if pq_shutdown pq then totalLen pq else totalLen pq + 1)" if "pq_wf pq"
  proof (cases "pq_shutdown pq")
    case False
    with that have "pq_open pq" by (simp add: pq_open_def)
    from Add_view [OF this] have "mset (pq_view (Add pq x)) = add_mset x (mset (pq_view pq))" by simp
    then have "length (pq_view (Add pq x)) = length (pq_view pq) + 1"
      by (metis size_mset size_add_mset Suc_eq_plus1)
    with False show ?thesis by (simp add: totalLen_view)
  qed (simp add: Add_def)
qed

lemma queue_frames [simp]:
  "pq_wf (Done pq) = pq_wf pq" "pq_shutdown (Done pq) = pq_shutdown pq"
  "pq_wf (ShutDown pq) = pq_wf pq" "pq_shutdown (ShutDown pq)"
  by (simp_all add: Done_def ShutDown_def pq_wf_def)

lemma cv_inv_step: "cv_step s s' \<Longrightarrow> cv_inv s \<Longrightarrow> cv_inv s'"
proof (induction rule: cv_step.induct)
  case (get_returns s)
  then show ?case using Get_returnsD [of "cv_pq s"] by (auto simp: cv_inv_def drain_waits_def inflight_waits_def)
next
  case (get_woken_returns s)
  then show ?case using Get_returnsD [of "cv_pq s"] by (auto simp: cv_inv_def drain_waits_def inflight_waits_def)
next
  case (get_waits s)
  then show ?case using Get_waitsD [of "cv_pq s"] by (auto simp: cv_inv_def drain_waits_def)
next
  case (get_waits_again s)
  then show ?case using Get_waitsD [of "cv_pq s"] by (auto simp: cv_inv_def drain_waits_def)
qed (auto simp: cv_inv_def broadcast_def Add_wf Add_effect drain_waits_def inflight_waits_def)

lemma cv_inv_init: "cv_inv (cv_init n)"
  using New_open by (simp add: cv_inv_def cv_init_def pq_open_def)


definition Get_call :: "PriorityQueue \<Rightarrow> unit \<Rightarrow> PriorityQueue \<times> get_result" where
  "Get_call pq u = Get pq"

lemma drained_in_order:
  "pq_wf pq \<Longrightarrow> pq_shutdown pq \<Longrightarrow> length us = length (pq_view pq) \<Longrightarrow>
   run_outputs Get_call pq us = map GetItem (pq_view pq) \<and>
   Get (run_state Get_call pq us) = (run_state Get_call pq us, GetShutdown)"
proof (induction us arbitrary: pq)
  case Nil
  then show ?case by (simp add: Get_def totalLen_view)
next
  case (Cons u us)
  from Cons.prems(1) show ?case
  proof (rule Get_cases)
    fix x pq'
    assume "Get pq = (pq', GetItem x)" "pq_view pq = x # pq_view pq'" "pq_wf pq'"
      "pq_shutdown pq' = pq_shutdown pq"
    with Cons show ?thesis by (simp add: Get_call_def)
  qed (use Cons.prems in auto)
qed

text \<open>
  Shutdown drains: after \<open>ShutDown\<close> further \<open>Add\<close> calls change nothing, the waiting items
  are still handed out, all of them and in order, and only then does \<open>Get\<close> report the shutdown.
\<close>

theorem shutdown_drains_in_order:
  assumes "pq_wf pq" "length us = length (pq_view pq)"
  shows "Add (ShutDown pq) x = ShutDown pq \<and>
    run_outputs Get_call (ShutDown pq) us = map GetItem (pq_view pq) \<and>
    snd (Get (run_state Get_call (ShutDown pq) us)) = GetShutdown"
proof -
  have "pq_view (ShutDown pq) = pq_view pq" by (simp add: ShutDown_def pq_view_def)
  then show ?thesis
    using drained_in_order [of "ShutDown pq" us] assms by (simp add: Add_def)
qed

section \<open>Witnesses\<close>

definition ex_item :: "string \<Rightarrow> Severity \<Rightarrow> AnalysisItem" where
  "ex_item t s = \<lparr>ai_Bundle = NewDiagnosticBundle 0 None [\<lparr>sec_GathererName = t, sec_Title = t,
     sec_Content = [], sec_Format = ''text'', sec_Error = []\<rparr>], ai_Severity = s\<rparr>"

definition ex_queue :: PriorityQueue where
  "ex_queue = foldl Add (NewPriorityQueue ''analysis'')
     [ex_item ''a'' SeverityInfo, ex_item ''b'' SeverityCritical, ex_item ''c'' SeverityWarning,
      ex_item ''d'' SeverityCritical]"

lemma ex_queue_open: "pq_open ex_queue"
  unfolding ex_queue_def by (rule pq.batch_sorted [THEN conjunct2]) simp_all

lemma ex_queue_view: "pq_view ex_queue =
  [ex_item ''b'' SeverityCritical, ex_item ''d'' SeverityCritical, ex_item ''c'' SeverityWarning,
   ex_item ''a'' SeverityInfo]"
  by code_simp

theorem priority_queue_refines_witness:
  "snd (Get ex_queue) = GetItem (ex_item ''b'' SeverityCritical) \<and> InFlight (fst (Get ex_queue)) = 1"
proof -
  have "InFlight ex_queue = 0" by code_simp
  then show ?thesis
    using priority_queue_refines [OF ex_queue_open] by (simp add: ex_queue_view)
qed


theorem shutdown_drains_in_order_witness:
  "run_outputs Get_call (ShutDown ex_queue) [(), (), (), ()] = map GetItem (pq_view ex_queue)"
  using shutdown_drains_in_order [of ex_queue "[(), (), (), ()]"] ex_queue_open
  by (simp add: pq_open_def ex_queue_view)

end
