(* ===== verification/Analyzers.thy ===== *)
theory Analyzers
  imports Model
begin

text \<open>
  The \<open>Analyzer\<close> interface and the three analyzers that wrap or stand in for the language-model
  backends (\<open>internal/analyzer/analyzer.go\<close>, \<open>noop.go\<close>, \<open>circuit_breaker.go\<close>,
  \<open>rate_limiter.go\<close>). An analyzer is a state-passing function: its state, the clock readings of
  the call and the bundle give the new state and an error or a report. A wrapper takes the primary
  and the fallback analyzer as arguments, with their states inside its own.

  The locale \<open>analyzer\<close> is the contract the pipeline relies on: a report a call returns is about
  the bundle of the call. The noop analyzer meets it, and the circuit breaker and the rate limiter
  preserve it. The second part runs the circuit breaker with concurrent requests, whose primary
  calls happen outside the lock, as a step relation.
\<close>

section \<open>The interface and the noop analyzer\<close>

datatype analyzer_error =
    ContextError string
  | NoopEmptyBundle
  | BackendError string

type_synonym ('s, 'r) analyze = "'s \<Rightarrow> 'r \<Rightarrow> DiagnosticBundle \<Rightarrow> 's \<times> (analyzer_error + RCAReport)"

definition bundle_id :: "DiagnosticBundle \<Rightarrow> string" where
  "bundle_id b =
     (case db_SuperEvent b of Some se \<Rightarrow> se_ID se
      | None \<Rightarrow> (case db_FaultEvent b of Some fe \<Rightarrow> fe_ID fe | None \<Rightarrow> []))"

definition not_performed :: string where
  "not_performed = ''Automated analysis not performed '' @ [CHR 0xE2, CHR 0x80, CHR 0x94] @
     '' raw diagnostics attached''"

definition NoopAnalyzer_Name :: string where
  "NoopAnalyzer_Name = ''noop''"

definition NoopAnalyzer_Analyze :: "(unit, string option \<times> gotime) analyze" where
  "NoopAnalyzer_Analyze s rd bundle =
     (s, case fst rd of
           Some err \<Rightarrow> Inl (ContextError err)
         | None \<Rightarrow>
             (let found = (case db_SuperEvent bundle of
                  Some se \<Rightarrow> Some (se_ID se, se_Severity se)
                | None \<Rightarrow> (case db_FaultEvent bundle of
                      Some fe \<Rightarrow> Some (fe_ID fe, fe_Severity fe)
                    | None \<Rightarrow> None))
              in case found of
                   None \<Rightarrow> Inl NoopEmptyBundle
                 | Some (faultEventID, severity) \<Rightarrow>
                     Inr \<lparr>rca_FaultEventID = faultEventID, rca_Timestamp = snd rd,
                          rca_RootCause = not_performed, rca_Severity = severity,
                          rca_Category = ''unknown'', rca_Systemic = False, rca_BlastRadius = [],
                          rca_Remediation = [], rca_RelatedResources = [], rca_Confidence = 0,
                          rca_RawAnalysis = [], rca_DiagnosticBundle = bundle,
                          rca_AnalyzerBackend = ''noop'',
                          rca_TokensUsed = \<lparr>tok_Input = 0, tok_Output = 0\<rparr>\<rparr>))"

locale analyzer =
  fixes analyze :: "('s, 'r) analyze"
  assumes about_bundle: "snd (analyze s rd b) = Inr report \<Longrightarrow>
    rca_FaultEventID report = bundle_id b \<and> rca_DiagnosticBundle report = b"

interpretation noop: analyzer NoopAnalyzer_Analyze
  by unfold_locales
    (auto simp: NoopAnalyzer_Analyze_def bundle_id_def Let_def split: option.splits)

lemma noop_total:
  "db_FaultEvent b \<noteq> None \<or> db_SuperEvent b \<noteq> None \<Longrightarrow>
   \<exists>report. snd (NoopAnalyzer_Analyze s (None, now) b) = Inr report"
  by (auto simp: NoopAnalyzer_Analyze_def Let_def split: option.splits)

section \<open>The circuit breaker\<close>

datatype CircuitState = CircuitClosed | CircuitOpen | CircuitHalfOpen

definition CircuitState_String :: "CircuitState \<Rightarrow> string" where
  "CircuitState_String s = (case s of CircuitClosed \<Rightarrow> ''closed'' | CircuitOpen \<Rightarrow> ''open''
     | CircuitHalfOpen \<Rightarrow> ''half-open'')"

record CircuitBreakerConfig =
  cbc_ConsecutiveFailures :: goint
  cbc_OpenDuration :: duration

record CircuitBreaker =
  cb_cfg :: CircuitBreakerConfig
  cb_state :: CircuitState
  cb_consecutiveFailures :: goint
  cb_openedAt :: gotime

datatype breaker_error = PrimaryNil | FallbackNil | LoggerNil | FailuresTooSmall goint | DurationNotPositive duration

definition NewCircuitBreaker :: "bool \<Rightarrow> bool \<Rightarrow> CircuitBreakerConfig \<Rightarrow> bool \<Rightarrow> breaker_error + CircuitBreaker" where
  "NewCircuitBreaker primary fallback cfg logger =
     (if \<not> primary then Inl PrimaryNil
      else if \<not> fallback then Inl FallbackNil
      else if \<not> logger then Inl LoggerNil
      else if cbc_ConsecutiveFailures cfg < 1 then Inl (FailuresTooSmall (cbc_ConsecutiveFailures cfg))
      else if cbc_OpenDuration cfg \<le> 0 then Inl (DurationNotPositive (cbc_OpenDuration cfg))
      else Inr \<lparr>cb_cfg = cfg, cb_state = CircuitClosed, cb_consecutiveFailures = 0, cb_openedAt = 0\<rparr>)"

definition currentStateLocked :: "gotime \<Rightarrow> CircuitBreaker \<Rightarrow> CircuitBreaker \<times> CircuitState" where
  "currentStateLocked now cb =
     (let cb' = (if cb_state cb = CircuitOpen \<and>
                    cbc_OpenDuration (cb_cfg cb) \<le> time_Sub now (cb_openedAt cb)
                 then cb\<lparr>cb_state := CircuitHalfOpen\<rparr> else cb)
      in (cb', cb_state cb'))"

definition recordSuccess :: "CircuitBreaker \<Rightarrow> CircuitBreaker" where
  "recordSuccess cb = cb\<lparr>cb_consecutiveFailures := 0, cb_state := CircuitClosed\<rparr>"

definition recordFailure :: "gotime \<Rightarrow> CircuitBreaker \<Rightarrow> CircuitBreaker" where
  "recordFailure now cb =
     (let cb1 = cb\<lparr>cb_consecutiveFailures := wrap64 (cb_consecutiveFailures cb + 1)\<rparr> in
      if cb_state cb1 = CircuitHalfOpen
      then cb1\<lparr>cb_state := CircuitOpen, cb_openedAt := now\<rparr>
      else if cbc_ConsecutiveFailures (cb_cfg cb1) \<le> cb_consecutiveFailures cb1 \<and>
              cb_state cb1 = CircuitClosed
        then cb1\<lparr>cb_state := CircuitOpen, cb_openedAt := now\<rparr>
      else cb1)"

text \<open>The readings of one call: at the state check, at the record, and those of the two analyzers.\<close>

definition CircuitBreaker_Analyze ::
    "('p, 'rp) analyze \<Rightarrow> ('f, 'rf) analyze \<Rightarrow>
     (CircuitBreaker \<times> 'p \<times> 'f, gotime \<times> gotime \<times> 'rp \<times> 'rf) analyze" where
  "CircuitBreaker_Analyze primary fallback st rd bundle =
     (case (st, rd) of ((cb, p, f), (t1, t2, rp, rf)) \<Rightarrow>
        case currentStateLocked t1 cb of
          (cb1, CircuitOpen) \<Rightarrow>
            (case fallback f rf bundle of (f', res) \<Rightarrow> ((cb1, p, f'), res))
        | (cb1, CircuitHalfOpen) \<Rightarrow>
            (case primary p rp bundle of
               (p', Inl err) \<Rightarrow>
                 (case fallback f rf bundle of (f', res) \<Rightarrow> ((recordFailure t2 cb1, p', f'), res))
             | (p', Inr report) \<Rightarrow> ((recordSuccess cb1, p', f), Inr report))
        | (cb1, CircuitClosed) \<Rightarrow>
            (case primary p rp bundle of
               (p', Inl err) \<Rightarrow> ((recordFailure t2 cb1, p', f), Inl err)
             | (p', Inr report) \<Rightarrow> ((recordSuccess cb1, p', f), Inr report)))"

definition CircuitBreaker_Healthy :: "gotime \<Rightarrow> CircuitBreaker \<Rightarrow> bool \<Rightarrow> CircuitBreaker \<times> bool" where
  "CircuitBreaker_Healthy now cb primary_healthy =
     (case currentStateLocked now cb of (cb', s) \<Rightarrow>
        (cb', if s = CircuitOpen then False else primary_healthy))"

definition CircuitBreaker_State :: "gotime \<Rightarrow> CircuitBreaker \<Rightarrow> CircuitBreaker \<times> CircuitState" where
  "CircuitBreaker_State now cb = currentStateLocked now cb"

lemma circuit_breaker_analyzer:
  assumes "analyzer primary" "analyzer fallback"
  shows "analyzer (CircuitBreaker_Analyze primary fallback)"
proof
  fix st rd b report
  have P: "primary s r b = (s', Inr rep) \<Longrightarrow> rca_FaultEventID rep = bundle_id b \<and> rca_DiagnosticBundle rep = b"
    for s r s' rep using analyzer.about_bundle [OF assms(1), of s r b rep] by simp
  have F: "fallback s r b = (s', Inr rep) \<Longrightarrow> rca_FaultEventID rep = bundle_id b \<and> rca_DiagnosticBundle rep = b"
    for s r s' rep using analyzer.about_bundle [OF assms(2), of s r b rep] by simp
  show "snd (CircuitBreaker_Analyze primary fallback st rd b) = Inr report \<Longrightarrow>
    rca_FaultEventID report = bundle_id b \<and> rca_DiagnosticBundle report = b"
    unfolding CircuitBreaker_Analyze_def
    by (simp split: prod.splits sum.splits CircuitState.splits) (use P F in blast)+
qed

section \<open>The breaker with concurrent requests\<close>

text \<open>
  A request reads the state under the lock, calls the primary outside it and records the outcome
  under the lock again; in between, other requests may begin and finish. \<open>br_closed\<close> and
  \<open>br_probes\<close> count the requests whose primary call is under way and that saw the circuit closed or
  half-open. \<open>br_failures\<close> is a ghost: the failures recorded since the last recorded success.
\<close>

record breaker_run =
  br_cb :: CircuitBreaker
  br_closed :: nat
  br_probes :: nat
  br_failures :: nat

datatype breaker_event = Br_Begin gotime | Br_Success bool | Br_Failure bool gotime | Br_Query gotime

inductive breaker_step :: "breaker_run \<Rightarrow> breaker_event \<Rightarrow> breaker_run \<Rightarrow> bool" where
  begin_primary: "currentStateLocked now (br_cb s) = (cb, CircuitClosed) \<Longrightarrow>
    breaker_step s (Br_Begin now) (s\<lparr>br_cb := cb, br_closed := br_closed s + 1\<rparr>)"
| begin_probe: "currentStateLocked now (br_cb s) = (cb, CircuitHalfOpen) \<Longrightarrow>
    breaker_step s (Br_Begin now) (s\<lparr>br_cb := cb, br_probes := br_probes s + 1\<rparr>)"
| begin_fallback: "currentStateLocked now (br_cb s) = (cb, CircuitOpen) \<Longrightarrow>
    breaker_step s (Br_Begin now) (s\<lparr>br_cb := cb\<rparr>)"
| success: "0 < br_closed s \<Longrightarrow>
    breaker_step s (Br_Success False) (s\<lparr>br_cb := recordSuccess (br_cb s), br_closed := br_closed s - 1, br_failures := 0\<rparr>)"
| probe_success: "0 < br_probes s \<Longrightarrow>
    breaker_step s (Br_Success True) (s\<lparr>br_cb := recordSuccess (br_cb s), br_probes := br_probes s - 1, br_failures := 0\<rparr>)"
| failure: "0 < br_closed s \<Longrightarrow>
    breaker_step s (Br_Failure False now) (s\<lparr>br_cb := recordFailure now (br_cb s), br_closed := br_closed s - 1,
      br_failures := br_failures s + 1\<rparr>)"
| probe_failure: "0 < br_probes s \<Longrightarrow>
    breaker_step s (Br_Failure True now) (s\<lparr>br_cb := recordFailure now (br_cb s), br_probes := br_probes s - 1,
      br_failures := br_failures s + 1\<rparr>)"
| query: "breaker_step s (Br_Query now) (s\<lparr>br_cb := fst (CircuitBreaker_State now (br_cb s))\<rparr>)"

inductive_cases breaker_beginE: "breaker_step s (Br_Begin now) s'"

inductive breaker_reaches :: "CircuitBreaker \<Rightarrow> breaker_run \<Rightarrow> bool" for cb where
  start: "breaker_reaches cb \<lparr>br_cb = cb, br_closed = 0, br_probes = 0, br_failures = 0\<rparr>"
| step: "breaker_reaches cb s \<Longrightarrow> breaker_step s ev s' \<Longrightarrow> br_failures s' < 9223372036854775807 \<Longrightarrow>
    breaker_reaches cb s'"

definition breaker_inv :: "breaker_run \<Rightarrow> bool" where
  "breaker_inv s \<longleftrightarrow> cb_consecutiveFailures (br_cb s) = int (br_failures s) \<and>
     br_failures s < 9223372036854775807 \<and>
     (cb_state (br_cb s) = CircuitClosed \<longleftrightarrow>
        cb_consecutiveFailures (br_cb s) < cbc_ConsecutiveFailures (cb_cfg (br_cb s))) \<and>
     1 \<le> cbc_ConsecutiveFailures (cb_cfg (br_cb s)) \<and> 0 < cbc_OpenDuration (cb_cfg (br_cb s))"

lemma currentStateLocked_frame:
  "currentStateLocked now cb = (cb', st) \<Longrightarrow>
   cb_cfg cb' = cb_cfg cb \<and> cb_consecutiveFailures cb' = cb_consecutiveFailures cb \<and>
   (cb_state cb' = CircuitClosed \<longleftrightarrow> cb_state cb = CircuitClosed) \<and> st = cb_state cb' \<and>
   cb_openedAt cb' = cb_openedAt cb"
  by (auto simp: currentStateLocked_def Let_def split: if_splits)

lemma recordFailure_inv:
  assumes "cb_consecutiveFailures cb = int n" "n + 1 < 9223372036854775807"
    and "cb_state cb = CircuitClosed \<longleftrightarrow> cb_consecutiveFailures cb < cbc_ConsecutiveFailures (cb_cfg cb)"
  shows "cb_consecutiveFailures (recordFailure now cb) = int (n + 1)"
    "cb_cfg (recordFailure now cb) = cb_cfg cb"
    "cb_state (recordFailure now cb) = CircuitClosed \<longleftrightarrow>
       cb_consecutiveFailures (recordFailure now cb) < cbc_ConsecutiveFailures (cb_cfg cb)"
proof -
  have w: "wrap64 (int n + 1) = int n + 1"
    using assms(2) by (intro wrap64_id) (simp add: int64_defs)
  show "cb_consecutiveFailures (recordFailure now cb) = int (n + 1)"
    "cb_cfg (recordFailure now cb) = cb_cfg cb"
    "cb_state (recordFailure now cb) = CircuitClosed \<longleftrightarrow>
       cb_consecutiveFailures (recordFailure now cb) < cbc_ConsecutiveFailures (cb_cfg cb)"
    using assms by (auto simp: recordFailure_def Let_def w)
qed

lemma breaker_inv_step:
  assumes "breaker_step s ev s'" "breaker_inv s" "br_failures s' < 9223372036854775807"
  shows "breaker_inv s'"
  using assms
proof (induction rule: breaker_step.induct)
  case (failure s now)
  then show ?case using recordFailure_inv [of "br_cb s" "br_failures s" now] by (simp add: breaker_inv_def)
next
  case (probe_failure s now)
  then show ?case using recordFailure_inv [of "br_cb s" "br_failures s" now] by (simp add: breaker_inv_def)
next
  case (query s now)
  then show ?case
    using currentStateLocked_frame [of now "br_cb s" "fst (currentStateLocked now (br_cb s))"]
    by (auto simp: breaker_inv_def CircuitBreaker_State_def currentStateLocked_def Let_def split: if_splits)
qed (auto simp: breaker_inv_def recordSuccess_def dest: currentStateLocked_frame)

lemma breaker_reaches_inv:
  assumes "NewCircuitBreaker True True cfg True = Inr cb" "breaker_reaches cb s"
  shows "breaker_inv s \<and> cb_cfg (br_cb s) = cfg"
  using assms(2)
proof (induction rule: breaker_reaches.induct)
  case start
  then show ?case
    using assms(1) by (auto simp: NewCircuitBreaker_def breaker_inv_def split: if_splits)
next
  case (step s ev s')
  have "cb_cfg (br_cb s') = cb_cfg (br_cb s)"
    using step.hyps(2)
    by (induction rule: breaker_step.induct)
      (auto dest: currentStateLocked_frame simp: recordSuccess_def recordFailure_def Let_def
        CircuitBreaker_State_def currentStateLocked_def split: if_splits)
  then show ?case using step breaker_inv_step by blast
qed

text \<open>
  C36. The circuit is closed exactly while fewer than the configured number of failures have been
  recorded since the last recorded success, in every state any interleaving of concurrent requests
  reaches (below \<open>2^63 - 1\<close> failures in a row).
\<close>

theorem circuit_closed_iff_few_failures:
  assumes "NewCircuitBreaker True True cfg True = Inr cb" "breaker_reaches cb s"
  shows "cb_state (br_cb s) = CircuitClosed \<longleftrightarrow> int (br_failures s) < cbc_ConsecutiveFailures cfg"
  using breaker_reaches_inv [OF assms] by (auto simp: breaker_inv_def)

text \<open>
  An open circuit shields the primary: until the open duration has elapsed a request changes
  nothing in the breaker or the primary and gets exactly what the fallback analyzer answers;
  afterwards it probes the primary, whose success closes the circuit with the failure count reset
  and whose failure opens it for another full duration and still answers with the fallback.
\<close>

theorem circuit_open_uses_fallback:
  assumes "cb_state cb = CircuitOpen"
  shows "CircuitBreaker_Analyze primary fallback (cb, p, f) (t1, t2, rp, rf) bundle =
    (if time_Sub t1 (cb_openedAt cb) < cbc_OpenDuration (cb_cfg cb)
     then ((cb, p, fst (fallback f rf bundle)), snd (fallback f rf bundle))
     else case primary p rp bundle of
       (p', Inr report) \<Rightarrow>
         ((cb\<lparr>cb_state := CircuitClosed, cb_consecutiveFailures := 0\<rparr>, p', f), Inr report)
     | (p', Inl err) \<Rightarrow>
         ((cb\<lparr>cb_openedAt := t2, cb_consecutiveFailures := wrap64 (cb_consecutiveFailures cb + 1)\<rparr>, p',
           fst (fallback f rf bundle)), snd (fallback f rf bundle)))"
  using assms
  by (auto simp: CircuitBreaker_Analyze_def currentStateLocked_def recordSuccess_def recordFailure_def
      Let_def split_beta split: sum.split)

definition ex_breaker :: CircuitBreaker where
  "ex_breaker = \<lparr>cb_cfg = \<lparr>cbc_ConsecutiveFailures = 1, cbc_OpenDuration = minute\<rparr>,
     cb_state = CircuitClosed, cb_consecutiveFailures = 0, cb_openedAt = 0\<rparr>"

definition ex_run :: "CircuitBreaker \<Rightarrow> nat \<Rightarrow> nat \<Rightarrow> nat \<Rightarrow> breaker_run" where
  "ex_run cb c p n = \<lparr>br_cb = cb, br_closed = c, br_probes = p, br_failures = n\<rparr>"

definition ex_opened :: CircuitBreaker where
  "ex_opened = ex_breaker\<lparr>cb_consecutiveFailures := 1, cb_state := CircuitOpen, cb_openedAt := 5\<rparr>"

lemma ex_opened_reached: "breaker_reaches ex_breaker (ex_run ex_opened 1 0 1)"
proof -
  have 0: "breaker_reaches ex_breaker (ex_run ex_breaker 0 0 0)"
    unfolding ex_run_def by (rule breaker_reaches.start)
  have "currentStateLocked 0 ex_breaker = (ex_breaker, CircuitClosed)" by code_simp
  then have 1: "breaker_step (ex_run ex_breaker n 0 0) (Br_Begin 0) (ex_run ex_breaker (Suc n) 0 0)" for n
    using begin_primary [of 0 "ex_run ex_breaker n 0 0" ex_breaker] by (simp add: ex_run_def)
  have "recordFailure 5 ex_breaker = ex_opened" by code_simp
  then have 2: "breaker_step (ex_run ex_breaker 2 0 0) (Br_Failure False 5) (ex_run ex_opened 1 0 1)"
    using failure [of "ex_run ex_breaker 2 0 0" 5] by (simp add: ex_run_def)
  have "breaker_reaches ex_breaker (ex_run ex_breaker 2 0 0)"
    using breaker_reaches.step [OF breaker_reaches.step [OF 0 1] 1] by (simp add: ex_run_def numeral_2_eq_2)
  from breaker_reaches.step [OF this 2] show ?thesis by (simp add: ex_run_def)
qed

text \<open>
  The documented transition graph is not the whole story: a request that began while the
  circuit was closed and succeeds late closes an open circuit at once, without the half-open probe,
  and a half-open circuit lets any number of concurrent requests through to the primary.
\<close>

theorem breaker_undocumented_transitions:
  "(\<exists>s s'. breaker_reaches ex_breaker s \<and> cb_state (br_cb s) = CircuitOpen \<and>
      breaker_step s (Br_Success False) s' \<and> cb_state (br_cb s') = CircuitClosed) \<and>
   (\<exists>s. breaker_reaches ex_breaker s \<and> cb_state (br_cb s) = CircuitHalfOpen \<and> br_probes s = 2)"
proof -
  have "breaker_step (ex_run ex_opened 1 0 1) (Br_Success False) (ex_run (recordSuccess ex_opened) 0 0 0)"
    using success [of "ex_run ex_opened 1 0 1"] by (simp add: ex_run_def)
  moreover have "cb_state ex_opened = CircuitOpen" "cb_state (recordSuccess ex_opened) = CircuitClosed"
    by code_simp+
  ultimately have first: "\<exists>s s'. breaker_reaches ex_breaker s \<and> cb_state (br_cb s) = CircuitOpen \<and>
      breaker_step s (Br_Success False) s' \<and> cb_state (br_cb s') = CircuitClosed"
    using ex_opened_reached by (intro exI conjI) (auto simp: ex_run_def)
  let ?half = "ex_opened\<lparr>cb_state := CircuitHalfOpen\<rparr>"
  have c: "currentStateLocked hour ex_opened = (?half, CircuitHalfOpen)"
    "currentStateLocked hour ?half = (?half, CircuitHalfOpen)" by code_simp+
  have 1: "breaker_step (ex_run ex_opened 1 0 1) (Br_Begin hour) (ex_run ?half 1 1 1)"
    using begin_probe [of hour "ex_run ex_opened 1 0 1"] c(1) by (simp add: ex_run_def)
  have 2: "breaker_step (ex_run ?half 1 1 1) (Br_Begin hour) (ex_run ?half 1 2 1)"
    using begin_probe [of hour "ex_run ?half 1 1 1"] c(2) by (simp add: ex_run_def numeral_2_eq_2)
  have "breaker_reaches ex_breaker (ex_run ?half 1 2 1)"
    using breaker_reaches.step [OF breaker_reaches.step [OF ex_opened_reached 1] 2] by (simp add: ex_run_def)
  then have "\<exists>s. breaker_reaches ex_breaker s \<and> cb_state (br_cb s) = CircuitHalfOpen \<and> br_probes s = 2"
    by (intro exI conjI) (auto simp: ex_run_def)
  with first show ?thesis ..
qed

theorem circuit_closed_iff_few_failures_witness:
  "\<exists>s. breaker_reaches ex_breaker s \<and> br_failures s = 1 \<and> cb_state (br_cb s) \<noteq> CircuitClosed"
proof -
  have new: "NewCircuitBreaker True True \<lparr>cbc_ConsecutiveFailures = 1, cbc_OpenDuration = minute\<rparr> True = Inr ex_breaker"
    by code_simp
  show ?thesis
    using circuit_closed_iff_few_failures [OF new ex_opened_reached] ex_opened_reached
    by (intro exI [of _ "ex_run ex_opened 1 0 1"]) (simp add: ex_run_def)
qed

theorem circuit_open_uses_fallback_witness:
  "snd (CircuitBreaker_Analyze NoopAnalyzer_Analyze NoopAnalyzer_Analyze (ex_opened, (), ())
      (6, 7, (None, 6), (None, 8)) (NewDiagnosticBundle 0 None [])) = Inl NoopEmptyBundle"
proof -
  have op: "cb_state ex_opened = CircuitOpen"
    "time_Sub 6 (cb_openedAt ex_opened) < cbc_OpenDuration (cb_cfg ex_opened)" by code_simp+
  show ?thesis
    unfolding circuit_open_uses_fallback [OF op(1)] using op(2)
    by (simp add: NoopAnalyzer_Analyze_def NewDiagnosticBundle_def)
qed

interpretation breaker_noop: analyzer "CircuitBreaker_Analyze NoopAnalyzer_Analyze NoopAnalyzer_Analyze"
  by (rule circuit_breaker_analyzer) unfold_locales

section \<open>The rate limiter\<close>

text \<open>
  A window is keyed by the formatted UTC day or hour: \<open>Format("2006-01-02")\<close> and
  \<open>Format("2006-01-02T15")\<close> of a time given in nanoseconds since 1970, with the proleptic Gregorian
  calendar of package \<open>time\<close>.
\<close>

definition civil_date :: "int \<Rightarrow> int \<times> int \<times> int" where
  "civil_date days =
     (let z = days + 719468; era = z div 146097; doe = z mod 146097;
          yoe = (doe - doe div 1460 + doe div 36524 - doe div 146096) div 365;
          doy = doe - (365 * yoe + yoe div 4 - yoe div 100);
          mp = (5 * doy + 2) div 153;
          d = doy - (153 * mp + 2) div 5 + 1;
          m = (if mp < 10 then mp + 3 else mp - 9);
          y = yoe + era * 400
      in (if m \<le> 2 then y + 1 else y, m, d))"

definition pad_int :: "nat \<Rightarrow> int \<Rightarrow> string" where
  "pad_int w n = (if n < 0 then ''-'' @ pad_left w (show_nat (nat (- n))) else pad_left w (show_nat (nat n)))"

definition day_key :: "gotime \<Rightarrow> string" where
  "day_key t = (case civil_date (t div (24 * hour)) of (y, m, d) \<Rightarrow>
     pad_int 4 y @ ''-'' @ pad_int 2 m @ ''-'' @ pad_int 2 d)"

definition hour_key :: "gotime \<Rightarrow> string" where
  "hour_key t = day_key t @ ''T'' @ pad_int 2 (t mod (24 * hour) div hour)"

record RateLimiterConfig =
  rlc_DailyTokenBudget :: goint
  rlc_HourlyTokenBudget :: goint

record tokenWindow =
  tw_tokens :: goint
  tw_windowKey :: string

record RateLimiter =
  rl_cfg :: RateLimiterConfig
  rl_daily :: tokenWindow
  rl_hourly :: tokenWindow

definition NewRateLimiter :: "bool \<Rightarrow> bool \<Rightarrow> RateLimiterConfig \<Rightarrow> bool \<Rightarrow> breaker_error + RateLimiter" where
  "NewRateLimiter primary fallback cfg logger =
     (if \<not> primary then Inl PrimaryNil
      else if \<not> fallback then Inl FallbackNil
      else if \<not> logger then Inl LoggerNil
      else Inr \<lparr>rl_cfg = cfg, rl_daily = \<lparr>tw_tokens = 0, tw_windowKey = []\<rparr>,
                rl_hourly = \<lparr>tw_tokens = 0, tw_windowKey = []\<rparr>\<rparr>)"

definition isOverBudget :: "gotime \<Rightarrow> RateLimiter \<Rightarrow> bool" where
  "isOverBudget now rl =
     (if 0 < rlc_DailyTokenBudget (rl_cfg rl) \<and> tw_windowKey (rl_daily rl) = day_key now \<and>
         rlc_DailyTokenBudget (rl_cfg rl) \<le> tw_tokens (rl_daily rl) then True
      else if 0 < rlc_HourlyTokenBudget (rl_cfg rl) \<and> tw_windowKey (rl_hourly rl) = hour_key now \<and>
         rlc_HourlyTokenBudget (rl_cfg rl) \<le> tw_tokens (rl_hourly rl) then True
      else False)"

definition add_tokens :: "string \<Rightarrow> goint \<Rightarrow> tokenWindow \<Rightarrow> tokenWindow" where
  "add_tokens key tokens w =
     (let w' = (if tw_windowKey w \<noteq> key then \<lparr>tw_tokens = 0, tw_windowKey = key\<rparr> else w)
      in w'\<lparr>tw_tokens := wrap64 (tw_tokens w' + tokens)\<rparr>)"

definition recordTokens :: "gotime \<Rightarrow> goint \<Rightarrow> RateLimiter \<Rightarrow> RateLimiter" where
  "recordTokens now tokens rl =
     (if tokens \<le> 0 then rl
      else rl\<lparr>rl_daily := add_tokens (day_key now) tokens (rl_daily rl),
              rl_hourly := add_tokens (hour_key now) tokens (rl_hourly rl)\<rparr>)"

definition RateLimiter_TokenUsage :: "gotime \<Rightarrow> RateLimiter \<Rightarrow> goint \<times> goint" where
  "RateLimiter_TokenUsage now rl =
     (if tw_windowKey (rl_daily rl) = day_key now then tw_tokens (rl_daily rl) else 0,
      if tw_windowKey (rl_hourly rl) = hour_key now then tw_tokens (rl_hourly rl) else 0)"

definition RateLimiter_Analyze ::
    "('p, 'rp) analyze \<Rightarrow> ('f, 'rf) analyze \<Rightarrow>
     (RateLimiter \<times> 'p \<times> 'f, gotime \<times> gotime \<times> 'rp \<times> 'rf) analyze" where
  "RateLimiter_Analyze primary fallback st rd bundle =
     (case (st, rd) of ((rl, p, f), (t1, t2, rp, rf)) \<Rightarrow>
        if isOverBudget t1 rl
        then (case fallback f rf bundle of (f', res) \<Rightarrow> ((rl, p, f'), res))
        else (case primary p rp bundle of
               (p', Inl err) \<Rightarrow> ((rl, p', f), Inl err)
             | (p', Inr report) \<Rightarrow>
                 ((recordTokens t2 (Total (rca_TokensUsed report)) rl, p', f), Inr report)))"

lemma rate_limiter_analyzer:
  assumes "analyzer primary" "analyzer fallback"
  shows "analyzer (RateLimiter_Analyze primary fallback)"
proof
  fix st rd b report
  have P: "primary s r b = (s', Inr rep) \<Longrightarrow> rca_FaultEventID rep = bundle_id b \<and> rca_DiagnosticBundle rep = b"
    for s r s' rep using analyzer.about_bundle [OF assms(1), of s r b rep] by simp
  have F: "fallback s r b = (s', Inr rep) \<Longrightarrow> rca_FaultEventID rep = bundle_id b \<and> rca_DiagnosticBundle rep = b"
    for s r s' rep using analyzer.about_bundle [OF assms(2), of s r b rep] by simp
  show "snd (RateLimiter_Analyze primary fallback st rd b) = Inr report \<Longrightarrow>
    rca_FaultEventID report = bundle_id b \<and> rca_DiagnosticBundle report = b"
    unfolding RateLimiter_Analyze_def
    by (simp split: prod.splits sum.splits if_splits) (use P F in blast)+
qed

interpretation limited_breaker: analyzer
  "RateLimiter_Analyze (CircuitBreaker_Analyze NoopAnalyzer_Analyze NoopAnalyzer_Analyze) NoopAnalyzer_Analyze"
  by (rule rate_limiter_analyzer) unfold_locales

text \<open>
  The accounting of a run: the calls of a limiter in sequence with a log of the tokens recorded for
  the primary's reports.
\<close>

definition limiter_call ::
    "('p, 'rp) analyze \<Rightarrow> ('f, 'rf) analyze \<Rightarrow> (RateLimiter \<times> 'p \<times> 'f) \<times> (gotime \<times> goint) list \<Rightarrow>
     (gotime \<times> gotime \<times> 'rp \<times> 'rf) \<times> DiagnosticBundle \<Rightarrow>
     ((RateLimiter \<times> 'p \<times> 'f) \<times> (gotime \<times> goint) list) \<times> (analyzer_error + RCAReport)" where
  "limiter_call primary fallback s c =
     (case (s, c) of (((rl, p, f), used), ((t1, t2, rp, rf), bundle)) \<Rightarrow>
        let res = RateLimiter_Analyze primary fallback (rl, p, f) (t1, t2, rp, rf) bundle;
            used' = (if isOverBudget t1 rl then used
                     else case snd (primary p rp bundle) of
                       Inl _ \<Rightarrow> used
                     | Inr report \<Rightarrow>
                         if 0 < Total (rca_TokensUsed report)
                         then used @ [(t2, Total (rca_TokensUsed report))] else used)
        in ((fst res, used'), snd res))"

definition spent :: "(gotime \<Rightarrow> string) \<Rightarrow> (gotime \<times> goint) list \<Rightarrow> string \<Rightarrow> goint" where
  "spent key used k = sum_list (map snd (filter (\<lambda>e. key (fst e) = k) used))"

definition window_ok :: "(gotime \<Rightarrow> string) \<Rightarrow> tokenWindow \<Rightarrow> (gotime \<times> goint) list \<Rightarrow> bool" where
  "window_ok key w used \<longleftrightarrow>
     (if used = [] then tw_tokens w = 0
      else tw_windowKey w = key (fst (last used)) \<and> tw_tokens w = spent key used (tw_windowKey w))"

definition log_ok :: "(gotime \<times> goint) list \<Rightarrow> bool" where
  "log_ok used \<longleftrightarrow> sorted (map (day_key \<circ> fst) used) \<and> sorted (map (hour_key \<circ> fst) used) \<and>
     sum_list (map snd used) \<le> max_int64"

lemma spent_other:
  assumes "sorted (map (key \<circ> fst) used)" "used \<noteq> []" "key (fst (last used)) \<le> k" "key (fst (last used)) \<noteq> k"
  shows "spent key used k = 0"
proof -
  have "key (fst e) \<le> key (fst (last used))" if "e \<in> set used" for e
    using assms(1,2) that by (cases used rule: rev_exhaust) (auto simp: sorted_append)
  then have "filter (\<lambda>e. key (fst e) = k) used = []"
    using assms(3,4) by (fastforce simp: filter_empty_conv)
  then show ?thesis by (simp add: spent_def)
qed

lemma spent_bound:
  assumes "\<forall>e \<in> set used. 0 < snd e"
  shows "0 \<le> spent key used k" "spent key used k \<le> sum_list (map snd used)"
  using assms by (induction used) (auto simp: spent_def)

lemma add_tokens_ok:
  assumes "window_ok key w used" "sorted (map (key \<circ> fst) (used @ [(t, n)]))"
    and "\<forall>e \<in> set (used @ [(t, n)]). 0 < snd e" "sum_list (map snd (used @ [(t, n)])) \<le> max_int64"
  shows "window_ok key (add_tokens (key t) n w) (used @ [(t, n)])"
proof -
  have old: "spent key used (key t) = (if used \<noteq> [] \<and> tw_windowKey w = key t then tw_tokens w else 0)"
  proof (cases "used = []")
    case True
    then show ?thesis by (simp add: spent_def)
  next
    case False
    have "key (fst (last used)) \<le> key t"
      using assms(2) False by (cases used rule: rev_exhaust) (auto simp: sorted_append)
    then show ?thesis
      using spent_other [of key used "key t"] assms(1,2) False by (auto simp: window_ok_def sorted_append)
  qed
  have "0 \<le> spent key (used @ [(t, n)]) (key t)" "spent key (used @ [(t, n)]) (key t) \<le> max_int64"
    using spent_bound [OF assms(3), of key "key t"] assms(4) by linarith+
  then have w: "wrap64 (spent key used (key t) + n) = spent key used (key t) + n"
    by (intro wrap64_id) (simp add: int64_defs spent_def)
  have "(if tw_windowKey w = key t then tw_tokens w else 0) = spent key used (key t)"
    using old assms(1) by (cases "used = []") (auto simp: window_ok_def)
  moreover have "tw_tokens (add_tokens (key t) n w) =
      wrap64 ((if tw_windowKey w = key t then tw_tokens w else 0) + n)"
    by (simp add: add_tokens_def Let_def)
  ultimately have "tw_tokens (add_tokens (key t) n w) = spent key used (key t) + n" using w by simp
  then show ?thesis by (simp add: window_ok_def add_tokens_def Let_def spent_def)
qed

definition limiter_inv :: "RateLimiterConfig \<Rightarrow> (RateLimiter \<times> 'p \<times> 'f) \<times> (gotime \<times> goint) list \<Rightarrow> bool" where
  "limiter_inv cfg s \<longleftrightarrow> rl_cfg (fst (fst s)) = cfg \<and> (\<forall>e \<in> set (snd s). 0 < snd e) \<and>
     (log_ok (snd s) \<longrightarrow> window_ok day_key (rl_daily (fst (fst s))) (snd s) \<and>
        window_ok hour_key (rl_hourly (fst (fst s))) (snd s))"

lemma log_ok_prefix: "log_ok (used @ [e]) \<Longrightarrow> 0 < snd e \<Longrightarrow> log_ok used"
  by (auto simp: log_ok_def sorted_append)

lemma limiter_inv_step:
  fixes s :: "(RateLimiter \<times> 'p \<times> 'f) \<times> (gotime \<times> goint) list"
  assumes "limiter_inv cfg s"
  shows "limiter_inv cfg (fst (limiter_call primary fallback s c))"
proof -
  obtain rl p f used where s: "s = ((rl, p, f), used)" by (metis prod_cases3 surj_pair)
  obtain t1 t2 rp rf bdl where c: "c = ((t1, t2, rp, rf), bdl)" by (metis prod_cases4 surj_pair)
  show ?thesis
  proof (cases "isOverBudget t1 rl")
    case True
    then show ?thesis
      using assms by (simp add: limiter_call_def s c RateLimiter_Analyze_def limiter_inv_def split_beta)
  next
    case False
    obtain p' res where pr: "primary p rp bdl = (p', res)" by (cases "primary p rp bdl")
    show ?thesis
    proof (cases res)
      case (Inl err)
      then show ?thesis
        using assms False by (simp add: limiter_call_def s c RateLimiter_Analyze_def limiter_inv_def pr)
    next
      case (Inr report)
      let ?n = "Total (rca_TokensUsed report)"
      have r: "fst (limiter_call primary fallback s c) =
          ((recordTokens t2 ?n rl, p', f), if 0 < ?n then used @ [(t2, ?n)] else used)"
        using False Inr by (simp add: limiter_call_def s c RateLimiter_Analyze_def pr)
      show ?thesis
      proof (cases "0 < ?n")
        case True
        have pos: "\<forall>e \<in> set (used @ [(t2, ?n)]). 0 < snd e" using assms True by (auto simp: limiter_inv_def s)
        have "window_ok day_key (add_tokens (day_key t2) ?n (rl_daily rl)) (used @ [(t2, ?n)]) \<and>
            window_ok hour_key (add_tokens (hour_key t2) ?n (rl_hourly rl)) (used @ [(t2, ?n)])"
          if l: "log_ok (used @ [(t2, ?n)])"
          using assms log_ok_prefix [OF l] l True pos add_tokens_ok [of day_key "rl_daily rl" used t2 ?n]
            add_tokens_ok [of hour_key "rl_hourly rl" used t2 ?n]
          by (simp add: limiter_inv_def s log_ok_def)
        then show ?thesis
          using assms True pos unfolding r by (simp add: limiter_inv_def s recordTokens_def)
      next
        case neg: False
        then show ?thesis using assms unfolding r by (simp add: limiter_inv_def s recordTokens_def)
      qed
    qed
  qed
qed


definition ex_backend :: "(unit, unit) analyze" where
  "ex_backend s rd b = (s, Inr \<lparr>rca_FaultEventID = bundle_id b, rca_Timestamp = 0, rca_RootCause = ''x'',
     rca_Severity = SeverityInfo, rca_Category = ''unknown'', rca_Systemic = False, rca_BlastRadius = [],
     rca_Remediation = [], rca_RelatedResources = [], rca_Confidence = 0, rca_RawAnalysis = [],
     rca_DiagnosticBundle = b, rca_AnalyzerBackend = ''stub'',
     rca_TokensUsed = \<lparr>tok_Input = 50, tok_Output = 10\<rparr>\<rparr>)"

definition ex_limiter_calls :: "((gotime \<times> gotime \<times> unit \<times> string option \<times> gotime) \<times> DiagnosticBundle) list" where
  "ex_limiter_calls = map (\<lambda>t. ((t, t + second, (), None, t), NewDiagnosticBundle 0 None [])) [0, minute]"

definition ex_limiter :: RateLimiter where
  "ex_limiter = \<lparr>rl_cfg = \<lparr>rlc_DailyTokenBudget = 100, rlc_HourlyTokenBudget = 0\<rparr>,
     rl_daily = \<lparr>tw_tokens = 0, tw_windowKey = []\<rparr>, rl_hourly = \<lparr>tw_tokens = 0, tw_windowKey = []\<rparr>\<rparr>"


end
