(* ===== verification/Gatherers.thy ===== *)
theory Gatherers
  imports Model
begin

text \<open>
  Gathering diagnostics (\<open>internal/gatherer/gatherer.go\<close>): trigger matching, the concurrent run of
  all gatherers and the gathering for fault events and super-events. A gatherer is a record of its
  name, its optional trigger (resource kinds and detector names) and its \<open>Gather\<close> method, whose
  result is an error, a section, or nil without an error.

  \<open>RunAll\<close> starts one goroutine per gatherer, and each writes the slot of its own index: the order
  in which they finish is the argument \<open>sched\<close>, which gives for a number of goroutines the list of
  their indices in completion order. Dereferencing a nil section panics (\<open>None\<close>).
\<close>

section \<open>Gatherers and triggers\<close>

record Gatherer =
  g_Name :: string
  g_Trigger :: "(string list \<times> string list) option"
  g_Gather :: "ResourceRef \<Rightarrow> string + DiagnosticSection option"

definition MatchesTrigger :: "Gatherer \<Rightarrow> string \<Rightarrow> string \<Rightarrow> bool" where
  "MatchesTrigger g resourceKind detectorName =
     (case g_Trigger g of
        None \<Rightarrow> True
      | Some (kinds, detectors) \<Rightarrow>
          if length kinds > 0 \<and> \<not> list_ex (\<lambda>k. k = resourceKind) kinds then False
          else if length detectors > 0 \<and> \<not> list_ex (\<lambda>d. d = detectorName) detectors then False
          else True)"

fun FilterByTrigger :: "Gatherer list \<Rightarrow> string \<Rightarrow> string \<Rightarrow> Gatherer list" where
  "FilterByTrigger [] resourceKind detectorName = []"
| "FilterByTrigger (g # gs) resourceKind detectorName =
     (if MatchesTrigger g resourceKind detectorName
      then g # FilterByTrigger gs resourceKind detectorName
      else FilterByTrigger gs resourceKind detectorName)"

section \<open>Running the gatherers\<close>

definition empty_section :: DiagnosticSection where
  "empty_section = \<lparr>sec_GathererName = [], sec_Title = [], sec_Content = [], sec_Format = [], sec_Error = []\<rparr>"

definition gather_section :: "ResourceRef \<Rightarrow> Gatherer \<Rightarrow> DiagnosticSection option" where
  "gather_section ref g =
     (case g_Gather g ref of
        Inl err \<Rightarrow> Some (empty_section\<lparr>sec_GathererName := g_Name g, sec_Title := g_Name g, sec_Error := err\<rparr>)
      | Inr section \<Rightarrow> section)"

fun run_goroutines :: "Gatherer list \<Rightarrow> ResourceRef \<Rightarrow> nat list \<Rightarrow> DiagnosticSection list \<Rightarrow>
    DiagnosticSection list option" where
  "run_goroutines gs ref [] sections = Some sections"
| "run_goroutines gs ref (i # order) sections =
     (case gather_section ref (gs ! i) of
        None \<Rightarrow> None
      | Some section \<Rightarrow> run_goroutines gs ref order (sections[i := section]))"

definition RunAll :: "(nat \<Rightarrow> nat list) \<Rightarrow> Gatherer list \<Rightarrow> ResourceRef \<Rightarrow> DiagnosticSection list option" where
  "RunAll sched gs ref =
     (if length gs = 0 then Some []
      else run_goroutines gs ref (sched (length gs)) (replicate (length gs) empty_section))"

definition GatherForFaultEvent :: "(nat \<Rightarrow> nat list) \<Rightarrow> Gatherer list \<Rightarrow> FaultEvent option \<Rightarrow> DiagnosticSection list option" where
  "GatherForFaultEvent sched gs event =
     (case event of
        None \<Rightarrow> Some []
      | Some fe \<Rightarrow> RunAll sched (FilterByTrigger gs (ref_Kind (fe_Resource fe)) (fe_DetectorName fe)) (fe_Resource fe))"

definition resource_key :: "ResourceRef \<Rightarrow> string" where
  "resource_key r =
     (if ref_UID r = [] then ref_Kind r @ ''/'' @ ref_Namespace r @ ''/'' @ ref_Name r else ref_UID r)"

text \<open>
  The loop over the affected resources; \<open>scheds\<close> gives the completion order of each \<open>RunAll\<close> by the
  number of resources sampled so far.
\<close>

fun sample_affected :: "(nat \<Rightarrow> nat \<Rightarrow> nat list) \<Rightarrow> Gatherer list \<Rightarrow> int \<Rightarrow> FaultEvent list \<Rightarrow> string list \<Rightarrow> int \<Rightarrow>
    DiagnosticSection list \<Rightarrow> DiagnosticSection list option" where
  "sample_affected scheds gs maxAffected [] seen sampled sections = Some sections"
| "sample_affected scheds gs maxAffected (fe # fes) seen sampled sections =
     (if sampled \<ge> maxAffected then Some sections
      else let key = resource_key (fe_Resource fe) in
        if List.member seen key then sample_affected scheds gs maxAffected fes seen sampled sections
        else case RunAll (scheds (nat (sampled + 1)))
                    (FilterByTrigger gs (ref_Kind (fe_Resource fe)) (fe_DetectorName fe)) (fe_Resource fe) of
            None \<Rightarrow> None
          | Some affectedSections \<Rightarrow>
              sample_affected scheds gs maxAffected fes (key # seen) (sampled + 1) (sections @ affectedSections))"

definition GatherForSuperEvent :: "(nat \<Rightarrow> nat \<Rightarrow> nat list) \<Rightarrow> Gatherer list \<Rightarrow> SuperEvent option \<Rightarrow> int \<Rightarrow>
    DiagnosticSection list option" where
  "GatherForSuperEvent scheds gs event maxAffectedResources =
     (case event of
        None \<Rightarrow> Some []
      | Some se \<Rightarrow>
          (let maxAffected = (if maxAffectedResources < 0 then 0 else maxAffectedResources);
               detectorName = (case se_FaultEvents se of [] \<Rightarrow> [] | fe # _ \<Rightarrow> fe_DetectorName fe);
               matched = FilterByTrigger gs (ref_Kind (se_PrimaryResource se)) detectorName
           in case RunAll (scheds 0) matched (se_PrimaryResource se) of
                None \<Rightarrow> None
              | Some sections \<Rightarrow>
                  sample_affected scheds gs maxAffected (se_FaultEvents se)
                    [resource_key (se_PrimaryResource se)] 0 sections))"

section \<open>Facts\<close>

lemma FilterByTrigger_eq: "FilterByTrigger gs kind det = filter (\<lambda>g. MatchesTrigger g kind det) gs"
  by (induction gs) auto

lemma run_goroutines_writes:
  assumes "list_all (\<lambda>g. gather_section ref g \<noteq> None) gs" "list_all (\<lambda>i. i < length gs) order"
  shows "run_goroutines gs ref order secs =
    Some (foldl (\<lambda>s i. s[i := the (gather_section ref (gs ! i))]) secs order)"
proof -
  have some: "\<exists>y. gather_section ref (gs ! i) = Some y" if "i < length gs" for i
    using assms(1) that by (auto simp: list_all_length)
  show ?thesis
    using assms(2) by (induction order arbitrary: secs) (use some in \<open>fastforce+\<close>)
qed

lemma writes_nth:
  "length (foldl (\<lambda>s i. s[i := f i]) secs order) = length secs"
  "j < length secs \<Longrightarrow> foldl (\<lambda>s i. s[i := f i]) secs order ! j = (if j \<in> set order then f j else secs ! j)"
proof (induction order arbitrary: secs)
  case (Cons i order)
  { case 1 show ?case using Cons(1) by simp }
  { case 2 then show ?case using Cons(2) [of "secs[i := f i]"] by (auto simp: nth_list_update) }
qed simp_all

definition fair_sched :: "(nat \<Rightarrow> nat list) \<Rightarrow> bool" where
  "fair_sched sched \<longleftrightarrow> (\<forall>n. mset (sched n) = mset [0..<n])"

lemma RunAll_map:
  assumes "list_all (\<lambda>g. gather_section ref g \<noteq> None) gs" "fair_sched sched"
  shows "RunAll sched gs ref = Some (map (\<lambda>g. the (gather_section ref g)) gs)"
proof -
  let ?order = "sched (length gs)"
  have "mset ?order = mset [0..<length gs]" using assms(2) by (simp add: fair_sched_def)
  then have set: "set ?order = {0..<length gs}" by (metis mset_eq_setD set_upt)
  then have "run_goroutines gs ref ?order (replicate (length gs) empty_section) =
      Some (foldl (\<lambda>s i. s[i := the (gather_section ref (gs ! i))]) (replicate (length gs) empty_section) ?order)"
    by (intro run_goroutines_writes [OF assms(1)]) (auto simp: list_all_iff)
  also have "foldl (\<lambda>s i. s[i := the (gather_section ref (gs ! i))]) (replicate (length gs) empty_section) ?order =
      map (\<lambda>g. the (gather_section ref g)) gs"
    by (rule nth_equalityI) (use set in \<open>auto simp: writes_nth\<close>)
  finally show ?thesis by (simp add: RunAll_def)
qed

text \<open>The resources the super-event loop samples, in order.\<close>

fun sampled_resources :: "int \<Rightarrow> FaultEvent list \<Rightarrow> string list \<Rightarrow> FaultEvent list" where
  "sampled_resources n [] seen = []"
| "sampled_resources n (fe # fes) seen =
     (if n \<le> 0 then []
      else if resource_key (fe_Resource fe) \<in> set seen then sampled_resources n fes seen
      else fe # sampled_resources (n - 1) fes (resource_key (fe_Resource fe) # seen))"

lemma sampled_resources_length: "int (length (sampled_resources n fes seen)) \<le> max 0 n"
  by (induction n fes seen rule: sampled_resources.induct) (auto simp: max_def split: if_splits)

lemma sampled_resources_new:
  "fe \<in> set (sampled_resources n fes seen) \<Longrightarrow> resource_key (fe_Resource fe) \<notin> set seen \<and> fe \<in> set fes"
  by (induction n fes seen rule: sampled_resources.induct) (auto split: if_splits)

lemma sampled_resources_distinct:
  "distinct (map (\<lambda>fe. resource_key (fe_Resource fe)) (sampled_resources n fes seen))"
  by (induction n fes seen rule: sampled_resources.induct) (auto dest: sampled_resources_new)

definition sections_for :: "Gatherer list \<Rightarrow> FaultEvent \<Rightarrow> DiagnosticSection list" where
  "sections_for gs fe = map (\<lambda>g. the (gather_section (fe_Resource fe) g))
     (filter (\<lambda>g. MatchesTrigger g (ref_Kind (fe_Resource fe)) (fe_DetectorName fe)) gs)"

lemma sample_affected_eq:
  assumes "\<forall>ref. list_all (\<lambda>g. gather_section ref g \<noteq> None) gs" "\<forall>k. fair_sched (scheds k)"
  shows "sample_affected scheds gs n fes seen sampled secs =
    Some (secs @ concat (map (sections_for gs) (sampled_resources (n - sampled) fes seen)))"
proof (induction fes arbitrary: seen sampled secs)
  case (Cons fe fes)
  let ?gs = "FilterByTrigger gs (ref_Kind (fe_Resource fe)) (fe_DetectorName fe)"
  have "RunAll sched ?gs (fe_Resource fe) = Some (sections_for gs fe)" if "fair_sched sched" for sched
    using RunAll_map [OF _ that, of "fe_Resource fe" ?gs] assms(1)
    by (simp add: FilterByTrigger_eq sections_for_def list_all_iff)
  then have run: "RunAll (scheds k) ?gs (fe_Resource fe) = Some (sections_for gs fe)" for k using assms(2) by blast
  have "n - (sampled + 1) = n - sampled - 1" by simp
  then show ?case by (simp add: Cons.IH Let_def run diff_diff_eq)
qed simp

lemma gather_section_some: "gather_section ref g \<noteq> None \<longleftrightarrow> g_Gather g ref \<noteq> Inr None"
  by (cases "g_Gather g ref") (simp_all add: gather_section_def)

definition primary_sections :: "Gatherer list \<Rightarrow> SuperEvent \<Rightarrow> DiagnosticSection list" where
  "primary_sections gs se = map (\<lambda>g. the (gather_section (se_PrimaryResource se) g))
     (filter (\<lambda>g. MatchesTrigger g (ref_Kind (se_PrimaryResource se))
        (case se_FaultEvents se of [] \<Rightarrow> [] | fe # _ \<Rightarrow> fe_DetectorName fe)) gs)"

section \<open>Properties\<close>


text \<open>
  Gathering for a super-event: the sections of the primary resource come first, then those of
  at most \<open>maxAffectedResources\<close> affected resources, each sampled once and none of them the primary
  one, each with exactly the gatherers whose trigger matches its kind and its detector.
\<close>

theorem super_event_sampling:
  assumes "\<forall>k. fair_sched (scheds k)" "\<forall>ref. list_all (\<lambda>g. g_Gather g ref \<noteq> Inr None) gs"
  shows "\<exists>sampled. GatherForSuperEvent scheds gs (Some se) n =
      Some (primary_sections gs se @ concat (map (sections_for gs) sampled)) \<and>
    int (length sampled) \<le> max 0 n \<and> set sampled \<subseteq> set (se_FaultEvents se) \<and>
    distinct (resource_key (se_PrimaryResource se) # map (\<lambda>fe. resource_key (fe_Resource fe)) sampled)"
proof -
  have ok: "\<forall>ref. list_all (\<lambda>g. gather_section ref g \<noteq> None) gs"
    using assms(2) unfolding gather_section_some .
  let ?m = "if n < 0 then 0 else n" and ?seen = "[resource_key (se_PrimaryResource se)]"
  let ?gs = "FilterByTrigger gs (ref_Kind (se_PrimaryResource se))
     (case se_FaultEvents se of [] \<Rightarrow> [] | fe # _ \<Rightarrow> fe_DetectorName fe)"
  let ?sampled = "sampled_resources (?m - 0) (se_FaultEvents se) ?seen"
  have run: "RunAll (scheds 0) ?gs (se_PrimaryResource se) =
      Some (map (\<lambda>g. the (gather_section (se_PrimaryResource se) g)) ?gs)"
    by (rule RunAll_map) (use ok assms(1) in \<open>auto simp: FilterByTrigger_eq list_all_iff\<close>)
  have eq: "GatherForSuperEvent scheds gs (Some se) n =
      Some (primary_sections gs se @ concat (map (sections_for gs) ?sampled))"
    by (simp only: primary_sections_def FilterByTrigger_eq [symmetric] GatherForSuperEvent_def
        Let_def option.case run sample_affected_eq [OF ok assms(1)])
  have "int (length ?sampled) \<le> max 0 n"
    using sampled_resources_length [of ?m "se_FaultEvents se" ?seen] by (cases "n < 0") auto
  moreover have "set ?sampled \<subseteq> set (se_FaultEvents se)" using sampled_resources_new by blast
  moreover have "distinct (resource_key (se_PrimaryResource se) # map (\<lambda>fe. resource_key (fe_Resource fe)) ?sampled)"
    using sampled_resources_distinct sampled_resources_new by fastforce
  ultimately show ?thesis using eq by blast
qed

definition ex_gatherer :: "string \<Rightarrow> bool \<Rightarrow> Gatherer" where
  "ex_gatherer name fails = \<lparr>g_Name = name, g_Trigger = Some ([''Pod''], []),
     g_Gather = (\<lambda>ref. if fails then Inl ''timeout''
        else Inr (Some (empty_section\<lparr>sec_GathererName := name, sec_Content := ref_Name ref\<rparr>)))\<rparr>"

lemma ex_sched_fair: "fair_sched (\<lambda>n. rev [0..<n])"
  by (simp add: fair_sched_def)


theorem super_event_sampling_witness:
  "\<exists>sampled. GatherForSuperEvent (\<lambda>k n. rev [0..<n]) [ex_gatherer ''PodLogs'' False]
       (Some \<lparr>se_ID = ''1'', se_CorrelationRule = ''NodeCascade'',
          se_PrimaryResource = \<lparr>ref_Kind = ''Node'', ref_Namespace = [], ref_Name = ''n'', ref_UID = []\<rparr>,
          se_FaultEvents = [], se_Timestamp = 0, se_Severity = SeverityInfo\<rparr>) 3 =
     Some ([] @ concat (map (sections_for [ex_gatherer ''PodLogs'' False]) sampled)) \<and> length sampled \<le> 3"
  using super_event_sampling [of "\<lambda>k n. rev [0..<n]" "[ex_gatherer ''PodLogs'' False]"
      "\<lparr>se_ID = ''1'', se_CorrelationRule = ''NodeCascade'',
          se_PrimaryResource = \<lparr>ref_Kind = ''Node'', ref_Namespace = [], ref_Name = ''n'', ref_UID = []\<rparr>,
          se_FaultEvents = [], se_Timestamp = 0, se_Severity = SeverityInfo\<rparr>" 3] ex_sched_fair
  by (fastforce simp: ex_gatherer_def primary_sections_def MatchesTrigger_def)

end
