(* ===== verification/Shard_Hash.thy ===== *)
theory Shard_Hash
  imports Go_Prelude
begin

text \<open>
  Namespace hashing (\<open>internal/shard/hasher.go\<close>): FNV-1a on 64-bit words, the jump consistent
  hash with its float64 arithmetic written out, and the assignment of namespaces to replicas. The
  loop of \<open>JumpHash\<close> is a partial function (\<open>None\<close> would be a run that never ends; it is proved
  not to occur); its panic is the error \<open>PanicNumBuckets\<close>. Go's \<open>int64(x)\<close> of a float is the
  truncation; \<open>jump_fits_int64\<close> shows that every converted value is in range, so that the
  conversion is defined.

  The locale \<open>consistent_hash\<close> is what sharding relies on: buckets are in range, and adding a
  bucket only moves keys into the new one. It is interpreted on the jump hash of namespace names.
\<close>

unbundle bit_operations_syntax

datatype shard_error =
    PanicNumBuckets
  | PanicIndexOutOfRange
  | ListNamespaces string
  | NoPeerSelector
  | ListPods string
  | MarshalError string
  | GetConfigMap string
  | CreateConfigMap string
  | UpdateConfigMap string
  | MissingKey
  | UnmarshalError

section \<open>The hash\<close>

definition jump_key :: "64 word \<Rightarrow> 64 word" where
  "jump_key key = key * 2862933555777941757 + 1"

definition jump_next :: "int \<Rightarrow> 64 word \<Rightarrow> float64" where
  "jump_next b key =
     f64 (f64 (of_int (b + 1)) * f64 (f64 (of_int (2 ^ 31)) / f64 (of_int (uint (drop_bit 33 key + 1)))))"

partial_function (option) jump_loop :: "int \<Rightarrow> 64 word \<Rightarrow> int \<Rightarrow> int \<Rightarrow> int option" where
  [code]: "jump_loop numBuckets key b j =
     (if j < numBuckets
      then let b' = j; key' = jump_key key
           in jump_loop numBuckets key' b' \<lfloor>jump_next b' key'\<rfloor>
      else Some b)"

definition JumpHash :: "64 word \<Rightarrow> int \<Rightarrow> (shard_error + int) option" where
  "JumpHash key numBuckets =
     (if numBuckets \<le> 0 then Some (Inl PanicNumBuckets)
      else map_option Inr (jump_loop numBuckets key (- 1) 0))"

definition fnv_step :: "64 word \<Rightarrow> char \<Rightarrow> 64 word" where
  "fnv_step h c = (h XOR of_nat (of_char c)) * 1099511628211"

definition HashNamespace :: "string \<Rightarrow> 64 word" where
  "HashNamespace namespace = foldl fnv_step 14695981039346656037 namespace"

fun assign_loop :: "int \<Rightarrow> string list \<Rightarrow> (int \<times> string list) list \<Rightarrow>
    (shard_error + (int \<times> string list) list) option" where
  "assign_loop numReplicas [] result = Some (Inr result)"
| "assign_loop numReplicas (ns # nss) result =
     (case JumpHash (HashNamespace ns) numReplicas of
        None \<Rightarrow> None
      | Some (Inl e) \<Rightarrow> Some (Inl e)
      | Some (Inr bucket) \<Rightarrow> assign_loop numReplicas nss (map_append bucket ns result))"

definition AssignNamespaces :: "string list \<Rightarrow> int \<Rightarrow> (shard_error + (int \<times> string list) list) option" where
  "AssignNamespaces namespaces numReplicas =
     assign_loop numReplicas namespaces (map (\<lambda>i. (i, [])) [0..numReplicas - 1])"

section \<open>The jump\<close>

lemma shifted_range: "0 \<le> uint (drop_bit 33 key :: 64 word)" "uint (drop_bit 33 key :: 64 word) < 2 ^ 31"
proof -
  have "uint (drop_bit 33 key :: 64 word) = uint key div 2 ^ 33"
    by (simp add: drop_bit_eq_div uint_div)
  moreover have "uint key < 2 ^ 64" using uint_lt2p [of key] by simp
  ultimately show "uint (drop_bit 33 key :: 64 word) < 2 ^ 31" by simp
qed simp

lemma divisor_range:
  "1 \<le> uint (drop_bit 33 key + 1 :: 64 word)" "uint (drop_bit 33 key + 1 :: 64 word) \<le> 2 ^ 31"
proof -
  have "uint (drop_bit 33 key + 1 :: 64 word) = (uint (drop_bit 33 key :: 64 word) + 1) mod 2 ^ 64"
    by (simp add: uint_word_ariths)
  also have "\<dots> = uint (drop_bit 33 key :: 64 word) + 1"
    by (rule mod_pos_pos_trivial) (use shifted_range [of key] in simp_all)
  finally show "1 \<le> uint (drop_bit 33 key + 1 :: 64 word)" "uint (drop_bit 33 key + 1 :: 64 word) \<le> 2 ^ 31"
    using shifted_range [of key] by simp_all
qed

lemma ratio_range:
  "1 \<le> f64 (f64 (of_int (2 ^ 31)) / f64 (of_int (uint (drop_bit 33 key + 1 :: 64 word))))"
  "f64 (f64 (of_int (2 ^ 31)) / f64 (of_int (uint (drop_bit 33 key + 1 :: 64 word)))) \<le> 2 ^ 31"
proof -
  define d where "d = uint (drop_bit 33 key + 1 :: 64 word)"
  have d: "1 \<le> d" "d \<le> 2 ^ 31" using divisor_range [of key] by (simp_all add: d_def)
  have n: "f64 2147483648 = 2147483648" using f64_int [of "2 ^ 31"] by simp
  have dd: "f64 (of_int d) = of_int d" by (rule f64_int) (use d in simp_all)
  have q: "of_int 1 \<le> (of_int (2 ^ 31) / of_int d :: rat)" "(of_int (2 ^ 31) / of_int d :: rat) \<le> of_int (2 ^ 31)"
    using d by (simp_all add: field_simps)
  show "1 \<le> f64 (f64 (of_int (2 ^ 31)) / f64 (of_int (uint (drop_bit 33 key + 1 :: 64 word))))"
    using f64_ge_int [OF _ _ q(1)] by (simp add: d_def [symmetric] n dd)
  have "0 < (of_int (2 ^ 31) / of_int d :: rat)" using d by simp
  then show "f64 (f64 (of_int (2 ^ 31)) / f64 (of_int (uint (drop_bit 33 key + 1 :: 64 word)))) \<le> 2 ^ 31"
    using f64_le_int [OF _ q(2)] by (simp add: d_def [symmetric] n dd)
qed

lemma jump_next_ge:
  assumes "0 \<le> b" "b < 2 ^ 31"
  shows "of_int (b + 1) \<le> jump_next b key"
proof -
  have b: "f64 (of_int (b + 1)) = of_int (b + 1)" by (rule f64_int) (use assms in simp_all)
  have "of_int (b + 1) \<le> (of_int (b + 1) :: rat) * f64 (f64 (of_int (2 ^ 31)) / f64 (of_int (uint (drop_bit 33 key + 1 :: 64 word))))"
    using ratio_range(1) [of key] assms(1) by (simp add: mult_le_cancel_left1)
  then show ?thesis unfolding jump_next_def b using assms by (intro f64_ge_int) simp_all
qed

lemma jump_advances:
  assumes "0 \<le> b" "b < 2 ^ 31"
  shows "b < \<lfloor>jump_next b key\<rfloor>"
  using jump_next_ge [OF assms, of key] by (simp add: less_floor_iff le_floor_iff)

lemma jump_fits_int64:
  assumes "0 \<le> b" "b < 2 ^ 31"
  shows "int64 \<lfloor>jump_next b key\<rfloor>"
proof -
  define r where "r = f64 (f64 (of_int (2 ^ 31)) / f64 (of_int (uint (drop_bit 33 key + 1 :: 64 word))))"
  have r: "1 \<le> r" "r \<le> 2 ^ 31" using ratio_range [of key] by (simp_all add: r_def)
  have b: "f64 (of_int (b + 1)) = of_int (b + 1)" by (rule f64_int) (use assms in simp_all)
  have bb: "0 < (of_int (b + 1) :: rat)" "(of_int (b + 1) :: rat) \<le> 2 ^ 31"
    using assms by (simp, metis of_int_le_iff of_int_numeral of_int_power zless_imp_add1_zle)
  define x where "x = of_int (b + 1) * r"
  have x0: "0 < x" using bb r by (simp add: x_def)
  have "x \<le> 2 ^ 31 * 2 ^ 31" unfolding x_def using bb r by (intro mult_mono) simp_all
  then have "x + x / 2 ^ 52 < 9223372036854775807" by simp
  then have "f64 x < 9223372036854775807" using f64_upper [OF x0] by linarith
  then have "jump_next b key < 9223372036854775807"
    unfolding jump_next_def b r_def [symmetric] x_def .
  then have "\<lfloor>jump_next b key\<rfloor> < 9223372036854775807" by (simp add: floor_less_iff)
  moreover have "b < \<lfloor>jump_next b key\<rfloor>" by (rule jump_advances [OF assms])
  ultimately show ?thesis using assms unfolding int64_def min_int64_def max_int64_def by linarith
qed

section \<open>The loop ends in range, consistently\<close>

lemma jump_loop_total:
  assumes "0 \<le> j" "- 1 \<le> b" "b < n" "n \<le> 2 ^ 31" "j < n \<or> 0 \<le> b"
  shows "\<exists>r. jump_loop n key b j = Some r \<and> 0 \<le> r \<and> r < n"
  using assms
proof (induction "nat (n - j)" arbitrary: key b j rule: less_induct)
  case less
  show ?case
  proof (cases "j < n")
    case True
    let ?key = "jump_key key" and ?j = "\<lfloor>jump_next j (jump_key key)\<rfloor>"
    have adv: "j < ?j" by (rule jump_advances) (use less.prems True in simp_all)
    have "0 \<le> ?j" using adv less.prems by linarith
    then have "\<exists>r. jump_loop n ?key j ?j = Some r \<and> 0 \<le> r \<and> r < n"
      by (intro less.hyps) (use adv less.prems True in linarith)+
    then show ?thesis using True by (simp add: jump_loop.simps [of n key b j] Let_def)
  next
    case False
    then show ?thesis using less.prems by (simp add: jump_loop.simps [of n key b j])
  qed
qed

lemma jump_loop_consistent:
  assumes "0 \<le> j" "- 1 \<le> b" "b < n" "n < 2 ^ 31" "j < n \<or> 0 \<le> b" "jump_loop n key b j = Some r"
  shows "jump_loop (n + 1) key b j = Some r \<or> jump_loop (n + 1) key b j = Some n"
  using assms
proof (induction "nat (n - j)" arbitrary: key b j rule: less_induct)
  case less
  let ?key = "jump_key key" and ?j = "\<lfloor>jump_next j (jump_key key)\<rfloor>"
  show ?case
  proof (cases "j < n")
    case True
    have adv: "j < ?j" by (rule jump_advances) (use less.prems True in simp_all)
    have "jump_loop n ?key j ?j = Some r"
      using less.prems(6) True by (simp add: jump_loop.simps [of n key b j] Let_def)
    moreover have "0 \<le> ?j" using adv less.prems by linarith
    ultimately have "jump_loop (n + 1) ?key j ?j = Some r \<or> jump_loop (n + 1) ?key j ?j = Some n"
      using adv less.prems(1-5) True by (intro less.hyps) (linarith | assumption)+
    then show ?thesis using True by (simp add: jump_loop.simps [of "n + 1" key b j] Let_def)
  next
    case False
    then have r: "r = b" using less.prems(6) by (simp add: jump_loop.simps [of n key b j])
    show ?thesis
    proof (cases "j = n")
      case True
      have "n < ?j" unfolding True by (rule jump_advances) (use less.prems True in simp_all)
      then have "jump_loop (n + 1) ?key j ?j = Some j"
        by (simp add: jump_loop.simps [of "n + 1" ?key j ?j])
      then show ?thesis using True by (simp add: jump_loop.simps [of "n + 1" key b n] Let_def)
    next
      case ne: False
      then show ?thesis using False r by (simp add: jump_loop.simps [of "n + 1" key b j])
    qed
  qed
qed

lemma JumpHash_total:
  assumes "1 \<le> n" "n \<le> 2 ^ 31"
  shows "\<exists>b. JumpHash key n = Some (Inr b) \<and> 0 \<le> b \<and> b < n"
proof -
  obtain r where "jump_loop n key (- 1) 0 = Some r" "0 \<le> r" "r < n"
    using jump_loop_total [of 0 "- 1" n key] assms by auto
  then show ?thesis using assms by (simp add: JumpHash_def)
qed

lemma JumpHash_grow:
  assumes "1 \<le> n" "n < 2 ^ 31" "JumpHash key n = Some (Inr b)"
  shows "JumpHash key (n + 1) = Some (Inr b) \<or> JumpHash key (n + 1) = Some (Inr n)"
proof -
  have "jump_loop n key (- 1) 0 = Some b" using assms by (simp add: JumpHash_def split: if_splits)
  from jump_loop_consistent [OF _ _ _ assms(2) _ this] assms(1) show ?thesis by (auto simp: JumpHash_def)
qed

section \<open>Consistent hashing as an interface\<close>

locale consistent_hash =
  fixes bucket :: "'k \<Rightarrow> int \<Rightarrow> int"
    and limit :: int
  assumes bucket_range: "1 \<le> n \<Longrightarrow> n \<le> limit \<Longrightarrow> 0 \<le> bucket k n \<and> bucket k n < n"
    and bucket_grow: "1 \<le> n \<Longrightarrow> n < limit \<Longrightarrow> bucket k (n + 1) = bucket k n \<or> bucket k (n + 1) = n"
begin

lemma bucket_scale_up:
  assumes "1 \<le> n" "n \<le> m" "m \<le> limit"
  shows "bucket k m = bucket k n \<or> n \<le> bucket k m"
  using assms(2,3)
proof (induction m rule: int_ge_induct)
  case (step i)
  then show ?case using bucket_grow [of i k] assms(1) by auto
qed simp

lemma bucket_scale_down:
  assumes "1 \<le> n" "n \<le> m" "m \<le> limit" "bucket k m < n"
  shows "bucket k n = bucket k m"
  using bucket_scale_up [OF assms(1-3)] assms(4) by (metis not_less)

end

definition shard_of :: "string \<Rightarrow> int \<Rightarrow> int" where
  "shard_of ns n = (case JumpHash (HashNamespace ns) n of Some (Inr b) \<Rightarrow> b | _ \<Rightarrow> - 1)"

lemma JumpHash_shard_of:
  "1 \<le> n \<Longrightarrow> n \<le> 2 ^ 31 \<Longrightarrow> JumpHash (HashNamespace ns) n = Some (Inr (shard_of ns n))"
  using JumpHash_total [of n "HashNamespace ns"] by (auto simp: shard_of_def)

interpretation jump: consistent_hash shard_of "2 ^ 31"
proof
  fix n :: int and k :: string
  assume n: "1 \<le> n"
  show "n \<le> 2 ^ 31 \<Longrightarrow> 0 \<le> shard_of k n \<and> shard_of k n < n"
    using JumpHash_total [of n "HashNamespace k"] n by (auto simp: shard_of_def)
  assume lt: "n < 2 ^ 31"
  then show "shard_of k (n + 1) = shard_of k n \<or> shard_of k (n + 1) = n"
    using JumpHash_grow [OF n lt JumpHash_shard_of [of n k]] n by (auto simp: shard_of_def)
qed

section \<open>The assignment\<close>

lemma assign_loop_spec:
  assumes "1 \<le> n" "n \<le> 2 ^ 31" "map fst result = [0..n - 1]"
  shows "\<exists>m. assign_loop n nss result = Some (Inr m) \<and> map fst m = [0..n - 1] \<and>
    (\<forall>i. map_get m [] i = map_get result [] i @ filter (\<lambda>ns. shard_of ns n = i) nss)"
  using assms(3)
proof (induction nss arbitrary: result)
  case (Cons ns nss)
  let ?b = "shard_of ns n"
  have j: "JumpHash (HashNamespace ns) n = Some (Inr ?b)" by (rule JumpHash_shard_of [OF assms(1,2)])
  have "?b \<in> set (map fst result)"
    unfolding Cons.prems using jump.bucket_range [OF assms(1,2), of ns] by simp
  then have "?b \<in> fst ` set result" by simp
  then have keys: "map fst (map_append ?b ns result) = [0..n - 1]"
    unfolding map_append_def by (simp only: keys_put_present Cons.prems)
  obtain m where m: "assign_loop n nss (map_append ?b ns result) = Some (Inr m)" "map fst m = [0..n - 1]"
    "\<forall>i. map_get m [] i = map_get (map_append ?b ns result) [] i @ filter (\<lambda>ns. shard_of ns n = i) nss"
    using Cons.IH [OF keys] by blast
  then show ?case by (auto simp: j)
qed simp

lemma AssignNamespaces_spec:
  assumes "1 \<le> n" "n \<le> 2 ^ 31"
  obtains m where "AssignNamespaces nss n = Some (Inr m)" "map fst m = [0..n - 1]"
    "\<And>i. map_get m [] i = filter (\<lambda>ns. shard_of ns n = i) nss"
proof -
  let ?r = "map (\<lambda>i. (i, [])) [0..n - 1] :: (int \<times> string list) list"
  have k: "map fst ?r = [0..n - 1]" by (simp add: comp_def)
  have "map_get ?r [] i = []" for i
    by (auto simp: map_get_def split: option.split dest!: map_of_SomeD)
  with assign_loop_spec [OF assms k, of nss] show ?thesis by (auto simp: AssignNamespaces_def intro: that)
qed

section \<open>Properties\<close>

text \<open>
  C34. \<open>JumpHash\<close> returns: for every key and every number of buckets from 1 to \<open>2^31\<close> the loop
  ends with a bucket in range, and each float the loop converts fits \<open>int64\<close>.
\<close>

theorem jump_hash_in_range:
  assumes "1 \<le> n" "n \<le> 2 ^ 31"
  shows "(\<exists>b. JumpHash key n = Some (Inr b) \<and> 0 \<le> b \<and> b < n) \<and>
    (0 \<le> j \<and> j < n \<longrightarrow> int64 \<lfloor>jump_next j key'\<rfloor>)"
  using JumpHash_total [OF assms, of key] jump_fits_int64 [of j key'] assms by auto

text \<open>
  C35. Minimal disruption: when the number of replicas grows from \<open>n\<close> to \<open>m\<close>, a namespace stays
  where it was or moves to one of the new replicas, never between old ones; read backwards, a
  scale-down only moves the namespaces of the replicas that go away.
\<close>

theorem jump_hash_minimal_disruption:
  assumes "1 \<le> n" "n \<le> m" "m \<le> 2 ^ 31"
  shows "(shard_of ns m = shard_of ns n \<or> n \<le> shard_of ns m) \<and>
    (shard_of ns m < n \<longrightarrow> shard_of ns n = shard_of ns m)"
  using jump.bucket_scale_up [OF assms, of ns] jump.bucket_scale_down [OF assms, of ns] by blast

text \<open>
  \<open>AssignNamespaces\<close> partitions: the result has exactly one entry for each replica index,
  the entry of a replica lists, in order, the namespaces that hash to it, and together the entries
  hold every namespace exactly as often as the input.
\<close>

theorem assign_namespaces_partition:
  assumes "1 \<le> n" "n \<le> 2 ^ 31"
  shows "\<exists>m. AssignNamespaces nss n = Some (Inr m) \<and> map fst m = [0..n - 1] \<and>
    (\<forall>i. map_get m [] i = filter (\<lambda>ns. shard_of ns n = i) nss) \<and>
    mset (concat (map snd m)) = mset nss"
proof -
  obtain m where m: "AssignNamespaces nss n = Some (Inr m)" "map fst m = [0..n - 1]"
    "\<And>i. map_get m [] i = filter (\<lambda>ns. shard_of ns n = i) nss"
    using AssignNamespaces_spec [OF assms, of nss] by blast
  have d: "distinct (map fst m)" by (simp add: m(2))
  have "map snd m = map (\<lambda>i. filter (\<lambda>ns. shard_of ns n = i) nss) (map fst m)"
    using d m(3) by (auto simp: map_get_def comp_def intro!: map_cong)
      (metis (mono_tags) map_of_is_SomeI option.simps(5) prod.collapse)
  then have snd: "map snd m = map (\<lambda>i. filter (\<lambda>ns. shard_of ns n = i) nss) [0..n - 1]"
    by (simp add: m(2))
  have "mset (concat (map (\<lambda>i. filter (\<lambda>ns. shard_of ns n = i) nss) is)) =
      mset (filter (\<lambda>ns. shard_of ns n \<in> set is) nss)" if "distinct is" for "is" :: "int list"
    using that by (induction "is") (auto simp: filter_partition_key)
  from this [of "[0..n - 1]"] have "mset (concat (map snd m)) = mset (filter (\<lambda>ns. shard_of ns n \<in> set [0..n - 1]) nss)"
    by (simp add: snd)
  also have "filter (\<lambda>ns. shard_of ns n \<in> set [0..n - 1]) nss = nss"
    using jump.bucket_range [OF assms] by (auto intro!: filter_True)
  finally show ?thesis using m by blast
qed

theorem jump_hash_in_range_witness:
  "\<exists>b. JumpHash 42 3 = Some (Inr b) \<and> 0 \<le> b \<and> b < 3"
  using jump_hash_in_range [of 3 42 0 0] by auto

theorem jump_hash_minimal_disruption_witness:
  "shard_of ''default'' 5 = shard_of ''default'' 3 \<or> 3 \<le> shard_of ''default'' 5"
  using jump_hash_minimal_disruption [of 3 5 "''default''"] by simp

theorem assign_namespaces_partition_witness:
  "\<exists>m. AssignNamespaces [''a'', ''b'', ''c''] 2 = Some (Inr m) \<and> map fst m = [0, 1] \<and>
     mset (concat (map snd m)) = {#''a'', ''b'', ''c''#}"
proof -
  have "[0..2 - 1 :: int] = [0, 1]" by code_simp
  then show ?thesis using assign_namespaces_partition [of 2 "[''a'', ''b'', ''c'']"] by auto
qed

end
