(* ===== verification/Shard_Manager.thy ===== *)
theory Shard_Manager
  imports Shard_Hash
begin

text \<open>
  The shard manager (\<open>internal/shard/manager.go\<close>): the coordinator's \<open>reconcile\<close>, the follower's
  \<open>syncFromConfigMap\<close>, \<open>applyShardMap\<close> with the change callbacks, and the ConfigMap that carries
  the assignment. The Kubernetes API is the record \<open>kube\<close> of the outcomes of the calls a
  reconciliation makes (an error or the listed objects); the JSON encoder and decoder are the
  parameters \<open>marshal\<close> and \<open>unmarshal\<close>. A set of namespaces (\<open>map[string]bool\<close>) is the list of its
  keys; every slice built by ranging over such a map is sorted before use, so the order of the map
  does not show. A registered callback is its number; \<open>applyShardMap\<close> returns, in order, the
  gauge it sets and the callbacks it invokes with their arguments. A panic is an error value that
  ends the coordinator.
\<close>

section \<open>State\<close>

definition ShardMapConfigMapName :: string where "ShardMapConfigMapName = ''wormsign-shard-map''"
definition shardMapDataKey :: string where "shardMapDataKey = ''shard-map''"

record ShardMap =
  sm_Assignments :: "(string \<times> string list) list"
  sm_NumReplicas :: int
  sm_UpdatedAt :: gotime

record Manager =
  mgr_replicaID :: string
  mgr_numReplicas :: int
  mgr_excludeNamespaces :: "string list"
  mgr_assignedNamespaces :: "string list"
  mgr_currentShardMap :: "ShardMap option"
  mgr_peerSelector :: string
  mgr_callbacks :: "nat list"

record configmap =
  cm_Labels :: labels
  cm_Data :: labels

datatype shard_effect =
    SetShardNamespaces nat
  | ShardChange nat "string list" "string list"

datatype get_outcome = CM_NotFound | CM_Error string | CM_Found configmap

record kube =
  k_namespaces :: "string + string list"
  k_pods :: "string + (string \<times> string) list"
  k_get :: get_outcome
  k_create :: "string option"
  k_update :: "string option"

definition NewManager :: "bool \<Rightarrow> string \<Rightarrow> string \<Rightarrow> int \<Rightarrow> string list \<Rightarrow> string \<Rightarrow> string + Manager" where
  "NewManager clientset_nil controllerNamespace replicaID numReplicas exclude peerSelector =
     (if clientset_nil then Inl ''clientset''
      else if controllerNamespace = [] then Inl ''controllerNamespace''
      else if replicaID = [] then Inl ''replicaID''
      else if numReplicas < 1 then Inl ''numReplicas''
      else Inr \<lparr>mgr_replicaID = replicaID, mgr_numReplicas = numReplicas,
        mgr_excludeNamespaces = exclude, mgr_assignedNamespaces = [], mgr_currentShardMap = None,
        mgr_peerSelector = peerSelector, mgr_callbacks = []\<rparr>)"

definition OnShardChange :: "Manager \<Rightarrow> nat \<Rightarrow> Manager" where
  "OnShardChange m cb = m\<lparr>mgr_callbacks := mgr_callbacks m @ [cb]\<rparr>"

definition AssignedNamespaces :: "Manager \<Rightarrow> string list" where
  "AssignedNamespaces m = sort (mgr_assignedNamespaces m)"

definition IsAssigned :: "Manager \<Rightarrow> string \<Rightarrow> bool" where
  "IsAssigned m namespace = List.member (mgr_assignedNamespaces m) namespace"

definition SetNumReplicas :: "Manager \<Rightarrow> int \<Rightarrow> Manager" where
  "SetNumReplicas m n = (if n < 1 then m else m\<lparr>mgr_numReplicas := n\<rparr>)"

definition GetShardMap :: "Manager \<Rightarrow> ShardMap option" where
  "GetShardMap m = mgr_currentShardMap m"

section \<open>Applying a shard map\<close>

definition applyShardMap :: "Manager \<Rightarrow> ShardMap \<Rightarrow> Manager \<times> shard_effect list" where
  "applyShardMap m shardMap =
     (let myNamespaces = (case map_of (sm_Assignments shardMap) (mgr_replicaID m) of
            None \<Rightarrow> [] | Some nss \<Rightarrow> nss);
          newSet = remdups myNamespaces;
          oldSet = mgr_assignedNamespaces m;
          added = sort (filter (\<lambda>ns. \<not> List.member oldSet ns) newSet);
          removed = sort (filter (\<lambda>ns. \<not> List.member newSet ns) oldSet);
          m' = m\<lparr>mgr_assignedNamespaces := newSet, mgr_currentShardMap := Some shardMap\<rparr>;
          gauge = SetShardNamespaces (length newSet)
      in if length added = 0 \<and> length removed = 0 then (m', [gauge])
         else (m', gauge # map (\<lambda>cb. ShardChange cb added removed) (mgr_callbacks m)))"

definition discoverPeers :: "kube \<Rightarrow> Manager \<Rightarrow> shard_error + string list" where
  "discoverPeers k m =
     (if mgr_peerSelector m = [] then Inl NoPeerSelector
      else case k_pods k of
        Inl e \<Rightarrow> Inl (ListPods e)
      | Inr pods \<Rightarrow> Inr (sort (map fst (filter (\<lambda>(name, phase). \<not> (phase = ''Succeeded'' \<or> phase = ''Failed'')) pods))))"

text \<open>The ConfigMap after a successful write.\<close>

definition writeShardMap :: "(ShardMap \<Rightarrow> string + string) \<Rightarrow> kube \<Rightarrow> ShardMap \<Rightarrow> shard_error + configmap" where
  "writeShardMap marshal k shardMap =
     (case marshal shardMap of
        Inl e \<Rightarrow> Inl (MarshalError e)
      | Inr data \<Rightarrow>
          (let cm = \<lparr>cm_Labels = [(''app.kubernetes.io/managed-by'', ''wormsign''),
                                 (''app.kubernetes.io/component'', ''shard-manager'')],
                     cm_Data = [(shardMapDataKey, data)]\<rparr> in
           case k_get k of
             CM_NotFound \<Rightarrow> (case k_create k of Some e \<Rightarrow> Inl (CreateConfigMap e) | None \<Rightarrow> Inr cm)
           | CM_Error e \<Rightarrow> Inl (GetConfigMap e)
           | CM_Found existing \<Rightarrow>
               (case k_update k of
                  Some e \<Rightarrow> Inl (UpdateConfigMap e)
                | None \<Rightarrow> Inr (existing\<lparr>cm_Data := cm_Data cm, cm_Labels := cm_Labels cm\<rparr>))))"

definition syncFromConfigMap ::
    "(string \<Rightarrow> ShardMap option) \<Rightarrow> get_outcome \<Rightarrow> Manager \<Rightarrow>
     shard_error + Manager \<times> shard_effect list" where
  "syncFromConfigMap unmarshal cm m =
     (case cm of
        CM_NotFound \<Rightarrow> Inl (GetConfigMap ''not found'')
      | CM_Error e \<Rightarrow> Inl (GetConfigMap e)
      | CM_Found c \<Rightarrow>
          (case map_of (cm_Data c) shardMapDataKey of
             None \<Rightarrow> Inl MissingKey
           | Some text \<Rightarrow>
               (case unmarshal text of
                  None \<Rightarrow> Inl UnmarshalError
                | Some shardMap \<Rightarrow> Inr (applyShardMap m shardMap))))"

section \<open>The coordinator\<close>

fun assign_peers :: "(int \<times> string list) list \<Rightarrow> string list \<Rightarrow> int list \<Rightarrow> (string \<times> string list) list \<Rightarrow>
    shard_error + (string \<times> string list) list" where
  "assign_peers assignments peers [] acc = Inr acc"
| "assign_peers assignments peers (i # is) acc =
     (let assigned = sort (map_get assignments [] i) in
      if i < int (length peers)
      then assign_peers assignments peers is (map_put (peers ! nat i) assigned acc)
      else Inl PanicIndexOutOfRange)"

type_synonym reconcile_result =
  "shard_error + configmap \<times> shard_effect list"

definition finish_reconcile ::
    "(ShardMap \<Rightarrow> string + string) \<Rightarrow> kube \<Rightarrow> Manager \<Rightarrow> ShardMap \<Rightarrow> Manager \<times> reconcile_result" where
  "finish_reconcile marshal k m shardMap =
     (case writeShardMap marshal k shardMap of
        Inl e \<Rightarrow> (m, Inl e)
      | Inr cm \<Rightarrow> (case applyShardMap m shardMap of (m', effs) \<Rightarrow> (m', Inr (cm, effs))))"

text \<open>
  \<open>reconcile\<close> returns the manager (whose replica count it may have changed before a later step
  fails) and an error or the written ConfigMap and the effects; \<open>None\<close> is a hash that
  does not return.
\<close>

definition reconcile :: "(ShardMap \<Rightarrow> string + string) \<Rightarrow> kube \<Rightarrow> gotime \<Rightarrow> Manager \<Rightarrow> (Manager \<times> reconcile_result) option" where
  "reconcile marshal k now m =
     (case k_namespaces k of
        Inl e \<Rightarrow> Some (m, Inl (ListNamespaces e))
      | Inr items \<Rightarrow>
          (let namespaces = sort (filter (\<lambda>ns. \<not> List.member (mgr_excludeNamespaces m) ns) items) in
           case AssignNamespaces namespaces (mgr_numReplicas m) of
             None \<Rightarrow> None
           | Some (Inl e) \<Rightarrow> Some (m, Inl e)
           | Some (Inr assignments) \<Rightarrow>
               if mgr_numReplicas m = 1
               then Some (finish_reconcile marshal k m
                      \<lparr>sm_Assignments = [(mgr_replicaID m, sort (map_get assignments [] 0))],
                       sm_NumReplicas = mgr_numReplicas m, sm_UpdatedAt = now\<rparr>)
               else
                 (case discoverPeers k m of
                    Inl e \<Rightarrow> Some (m, Inl e)
                  | Inr peers \<Rightarrow>
                      (let adjust = (0 < length peers \<and> int (length peers) \<noteq> mgr_numReplicas m);
                           effective = (if adjust then int (length peers) else mgr_numReplicas m);
                           m1 = (if adjust then SetNumReplicas m effective else m)
                       in case (if adjust then AssignNamespaces namespaces effective
                                else Some (Inr assignments)) of
                            None \<Rightarrow> None
                          | Some (Inl e) \<Rightarrow> Some (m1, Inl e)
                          | Some (Inr assignments1) \<Rightarrow>
                              (case assign_peers assignments1 peers [0..effective - 1] [] of
                                 Inl e \<Rightarrow> Some (m1, Inl e)
                               | Inr pairs \<Rightarrow> Some (finish_reconcile marshal k m1
                                   \<lparr>sm_Assignments = pairs, sm_NumReplicas = effective,
                                    sm_UpdatedAt = now\<rparr>))))))"

text \<open>
  The loops: a reconciliation or a sync at once and on every tick, their errors only logged. A panic
  ends the coordinator's process, with the effects so far.
\<close>

fun RunCoordinator :: "(ShardMap \<Rightarrow> string + string) \<Rightarrow> (kube \<times> gotime) list \<Rightarrow> Manager \<Rightarrow>
    (Manager \<times> shard_effect list \<times> shard_error option) option" where
  "RunCoordinator marshal [] m = Some (m, [], None)"
| "RunCoordinator marshal ((k, now) # ticks) m =
     (case reconcile marshal k now m of
        None \<Rightarrow> None
      | Some (m1, Inl PanicIndexOutOfRange) \<Rightarrow> Some (m1, [], Some PanicIndexOutOfRange)
      | Some (m1, Inl PanicNumBuckets) \<Rightarrow> Some (m1, [], Some PanicNumBuckets)
      | Some (m1, Inl _) \<Rightarrow> RunCoordinator marshal ticks m1
      | Some (m1, Inr (cm, effs)) \<Rightarrow>
          map_option (\<lambda>(m2, effs', p). (m2, effs @ effs', p)) (RunCoordinator marshal ticks m1))"

fun RunFollower :: "(string \<Rightarrow> ShardMap option) \<Rightarrow> get_outcome list \<Rightarrow> Manager \<Rightarrow> Manager \<times> shard_effect list" where
  "RunFollower unmarshal [] m = (m, [])"
| "RunFollower unmarshal (cm # ticks) m =
     (case syncFromConfigMap unmarshal cm m of
        Inl e \<Rightarrow> RunFollower unmarshal ticks m
      | Inr (m1, effs) \<Rightarrow> (case RunFollower unmarshal ticks m1 of (m2, effs') \<Rightarrow> (m2, effs @ effs')))"

section \<open>Applying and syncing\<close>

lemma applyShardMap_fields [simp]:
  "mgr_replicaID (fst (applyShardMap m sm)) = mgr_replicaID m"
  "mgr_numReplicas (fst (applyShardMap m sm)) = mgr_numReplicas m"
  "mgr_assignedNamespaces (fst (applyShardMap m sm)) = remdups (map_get (sm_Assignments sm) [] (mgr_replicaID m))"
  "mgr_currentShardMap (fst (applyShardMap m sm)) = Some sm"
  by (simp_all add: applyShardMap_def Let_def map_get_def)

lemma IsAssigned_apply [simp]:
  "IsAssigned (fst (applyShardMap m sm)) ns \<longleftrightarrow> ns \<in> set (map_get (sm_Assignments sm) [] (mgr_replicaID m))"
  by (simp add: IsAssigned_def)

lemma finish_reconcile_ok:
  assumes "\<And>e. k_get k \<noteq> CM_Error e" "k_create k = None" "k_update k = None" "marshal sm = Inr doc"
  obtains cm where "finish_reconcile marshal k m sm =
      (fst (applyShardMap m sm), Inr (cm, snd (applyShardMap m sm)))" "map_of (cm_Data cm) shardMapDataKey = Some doc"
  using assms by (cases "k_get k") (auto simp: finish_reconcile_def writeShardMap_def split: prod.split)

lemma RunFollower_found:
  assumes "map_of (cm_Data cm) shardMapDataKey = Some doc" "unmarshal doc = Some sm"
  shows "fst (RunFollower unmarshal [CM_Found cm] f) = fst (applyShardMap f sm)"
  using assms by (simp add: syncFromConfigMap_def split: prod.split)

section \<open>The assignment to peers\<close>

lemma assign_peers_spec:
  assumes "distinct peers" "\<And>i. i \<in> set is \<Longrightarrow> 0 \<le> i \<and> i < int (length peers)"
  shows "\<exists>pairs. assign_peers a peers is acc = Inr pairs \<and>
    (\<forall>i\<in>set is. map_of pairs (peers ! nat i) = Some (sort (map_get a [] i))) \<and>
    (\<forall>p. p \<notin> (\<lambda>i. peers ! nat i) ` set is \<longrightarrow> map_of pairs p = map_of acc p)"
  using assms(2)
proof (induction "is" arbitrary: acc)
  case (Cons i "is")
  have i: "0 \<le> i" "i < int (length peers)" using Cons.prems [of i] by simp_all
  obtain pairs where p: "assign_peers a peers is (map_put (peers ! nat i) (sort (map_get a [] i)) acc) = Inr pairs"
    "\<forall>i\<in>set is. map_of pairs (peers ! nat i) = Some (sort (map_get a [] i))"
    "\<forall>p. p \<notin> (\<lambda>i. peers ! nat i) ` set is \<longrightarrow>
       map_of pairs p = map_of (map_put (peers ! nat i) (sort (map_get a [] i)) acc) p"
    using Cons.IH [of "map_put (peers ! nat i) (sort (map_get a [] i)) acc"] Cons.prems by auto
  have "map_of pairs (peers ! nat i) = Some (sort (map_get a [] i))"
  proof (cases "peers ! nat i \<in> (\<lambda>i. peers ! nat i) ` set is")
    case True
    then obtain j where j: "j \<in> set is" "peers ! nat i = peers ! nat j" by auto
    moreover have "0 \<le> j" "j < int (length peers)" using Cons.prems [of j] j(1) by simp_all
    ultimately have "j = i" using i assms(1) by (simp add: nth_eq_iff_index_eq nat_less_iff)
    then show ?thesis using p(2) j by simp
  next
    case False
    then show ?thesis using p(3) by simp
  qed
  then show ?case using p i by (auto simp: Let_def)
qed simp

lemma assign_peers_all:
  assumes "distinct peers" "int (length peers) = n"
  obtains pairs where "assign_peers a peers [0..n - 1] [] = Inr pairs"
    "\<And>ns p. ns \<in> set (map_get pairs [] p) \<longleftrightarrow>
       (\<exists>i. 0 \<le> i \<and> i < n \<and> p = peers ! nat i \<and> ns \<in> set (map_get a [] i))"
proof -
  obtain pairs where p: "assign_peers a peers [0..n - 1] [] = Inr pairs"
    "\<forall>i\<in>set [0..n - 1]. map_of pairs (peers ! nat i) = Some (sort (map_get a [] i))"
    "\<forall>p. p \<notin> (\<lambda>i. peers ! nat i) ` set [0..n - 1] \<longrightarrow> map_of pairs p = map_of [] p"
    using assign_peers_spec [OF assms(1), of "[0..n - 1]" a "[]"] assms(2) by auto
  have "ns \<in> set (map_get pairs [] p) \<longleftrightarrow>
       (\<exists>i. 0 \<le> i \<and> i < n \<and> p = peers ! nat i \<and> ns \<in> set (map_get a [] i))" for ns p
  proof (cases "p \<in> (\<lambda>i. peers ! nat i) ` set [0..n - 1]")
    case True
    then obtain i where i: "0 \<le> i" "i < n" "p = peers ! nat i" by auto
    have "j = i" if "0 \<le> j" "j < n" "peers ! nat i = peers ! nat j" for j
      using that i assms by (simp add: nth_eq_iff_index_eq nat_less_iff)
    moreover have "map_get pairs [] p = sort (map_get a [] i)" using p(2) i by (simp add: map_get_def)
    ultimately show ?thesis using i by auto
  next
    case False
    then show ?thesis using p(3) by (force simp: map_get_def)
  qed
  then show ?thesis using that p(1) by blast
qed

text \<open>The names of the pods that \<open>discoverPeers\<close> keeps, and the namespaces to be sharded.\<close>

definition running_pods :: "(string \<times> string) list \<Rightarrow> string list" where
  "running_pods pods = map fst (filter (\<lambda>(name, phase). \<not> (phase = ''Succeeded'' \<or> phase = ''Failed'')) pods)"

definition sharded :: "Manager \<Rightarrow> string list \<Rightarrow> string set" where
  "sharded m items = set items - set (mgr_excludeNamespaces m)"

lemma reconcile_single:
  assumes "mgr_numReplicas m = 1" "k_namespaces k = Inr items"
  obtains sm where "reconcile marshal k now m = Some (finish_reconcile marshal k m sm)"
    "\<And>ns p. ns \<in> set (map_get (sm_Assignments sm) [] p) \<longleftrightarrow> p = mgr_replicaID m \<and> ns \<in> sharded m items"
proof -
  let ?nss = "sort (filter (\<lambda>ns. ns \<notin> set (mgr_excludeNamespaces m)) items)"
  obtain a where a: "AssignNamespaces ?nss 1 = Some (Inr a)"
    "\<And>i. map_get a [] i = filter (\<lambda>ns. shard_of ns 1 = i) ?nss"
    using AssignNamespaces_spec [of 1 ?nss] by auto
  have z: "shard_of ns 1 = 0" for ns using jump.bucket_range [of 1 ns] by simp
  have get: "map_get [(x, xs)] [] p = (if p = x then xs else [])" for x p :: string and xs :: "string list"
    by (simp add: map_get_def)
  show ?thesis
    by (rule that [of "\<lparr>sm_Assignments = [(mgr_replicaID m, sort (map_get a [] 0))],
                       sm_NumReplicas = 1, sm_UpdatedAt = now\<rparr>"])
      (auto simp: reconcile_def assms a z sharded_def get Let_def)
qed

lemma reconcile_multi:
  assumes n: "1 \<le> mgr_numReplicas m" "mgr_numReplicas m \<le> 2 ^ 31" "mgr_numReplicas m \<noteq> 1"
    and k: "k_namespaces k = Inr items" "k_pods k = Inr pods" "mgr_peerSelector m \<noteq> []"
    and p: "peers = sort (running_pods pods)" "peers \<noteq> []" "distinct peers" "int (length peers) \<le> 2 ^ 31"
  obtains sm where
    "reconcile marshal k now m = Some (finish_reconcile marshal k (m\<lparr>mgr_numReplicas := int (length peers)\<rparr>) sm)"
    "\<And>ns p. ns \<in> set (map_get (sm_Assignments sm) [] p) \<longleftrightarrow>
       p = peers ! nat (shard_of ns (int (length peers))) \<and> ns \<in> sharded m items"
proof -
  let ?nss = "sort (filter (\<lambda>ns. ns \<notin> set (mgr_excludeNamespaces m)) items)"
  let ?n = "int (length peers)"
  have n1: "1 \<le> ?n" using p(2) by (cases peers) auto
  obtain a where a: "AssignNamespaces ?nss (mgr_numReplicas m) = Some (Inr a)"
    using AssignNamespaces_spec [OF n(1,2), of ?nss] by blast
  obtain b where b: "AssignNamespaces ?nss ?n = Some (Inr b)"
    "\<And>i. map_get b [] i = filter (\<lambda>ns. shard_of ns ?n = i) ?nss"
    using AssignNamespaces_spec [OF n1 p(4), of ?nss] by blast
  obtain pairs where pairs: "assign_peers b peers [0..?n - 1] [] = Inr pairs"
    "\<And>ns p. ns \<in> set (map_get pairs [] p) \<longleftrightarrow>
       (\<exists>i. 0 \<le> i \<and> i < ?n \<and> p = peers ! nat i \<and> ns \<in> set (map_get b [] i))"
    using assign_peers_all [OF p(3) refl, of b] by blast
  have d: "discoverPeers k m = Inr peers"
    using k p(1) by (simp add: discoverPeers_def running_pods_def)
  have same: "m\<lparr>mgr_numReplicas := ?n\<rparr> = m" if "mgr_numReplicas m = ?n"
    using that by (cases m) simp
  show ?thesis
  proof (rule that [of "\<lparr>sm_Assignments = pairs, sm_NumReplicas = ?n, sm_UpdatedAt = now\<rparr>"])
    show "reconcile marshal k now m = Some (finish_reconcile marshal k (m\<lparr>mgr_numReplicas := ?n\<rparr>)
        \<lparr>sm_Assignments = pairs, sm_NumReplicas = ?n, sm_UpdatedAt = now\<rparr>)"
    proof (cases "mgr_numReplicas m = ?n")
      case True
      then show ?thesis using n(3) k(1) d b(1) pairs(1) by (simp add: reconcile_def Let_def same)
    next
      case False
      then have "?n \<noteq> mgr_numReplicas m" by simp
      then show ?thesis
        using n(3) k(1) d a b(1) pairs(1) p(2) n1 by (simp add: reconcile_def Let_def SetNumReplicas_def)
    qed
    show "ns \<in> set (map_get (sm_Assignments \<lparr>sm_Assignments = pairs, sm_NumReplicas = ?n, sm_UpdatedAt = now\<rparr>) [] p) \<longleftrightarrow>
       p = peers ! nat (shard_of ns ?n) \<and> ns \<in> sharded m items" for ns p
      using jump.bucket_range [OF n1 p(4), of ns] by (auto simp: pairs(2) b(2) sharded_def)
  qed
qed

section \<open>Properties\<close>

lemma one_of_distinct:
  assumes "distinct (map f xs)"
  shows "length (filter (\<lambda>x. f x = y) xs) = (if y \<in> f ` set xs then 1 else 0)"
  using assms by (induction xs) (auto simp: filter_empty_conv image_iff)

lemma fleet_count:
  assumes "distinct (map mgr_replicaID (m # fs))" "owner \<in> mgr_replicaID ` set (m # fs)"
    and "\<And>r. r \<in> set (m # fs) \<Longrightarrow> assigned r \<longleftrightarrow> mgr_replicaID r = owner \<and> P"
  shows "length (filter assigned (m # fs)) = (if P then 1 else 0)"
proof -
  have "filter assigned (m # fs) = filter (\<lambda>r. mgr_replicaID r = owner \<and> P) (m # fs)"
    using assms(3) by (intro filter_cong) auto
  then show ?thesis using one_of_distinct [OF assms(1), of owner] assms(2) by (cases P) auto
qed

lemma owner_is_replica:
  assumes "mset (running_pods pods) = mset (map mgr_replicaID rs)" "peers = sort (running_pods pods)"
    "rs \<noteq> []" "int (length peers) \<le> 2 ^ 31"
  shows "peers ! nat (shard_of ns (int (length peers))) \<in> mgr_replicaID ` set rs"
proof -
  have len: "length peers = length rs" using assms(1,2) by (metis length_map length_sort size_mset)
  then have "1 \<le> int (length peers)" using assms(3) by (cases rs) auto
  from jump.bucket_range [OF this assms(4), of ns]
  have "peers ! nat (shard_of ns (int (length peers))) \<in> set peers" by (intro nth_mem) (simp add: nat_less_iff)
  then show ?thesis using assms(1,2) by (metis list.set_map set_mset_mset set_sort)
qed

lemma reconcile_owner:
  assumes n: "1 \<le> mgr_numReplicas m" "mgr_numReplicas m \<le> 2 ^ 31"
    and k: "k_namespaces k = Inr items"
    and peers: "mgr_numReplicas m = 1 \<and> followers = [] \<or>
      mgr_numReplicas m \<noteq> 1 \<and> mgr_peerSelector m \<noteq> [] \<and> k_pods k = Inr pods \<and>
      mset (running_pods pods) = mset (map mgr_replicaID (m # followers))"
    and ids: "distinct (map mgr_replicaID (m # followers))" "length followers < 2 ^ 31"
  shows "\<exists>m1 sm owner. reconcile marshal k now m = Some (finish_reconcile marshal k m1 sm) \<and>
    mgr_replicaID m1 = mgr_replicaID m \<and> (\<forall>ns. owner ns \<in> mgr_replicaID ` set (m # followers)) \<and>
    (\<forall>ns p. ns \<in> set (map_get (sm_Assignments sm) [] p) \<longleftrightarrow> p = owner ns \<and> ns \<in> sharded m items)"
proof (cases "mgr_numReplicas m = 1")
  case True
  obtain sm where "reconcile marshal k now m = Some (finish_reconcile marshal k m sm)"
    "\<And>ns p. ns \<in> set (map_get (sm_Assignments sm) [] p) \<longleftrightarrow> p = mgr_replicaID m \<and> ns \<in> sharded m items"
    using reconcile_single [OF True k] by blast
  then show ?thesis by (intro exI [of _ m] exI [of _ sm] exI [of _ "\<lambda>_. mgr_replicaID m"]) simp
next
  case False
  define ps where "ps = sort (running_pods pods)"
  have p: "mset (running_pods pods) = mset (map mgr_replicaID (m # followers))"
    "k_pods k = Inr pods" "mgr_peerSelector m \<noteq> []" using peers False by blast+
  then have mp: "mset ps = mset (map mgr_replicaID (m # followers))" by (simp add: ps_def)
  have len: "length ps = Suc (length followers)" using mset_eq_length [OF mp] by simp
  have d: "distinct ps" using mset_eq_imp_distinct_iff [OF mp] ids(1) by simp
  have ne: "ps \<noteq> []" using len by auto
  have le: "int (length ps) \<le> 2 ^ 31" using len ids(2) by simp
  obtain sm where "reconcile marshal k now m = Some (finish_reconcile marshal k (m\<lparr>mgr_numReplicas := int (length ps)\<rparr>) sm)"
    "\<And>ns p. ns \<in> set (map_get (sm_Assignments sm) [] p) \<longleftrightarrow>
       p = ps ! nat (shard_of ns (int (length ps))) \<and> ns \<in> sharded m items"
    using reconcile_multi [OF n False k p(2,3) ps_def ne d le] by blast
  moreover have "ps ! nat (shard_of ns (int (length ps))) \<in> mgr_replicaID ` set (m # followers)" for ns
    by (rule owner_is_replica [OF p(1) ps_def _ le]) simp
  ultimately show ?thesis
    by (intro exI [of _ "m\<lparr>mgr_numReplicas := int (length ps)\<rparr>"] exI [of _ sm]
        exI [of _ "\<lambda>ns. ps ! nat (shard_of ns (int (length ps)))"]) simp
qed

text \<open>
  C1. Every namespace is watched by exactly one replica. Let the coordinator and the followers be
  the running pods (in single-replica mode, the coordinator alone), and let the API calls succeed.
  Then \<open>reconcile\<close> returns and writes a ConfigMap such that, after each follower has read it, each
  namespace of the cluster that is not excluded is assigned on exactly one replica and no other
  namespace is assigned anywhere, also when the configured replica count does not match the pods.
  The JSON codec is only assumed to keep the assignments.
\<close>

theorem sharding_exactly_once:
  assumes codec: "\<forall>sm. \<exists>text sm'. marshal sm = Inr text \<and> unmarshal text = Some sm' \<and>
      map_of (sm_Assignments sm') = map_of (sm_Assignments sm)"
    and n: "1 \<le> mgr_numReplicas m" "mgr_numReplicas m \<le> 2 ^ 31"
    and k: "k_namespaces k = Inr items" "\<forall>e. k_get k \<noteq> CM_Error e" "k_create k = None" "k_update k = None"
    and peers: "mgr_numReplicas m = 1 \<and> followers = [] \<or>
      mgr_numReplicas m \<noteq> 1 \<and> mgr_peerSelector m \<noteq> [] \<and> k_pods k = Inr pods \<and>
      mset (running_pods pods) = mset (map mgr_replicaID (m # followers))"
    and ids: "distinct (map mgr_replicaID (m # followers))" "length followers < 2 ^ 31"
  shows "\<exists>m' cm effs. reconcile marshal k now m = Some (m', Inr (cm, effs)) \<and>
    (\<forall>ns. length (filter (\<lambda>r. IsAssigned r ns) (m' # map (\<lambda>f. fst (RunFollower unmarshal [CM_Found cm] f)) followers)) =
       (if ns \<in> set items \<and> ns \<notin> set (mgr_excludeNamespaces m) then 1 else 0))"
proof -
  obtain m1 sm owner where r: "reconcile marshal k now m = Some (finish_reconcile marshal k m1 sm)"
      "mgr_replicaID m1 = mgr_replicaID m" "\<forall>ns. owner ns \<in> mgr_replicaID ` set (m # followers)"
      "\<forall>ns p. ns \<in> set (map_get (sm_Assignments sm) [] p) \<longleftrightarrow> p = owner ns \<and> ns \<in> sharded m items"
    using reconcile_owner [OF n k(1) peers ids] by blast
  obtain doc sm' where c: "marshal sm = Inr doc" "unmarshal doc = Some sm'"
    "map_of (sm_Assignments sm') = map_of (sm_Assignments sm)" using codec by blast
  have get: "map_get (sm_Assignments sm') [] p = map_get (sm_Assignments sm) [] p" for p
    by (simp add: map_get_def c(3))
  obtain cm where cm: "finish_reconcile marshal k m1 sm =
      (fst (applyShardMap m1 sm), Inr (cm, snd (applyShardMap m1 sm)))" "map_of (cm_Data cm) shardMapDataKey = Some doc"
    using finish_reconcile_ok [of k marshal sm doc m1] k c(1) by metis
  let ?fleet = "fst (applyShardMap m1 sm) # map (\<lambda>f. fst (RunFollower unmarshal [CM_Found cm] f)) followers"
  have f: "fst (RunFollower unmarshal [CM_Found cm] f) = fst (applyShardMap f sm')" for f
    using RunFollower_found [of cm doc unmarshal sm' f] cm(2) c(2) by blast
  have ids': "map mgr_replicaID ?fleet = map mgr_replicaID (m # followers)" by (simp add: f r(2) del: RunFollower.simps)
  have cnt: "length (filter (\<lambda>r. IsAssigned r ns) ?fleet) = (if ns \<in> sharded m items then 1 else 0)" for ns
  proof (rule fleet_count [where owner = "owner ns"])
    show "distinct (map mgr_replicaID ?fleet)" unfolding ids' by (rule ids(1))
    show "owner ns \<in> mgr_replicaID ` set ?fleet" using r(3) ids' by (metis list.set_map)
    show "IsAssigned x ns \<longleftrightarrow> mgr_replicaID x = owner ns \<and> ns \<in> sharded m items" if "x \<in> set ?fleet" for x
      using that r(4) by (auto simp: f get simp del: RunFollower.simps)
  qed
  show ?thesis using r(1) cm(1) cnt by (simp add: sharded_def del: RunFollower.simps)
qed

text \<open>
  The diff of \<open>applyShardMap\<close>: afterwards the replica holds exactly the namespaces the map
  gives it, the gauge is their number, and every registered callback is invoked exactly once, in
  registration order, with the namespaces that were added and those that were removed (sorted,
  without repetitions) if there are any, and not at all if nothing changed.
\<close>

theorem apply_shard_map_diff:
  assumes "distinct (mgr_assignedNamespaces m)" "applyShardMap m sm = (m', effs)"
  shows "set (mgr_assignedNamespaces m') = set (map_get (sm_Assignments sm) [] (mgr_replicaID m)) \<and>
    distinct (mgr_assignedNamespaces m') \<and>
    (\<exists>added removed calls. effs = SetShardNamespaces (length (mgr_assignedNamespaces m')) # calls \<and>
       set added = set (mgr_assignedNamespaces m') - set (mgr_assignedNamespaces m) \<and>
       set removed = set (mgr_assignedNamespaces m) - set (mgr_assignedNamespaces m') \<and>
       sorted added \<and> sorted removed \<and> distinct added \<and> distinct removed \<and>
       calls = (if set (mgr_assignedNamespaces m') = set (mgr_assignedNamespaces m) then []
                else map (\<lambda>cb. ShardChange cb added removed) (mgr_callbacks m)))"
proof -
  let ?new = "remdups (map_get (sm_Assignments sm) [] (mgr_replicaID m))"
  let ?old = "mgr_assignedNamespaces m"
  let ?added = "sort (filter (\<lambda>ns. \<not> List.member ?old ns) ?new)"
  let ?removed = "sort (filter (\<lambda>ns. \<not> List.member ?new ns) ?old)"
  have new: "mgr_assignedNamespaces m' = ?new" using applyShardMap_fields(3) [of m sm] assms(2) by simp
  have ch: "length ?added = 0 \<and> length ?removed = 0 \<longleftrightarrow> set ?new = set ?old"
    unfolding length_sort length_0_conv filter_empty_conv by auto
  have "snd (applyShardMap m sm) = (if length ?added = 0 \<and> length ?removed = 0
      then [SetShardNamespaces (length ?new)]
      else SetShardNamespaces (length ?new) # map (\<lambda>cb. ShardChange cb ?added ?removed) (mgr_callbacks m))"
    unfolding applyShardMap_def map_get_def [symmetric] Let_def by (simp only: snd_conv split: if_split) blast
  then have effs: "effs = SetShardNamespaces (length ?new) #
      (if set ?new = set ?old then [] else map (\<lambda>cb. ShardChange cb ?added ?removed) (mgr_callbacks m))"
    unfolding ch assms(2) by simp
  have sets: "set ?added = set ?new - set ?old" "set ?removed = set ?old - set ?new" by auto
  have dist: "distinct ?added" "distinct ?removed" using assms(1) by simp_all
  show ?thesis unfolding new
  proof (intro conjI exI)
    show "effs = SetShardNamespaces (length ?new) #
      (if set ?new = set ?old then [] else map (\<lambda>cb. ShardChange cb ?added ?removed) (mgr_callbacks m))" by (rule effs)
  qed (rule sets dist sorted_sort_strings refl set_remdups distinct_remdups)+
qed

text \<open>
  C40. A coordinator configured for several replicas that finds no running peer does not report an
  error: the loop over the replicas indexes the empty slice of peers, and the coordinator's process
  panics, whatever the cluster's namespaces are.
\<close>

theorem reconcile_panics_without_peers:
  assumes "1 < mgr_numReplicas m" "mgr_numReplicas m \<le> 2 ^ 31" "mgr_peerSelector m \<noteq> []"
    and "k_namespaces k = Inr items" "k_pods k = Inr pods" "running_pods pods = []"
  shows "RunCoordinator marshal ((k, now) # ticks) m = Some (m, [], Some PanicIndexOutOfRange)"
proof -
  let ?nss = "sort (filter (\<lambda>ns. ns \<notin> set (mgr_excludeNamespaces m)) items)"
  obtain a where a: "AssignNamespaces ?nss (mgr_numReplicas m) = Some (Inr a)"
    using AssignNamespaces_spec [of "mgr_numReplicas m" ?nss] assms(1,2) by auto
  have "discoverPeers k m = Inr []" using assms(3,5,6) by (simp add: discoverPeers_def running_pods_def)
  moreover have "[0..mgr_numReplicas m - 1] = 0 # [1..mgr_numReplicas m - 1]"
    using assms(1) by (simp add: upto_rec1)
  ultimately have "reconcile marshal k now m = Some (m, Inl PanicIndexOutOfRange)"
    using assms(1,4) a by (simp add: reconcile_def Let_def)
  then show ?thesis by simp
qed

text \<open>
  Scaling down to one is final: once a reconciliation has seen a single running peer, the
  manager is in single-replica mode, and every later reconciliation assigns all namespaces to this
  replica and to no other, however many pods are running by then.
\<close>

theorem single_mode_is_final:
  assumes "mgr_numReplicas m \<noteq> 1" "1 \<le> mgr_numReplicas m" "mgr_numReplicas m \<le> 2 ^ 31"
    and "mgr_peerSelector m \<noteq> []" "k_namespaces k = Inr items" "k_pods k = Inr pods" "running_pods pods = [p]"
    and "k_namespaces k' = Inr items'"
  shows "\<exists>m1 r m2 r2 sm. reconcile marshal k now m = Some (m1, r) \<and> mgr_numReplicas m1 = 1 \<and>
    reconcile marshal k' now' m1 = Some (m2, r2) \<and> (m2, r2) = finish_reconcile marshal k' m1 sm \<and>
    mgr_numReplicas m2 = 1 \<and>
    (\<forall>ns q. ns \<in> set (map_get (sm_Assignments sm) [] q) \<longleftrightarrow>
       q = mgr_replicaID m \<and> ns \<in> set items' \<and> ns \<notin> set (mgr_excludeNamespaces m))"
proof -
  have fin: "mgr_numReplicas (fst (finish_reconcile marshal k m sm)) = mgr_numReplicas m"
    "mgr_replicaID (fst (finish_reconcile marshal k m sm)) = mgr_replicaID m"
    "mgr_excludeNamespaces (fst (finish_reconcile marshal k m sm)) = mgr_excludeNamespaces m" for k m sm
    by (auto simp: finish_reconcile_def applyShardMap_def Let_def split: sum.split)
  obtain sm where "reconcile marshal k now m =
      Some (finish_reconcile marshal k (m\<lparr>mgr_numReplicas := int (length [p])\<rparr>) sm)"
    by (rule reconcile_multi [OF assms(2,3,1,5,6,4), of "[p]" marshal now]) (use assms(7) that in auto)
  then obtain m1 r where r: "reconcile marshal k now m = Some (m1, r)" "mgr_numReplicas m1 = 1"
    "mgr_replicaID m1 = mgr_replicaID m" "mgr_excludeNamespaces m1 = mgr_excludeNamespaces m"
    using fin [of k "m\<lparr>mgr_numReplicas := int (length [p])\<rparr>" sm]
    by (cases "finish_reconcile marshal k (m\<lparr>mgr_numReplicas := int (length [p])\<rparr>) sm") auto
  obtain sm' where "reconcile marshal k' now' m1 = Some (finish_reconcile marshal k' m1 sm')"
    "\<And>ns q. ns \<in> set (map_get (sm_Assignments sm') [] q) \<longleftrightarrow> q = mgr_replicaID m1 \<and> ns \<in> sharded m1 items'"
    using reconcile_single [OF r(2) assms(8)] by blast
  then show ?thesis using r fin [of k' m1 sm']
    by (cases "finish_reconcile marshal k' m1 sm'") (auto simp: sharded_def intro!: exI [of _ sm'])
qed

section \<open>Instances\<close>

text \<open>
  A codec with the round trip the sharding theorem assumes of JSON: two characters per step, a tag
  and its argument, decoded from the right.
\<close>

definition enc_tagged :: "char \<Rightarrow> string \<Rightarrow> string" where
  "enc_tagged t s = concat (map (\<lambda>c. [t, c]) s)"

definition enc_record :: "string \<times> string list \<Rightarrow> string" where
  "enc_record r = enc_tagged (CHR ''k'') (fst r) @
     concat (map (\<lambda>ns. enc_tagged (CHR ''n'') ns @ ''s.'') (snd r)) @ ''r.''"

definition enc_map :: "ShardMap \<Rightarrow> string + string" where
  "enc_map sm = Inr (concat (map enc_record (sm_Assignments sm)))"

fun dec_tagged :: "string \<Rightarrow> (string \<times> string list) list" where
  "dec_tagged (t # c # rest) =
     (let a = dec_tagged rest in
      if t = CHR ''r'' then ([], []) # a
      else case a of
        [] \<Rightarrow> []
      | (k, nss) # a' \<Rightarrow>
          if t = CHR ''k'' then (c # k, nss) # a'
          else if t = CHR ''s'' then (k, [] # nss) # a'
          else (case nss of [] \<Rightarrow> a | ns # nss' \<Rightarrow> (k, (c # ns) # nss') # a'))"
| "dec_tagged _ = []"

definition dec_map :: "string \<Rightarrow> ShardMap option" where
  "dec_map s = Some \<lparr>sm_Assignments = dec_tagged s, sm_NumReplicas = 0, sm_UpdatedAt = 0\<rparr>"

lemma dec_name: "dec_tagged rest = (k, n # nss) # a \<Longrightarrow>
    dec_tagged (enc_tagged (CHR ''n'') ns @ rest) = (k, (ns @ n) # nss) # a"
  by (induction ns) (auto simp: enc_tagged_def)

lemma dec_key: "dec_tagged rest = (k, nss) # a \<Longrightarrow>
    dec_tagged (enc_tagged (CHR ''k'') s @ rest) = (s @ k, nss) # a"
  by (induction s) (auto simp: enc_tagged_def)

lemma dec_names: "dec_tagged rest = (k, ms) # a \<Longrightarrow>
    dec_tagged (concat (map (\<lambda>ns. enc_tagged (CHR ''n'') ns @ ''s.'') nss) @ rest) = (k, nss @ ms) # a"
proof (induction nss)
  case (Cons ns nss)
  let ?r = "concat (map (\<lambda>ns. enc_tagged (CHR ''n'') ns @ ''s.'') nss) @ rest"
  have "dec_tagged (''s.'' @ ?r) = (k, [] # nss @ ms) # a" using Cons by simp
  from dec_name [OF this, of ns] show ?case by simp
qed simp

lemma dec_records: "dec_tagged (concat (map enc_record rs)) = rs"
proof (induction rs)
  case (Cons r rs)
  have "dec_tagged (''r.'' @ concat (map enc_record rs)) = ([], []) # rs" using Cons by simp
  from dec_key [OF dec_names [OF this, of "snd r"], of "fst r"] show ?case by (simp add: enc_record_def [of r])
qed simp

lemma codec_round_trip:
  "\<forall>sm. \<exists>doc sm'. enc_map sm = Inr doc \<and> dec_map doc = Some sm' \<and> map_of (sm_Assignments sm') = map_of (sm_Assignments sm)"
  by (simp add: enc_map_def dec_map_def dec_records)

definition example_manager :: "string \<Rightarrow> Manager" where
  "example_manager name = \<lparr>mgr_replicaID = name, mgr_numReplicas = 3, mgr_excludeNamespaces = [''kube-system''],
     mgr_assignedNamespaces = [''old''], mgr_currentShardMap = None, mgr_peerSelector = ''app=wormsign'',
     mgr_callbacks = [7]\<rparr>"

definition example_kube :: "(string \<times> string) list \<Rightarrow> kube" where
  "example_kube pods = \<lparr>k_namespaces = Inr [''default'', ''kube-system''], k_pods = Inr pods,
     k_get = CM_NotFound, k_create = None, k_update = None\<rparr>"

theorem sharding_exactly_once_witness:
  "\<exists>m' cm effs. reconcile enc_map (example_kube [(''b'', ''Running''), (''c'', ''Failed''), (''a'', ''Running'')]) 0
       (example_manager ''a'') = Some (m', Inr (cm, effs)) \<and>
     length (filter (\<lambda>r. IsAssigned r ''default'')
       (m' # map (\<lambda>f. fst (RunFollower dec_map [CM_Found cm] f)) [example_manager ''b''])) = 1"
proof -
  let ?pods = "[(''b'', ''Running''), (''c'', ''Failed''), (''a'', ''Running'')]"
  have hyps: "1 \<le> mgr_numReplicas (example_manager ''a'')" "mgr_numReplicas (example_manager ''a'') \<le> 2 ^ 31"
    "k_namespaces (example_kube ?pods) = Inr [''default'', ''kube-system'']" "\<forall>e. k_get (example_kube ?pods) \<noteq> CM_Error e"
    "k_create (example_kube ?pods) = None" "k_update (example_kube ?pods) = None"
    "mgr_numReplicas (example_manager ''a'') = 1 \<and> [example_manager ''b''] = [] \<or>
      mgr_numReplicas (example_manager ''a'') \<noteq> 1 \<and> mgr_peerSelector (example_manager ''a'') \<noteq> [] \<and>
      k_pods (example_kube ?pods) = Inr ?pods \<and>
      mset (running_pods ?pods) = mset (map mgr_replicaID [example_manager ''a'', example_manager ''b''])"
    "distinct (map mgr_replicaID [example_manager ''a'', example_manager ''b''])" "length [example_manager ''b''] < 2 ^ 31"
    "''default'' \<notin> set (mgr_excludeNamespaces (example_manager ''a''))"
    by (simp_all add: example_manager_def example_kube_def running_pods_def)
  show ?thesis using sharding_exactly_once [OF codec_round_trip hyps(1-9), of 0] hyps(10) by fastforce
qed

theorem apply_shard_map_diff_witness:
  "distinct (mgr_assignedNamespaces (example_manager ''a'')) \<and>
   set (mgr_assignedNamespaces (fst (applyShardMap (example_manager ''a'')
     \<lparr>sm_Assignments = [(''a'', [''x'', ''y''])], sm_NumReplicas = 1, sm_UpdatedAt = 0\<rparr>))) = {''x'', ''y''}"
  using apply_shard_map_diff [of "example_manager ''a''"
      "\<lparr>sm_Assignments = [(''a'', [''x'', ''y''])], sm_NumReplicas = 1, sm_UpdatedAt = 0\<rparr>", OF _ surjective_pairing]
  by (simp add: example_manager_def map_get_def)

theorem reconcile_panics_without_peers_witness:
  "RunCoordinator enc_map [(example_kube [(''c'', ''Failed'')], 0)] (example_manager ''a'') =
     Some (example_manager ''a'', [], Some PanicIndexOutOfRange)"
  using reconcile_panics_without_peers [of "example_manager ''a''" "example_kube [(''c'', ''Failed'')]"]
  by (simp add: example_manager_def example_kube_def running_pods_def del: RunCoordinator.simps)

theorem single_mode_is_final_witness:
  "\<exists>m1 r m2 r2 sm. reconcile enc_map (example_kube [(''a'', ''Running'')]) 0 (example_manager ''a'') = Some (m1, r) \<and>
     reconcile enc_map (example_kube [(''a'', ''Running''), (''b'', ''Running'')]) 1 m1 = Some (m2, r2) \<and>
     (m2, r2) = finish_reconcile enc_map (example_kube [(''a'', ''Running''), (''b'', ''Running'')]) m1 sm \<and>
     ''default'' \<in> set (map_get (sm_Assignments sm) [] ''a'')"
proof -
  let ?k = "example_kube [(''a'', ''Running'')]" and ?k2 = "example_kube [(''a'', ''Running''), (''b'', ''Running'')]"
  let ?m = "example_manager ''a''" and ?nss = "[''default'', ''kube-system'']"
  have hyps: "mgr_numReplicas ?m \<noteq> 1" "1 \<le> mgr_numReplicas ?m" "mgr_numReplicas ?m \<le> 2 ^ 31" "mgr_peerSelector ?m \<noteq> []"
    "k_namespaces ?k = Inr ?nss" "k_pods ?k = Inr [(''a'', ''Running'')]" "running_pods [(''a'', ''Running'')] = [''a'']"
    "k_namespaces ?k2 = Inr ?nss"
    "mgr_replicaID ?m = ''a''" "''default'' \<in> set ?nss" "''default'' \<notin> set (mgr_excludeNamespaces ?m)"
    by (simp_all add: example_manager_def example_kube_def running_pods_def)
  obtain m1 r m2 r2 sm where "reconcile enc_map ?k 0 ?m = Some (m1, r)" "reconcile enc_map ?k2 1 m1 = Some (m2, r2)"
      "(m2, r2) = finish_reconcile enc_map ?k2 m1 sm"
      "\<forall>ns q. ns \<in> set (map_get (sm_Assignments sm) [] q) \<longleftrightarrow>
         q = mgr_replicaID ?m \<and> ns \<in> set ?nss \<and> ns \<notin> set (mgr_excludeNamespaces ?m)"
    using single_mode_is_final [OF hyps(1-8), of enc_map 0 1] by (elim exE conjE) (rule that)
  then show ?thesis using hyps(9-11) by (intro exI conjI) (assumption | simp only: not_False_eq_True simp_thms)+
qed

end
