(* ===== verification/Pipeline.thy ===== *)
theory Pipeline
  imports Filter_Engine Correlator Priority_Queue Analyzers Gatherers
begin

text \<open>
  The pipeline (\<open>internal/pipeline/pipeline.go\<close>): filtering and submission of fault events, the
  correlator's output handler, and the workers of the gathering, analysis and sink stages.

  The gathering and sink queues are client-go work queues, which are not part of the sources: their
  operations are the argument \<open>workqueue\<close>, and the locale \<open>stage_queue\<close> states what the pipeline
  relies on. It is interpreted on the program's own \<open>PriorityQueue\<close>; for the client-go queues it is
  a hypothesis of the theorems. A client-go queue compares items with \<open>==\<close>, that is, by the pointers
  they hold; an item is therefore paired with the address its pointer was allocated at, and
  \<open>pl_next\<close> is the next free address.

  An item that a worker has taken and not finished is in flight. The step relation
  \<open>pipeline_step\<close> interleaves the workers of all stages, the detectors' submissions and the window
  ticks; the clock readings, the iteration orders, the completion orders of the gatherers and the
  outcomes of the external calls are arbitrary in every step.
\<close>

section \<open>Configuration\<close>

record WorkersConfig =
  wc_Gathering :: goint
  wc_Analysis :: goint
  wc_Sink :: goint

record PipelineConfig =
  pc_Workers :: WorkersConfig
  pc_Correlation :: CorrelatorConfig
  pc_GatherTimeout :: duration
  pc_AnalyzeTimeout :: duration
  pc_SinkTimeout :: duration

datatype pipeline_error =
    WorkersGathering goint
  | WorkersAnalysis goint
  | WorkersSink goint
  | GatherTimeout
  | AnalyzeTimeout
  | SinkTimeout
  | CorrelationConfig correlator_error
  | MetricsNotSet
  | AnalyzerNotSet

definition DefaultPipelineConfig :: PipelineConfig where
  "DefaultPipelineConfig =
     \<lparr>pc_Workers = \<lparr>wc_Gathering = 5, wc_Analysis = 2, wc_Sink = 3\<rparr>,
      pc_Correlation = DefaultCorrelatorConfig,
      pc_GatherTimeout = 30 * second, pc_AnalyzeTimeout = 60 * second, pc_SinkTimeout = 30 * second\<rparr>"

definition ValidatePipelineConfig :: "PipelineConfig \<Rightarrow> pipeline_error option" where
  "ValidatePipelineConfig cfg =
     (if wc_Gathering (pc_Workers cfg) < 1 then Some (WorkersGathering (wc_Gathering (pc_Workers cfg)))
      else if wc_Analysis (pc_Workers cfg) < 1 then Some (WorkersAnalysis (wc_Analysis (pc_Workers cfg)))
      else if wc_Sink (pc_Workers cfg) < 1 then Some (WorkersSink (wc_Sink (pc_Workers cfg)))
      else if pc_GatherTimeout cfg \<le> 0 then Some GatherTimeout
      else if pc_AnalyzeTimeout cfg \<le> 0 then Some AnalyzeTimeout
      else if pc_SinkTimeout cfg \<le> 0 then Some SinkTimeout
      else map_option CorrelationConfig (ValidateCorrelatorConfig (pc_Correlation cfg)))"

section \<open>Queues and state\<close>

record GatherItem =
  gi_FaultEvent :: "FaultEvent option"
  gi_SuperEvent :: "SuperEvent option"

record SinkItem =
  si_Report :: "RCAReport option"

record ('q, 'x) workqueue =
  wq_Add :: "'q \<Rightarrow> 'x \<Rightarrow> 'q"
  wq_Get :: "'q \<Rightarrow> ('x \<times> 'q) option"
  wq_Done :: "'q \<Rightarrow> 'x \<Rightarrow> 'q"
  wq_Len :: "'q \<Rightarrow> nat"
  wq_ShutDown :: "'q \<Rightarrow> 'q"

datatype metric =
    EventsFilteredTotal string string FilterReason
  | FaultEventsTotal string Severity string
  | DiagnosticGatherDuration string duration
  | AnalyzerLatency duration
  | AnalyzerRequestsTotal string string
  | AnalyzerTokensUsedTotal string string goint
  | SinkDeliveriesTotal string string

record ('g, 's) Pipeline =
  pl_filter :: "Engine option"
  pl_correlator :: Correlator
  pl_gathering :: 'g
  pl_analysis :: PriorityQueue
  pl_sink :: 's
  pl_next :: nat
  pl_metrics :: "metric list"

definition NewPipeline ::
    "PipelineConfig \<Rightarrow> bool \<Rightarrow> bool \<Rightarrow> Engine option \<Rightarrow> 'g \<Rightarrow> 's \<Rightarrow> pipeline_error + ('g, 's) Pipeline" where
  "NewPipeline cfg metrics analyzer_set filt g0 s0 =
     (case ValidatePipelineConfig cfg of
        Some e \<Rightarrow> Inl e
      | None \<Rightarrow>
          if \<not> metrics then Inl MetricsNotSet
          else if \<not> analyzer_set then Inl AnalyzerNotSet
          else case NewCorrelator (pc_Correlation cfg) True metrics of
              Inl e \<Rightarrow> Inl (CorrelationConfig e)
            | Inr c \<Rightarrow> Inr \<lparr>pl_filter = filt, pl_correlator = c, pl_gathering = g0,
                pl_analysis = NewPriorityQueue ''analysis'', pl_sink = s0, pl_next = 0, pl_metrics = []\<rparr>)"

definition observe :: "metric list \<Rightarrow> ('g, 's) Pipeline \<Rightarrow> ('g, 's) Pipeline" where
  "observe ms pl = pl\<lparr>pl_metrics := pl_metrics pl @ ms\<rparr>"

section \<open>Submission\<close>

definition gathering_Add :: "('g, nat \<times> GatherItem) workqueue \<Rightarrow> ('g, 's) Pipeline \<Rightarrow> GatherItem \<Rightarrow> ('g, 's) Pipeline" where
  "gathering_Add wg pl item =
     pl\<lparr>pl_gathering := wq_Add wg (pl_gathering pl) (pl_next pl, item), pl_next := pl_next pl + 1\<rparr>"

definition handleCorrelationResult ::
    "('g, nat \<times> GatherItem) workqueue \<Rightarrow> CorrelationResult \<Rightarrow> ('g, 's) Pipeline \<Rightarrow> ('g, 's) Pipeline" where
  "handleCorrelationResult wg result pl =
     foldl (\<lambda>pl fe. gathering_Add wg pl \<lparr>gi_FaultEvent = Some fe, gi_SuperEvent = None\<rparr>)
       (foldl (\<lambda>pl se. gathering_Add wg pl \<lparr>gi_FaultEvent = None, gi_SuperEvent = Some se\<rparr>)
          pl (cr_SuperEvents result))
       (cr_UncorrelatedEvents result)"

definition correlator_output ::
    "('g, nat \<times> GatherItem) workqueue \<Rightarrow> Correlator \<times> CorrelationResult option \<Rightarrow> ('g, 's) Pipeline \<Rightarrow> ('g, 's) Pipeline" where
  "correlator_output wg out pl =
     (case out of
        (c, None) \<Rightarrow> pl\<lparr>pl_correlator := c\<rparr>
      | (c, Some result) \<Rightarrow> handleCorrelationResult wg result (pl\<lparr>pl_correlator := c\<rparr>))"

definition excluded_reason :: "gotime \<Rightarrow> ('g, 's) Pipeline \<Rightarrow> FilterInput \<Rightarrow> FilterReason option" where
  "excluded_reason now pl input =
     (case pl_filter pl of
        None \<Rightarrow> None
      | Some e \<Rightarrow> (let result = Evaluate now e input in
          if fr_Excluded result then Some (fr_Reason result) else None))"

definition SubmitFaultEvent ::
    "('g, nat \<times> GatherItem) workqueue \<Rightarrow> gotime \<Rightarrow> FaultEvent option \<Rightarrow> FilterInput \<Rightarrow> ('g, 's) Pipeline \<Rightarrow> ('g, 's) Pipeline" where
  "SubmitFaultEvent wg now event input pl =
     (case event of
        None \<Rightarrow> pl
      | Some e \<Rightarrow>
          (case excluded_reason now pl input of
             Some reason \<Rightarrow>
               observe [EventsFilteredTotal (fe_DetectorName e) (ref_Namespace (fe_Resource e)) reason] pl
           | None \<Rightarrow>
               correlator_output wg (Submit (pl_correlator pl) e)
                 (observe [FaultEventsTotal (fe_DetectorName e) (fe_Severity e) (ref_Namespace (fe_Resource e))] pl)))"

section \<open>The stages\<close>

definition enqueue_bundle :: "duration \<Rightarrow> Severity \<Rightarrow> DiagnosticBundle \<Rightarrow> ('g, 's) Pipeline \<Rightarrow> ('g, 's) Pipeline" where
  "enqueue_bundle dur severity b pl =
     (let pl1 = observe (map (\<lambda>s. DiagnosticGatherDuration (sec_GathererName s) dur)
                   (filter (\<lambda>s. sec_GathererName s \<noteq> []) (db_Sections b))) pl
      in pl1\<lparr>pl_analysis := Add (pl_analysis pl1) \<lparr>ai_Bundle = b, ai_Severity = severity\<rparr>\<rparr>)"

text \<open>\<open>None\<close> is the panic of \<open>RunAll\<close>.\<close>

definition processGatherItem ::
    "(nat \<Rightarrow> nat list) \<Rightarrow> Gatherer list \<Rightarrow> gotime \<Rightarrow> duration \<Rightarrow> GatherItem \<Rightarrow> ('g, 's) Pipeline \<Rightarrow>
     ('g, 's) Pipeline option" where
  "processGatherItem sched gs now dur item pl =
     (case gi_SuperEvent item of
        Some se \<Rightarrow>
          (case RunAll sched gs (se_PrimaryResource se) of
             None \<Rightarrow> None
           | Some sections \<Rightarrow>
               Some (enqueue_bundle dur (se_Severity se) (NewSuperEventDiagnosticBundle now (Some se) sections) pl))
      | None \<Rightarrow>
          (case gi_FaultEvent item of
             Some fe \<Rightarrow>
               (case RunAll sched gs (fe_Resource fe) of
                  None \<Rightarrow> None
                | Some sections \<Rightarrow>
                    Some (enqueue_bundle dur (fe_Severity fe) (NewDiagnosticBundle now (Some fe) sections) pl))
           | None \<Rightarrow> Some pl))"

definition item_event_id :: "AnalysisItem \<Rightarrow> string" where
  "item_event_id item =
     (case db_FaultEvent (ai_Bundle item) of
        Some fe \<Rightarrow> fe_ID fe
      | None \<Rightarrow> (case db_SuperEvent (ai_Bundle item) of Some se \<Rightarrow> se_ID se | None \<Rightarrow> []))"

definition analyzer_error_text :: "analyzer_error \<Rightarrow> string" where
  "analyzer_error_text e =
     (case e of
        ContextError s \<Rightarrow> s
      | NoopEmptyBundle \<Rightarrow> ''noop: bundle has neither FaultEvent nor SuperEvent''
      | BackendError s \<Rightarrow> s)"

definition analysis_failed :: string where
  "analysis_failed = ''Automated analysis failed '' @ [CHR 0xE2, CHR 0x80, CHR 0x94] @
     '' raw diagnostics attached''"

definition fallback_report :: "string \<Rightarrow> gotime \<Rightarrow> AnalysisItem \<Rightarrow> analyzer_error \<Rightarrow> RCAReport" where
  "fallback_report name now item err =
     \<lparr>rca_FaultEventID = item_event_id item, rca_Timestamp = now, rca_RootCause = analysis_failed,
      rca_Severity = ai_Severity item, rca_Category = ''unknown'', rca_Systemic = False,
      rca_BlastRadius = [], rca_Remediation = [], rca_RelatedResources = [], rca_Confidence = 0,
      rca_RawAnalysis = analyzer_error_text err, rca_DiagnosticBundle = ai_Bundle item,
      rca_AnalyzerBackend = name, rca_TokensUsed = \<lparr>tok_Input = 0, tok_Output = 0\<rparr>\<rparr>"

definition sink_Add :: "('s, nat \<times> SinkItem) workqueue \<Rightarrow> SinkItem \<Rightarrow> ('g, 's) Pipeline \<Rightarrow> ('g, 's) Pipeline" where
  "sink_Add ws item pl =
     pl\<lparr>pl_sink := wq_Add ws (pl_sink pl) (pl_next pl, item), pl_next := pl_next pl + 1\<rparr>"

definition processAnalysisItem ::
    "('s, nat \<times> SinkItem) workqueue \<Rightarrow> string \<Rightarrow> gotime \<Rightarrow> duration \<Rightarrow> AnalysisItem \<Rightarrow>
     analyzer_error + RCAReport \<Rightarrow> ('g, 's) Pipeline \<Rightarrow> ('g, 's) Pipeline" where
  "processAnalysisItem ws name now dur item outcome pl =
     (case outcome of
        Inl err \<Rightarrow>
          sink_Add ws \<lparr>si_Report = Some (fallback_report name now item err)\<rparr>
            (observe [AnalyzerLatency dur, AnalyzerRequestsTotal name ''error''] pl)
      | Inr report \<Rightarrow>
          sink_Add ws \<lparr>si_Report = Some report\<rparr>
            (observe [AnalyzerLatency dur, AnalyzerRequestsTotal name ''success'',
               AnalyzerTokensUsedTotal name ''input'' (tok_Input (rca_TokensUsed report)),
               AnalyzerTokensUsedTotal name ''output'' (tok_Output (rca_TokensUsed report))] pl))"

text \<open>
  A delivery attempt is the sink's name, the report and the error, if any. \<open>outcomes\<close> gives the
  result of the call of each sink by its position.
\<close>

type_synonym attempt = "string \<times> RCAReport \<times> string option"

fun deliver_loop :: "(nat \<Rightarrow> string option) \<Rightarrow> nat \<Rightarrow> string list \<Rightarrow> RCAReport \<Rightarrow> metric list \<times> attempt list" where
  "deliver_loop outcomes i [] report = ([], [])"
| "deliver_loop outcomes i (s # sinks) report =
     (case deliver_loop outcomes (Suc i) sinks report of
        (ms, as) \<Rightarrow>
          (case outcomes i of
             Some err \<Rightarrow> (SinkDeliveriesTotal s ''failure'' # ms, (s, report, Some err) # as)
           | None \<Rightarrow> (SinkDeliveriesTotal s ''success'' # ms, (s, report, None) # as)))"

definition processSinkItem ::
    "string list \<Rightarrow> (nat \<Rightarrow> string option) \<Rightarrow> SinkItem \<Rightarrow> ('g, 's) Pipeline \<Rightarrow> ('g, 's) Pipeline \<times> attempt list" where
  "processSinkItem sinks outcomes item pl =
     (case si_Report item of
        None \<Rightarrow> (pl, [])
      | Some report \<Rightarrow>
          (case deliver_loop outcomes 0 sinks report of (ms, as) \<Rightarrow> (observe ms pl, as)))"
section \<open>Shutdown\<close>

text \<open>
  \<open>drainStageWithTimeout\<close> polls the length of the queue; its argument lists the lengths it reads
  before the timeout, and the result says whether it saw the queue empty. \<open>Queues_ShutDown\<close> is the
  part of \<open>Queues.ShutDown\<close> that concerns the queues in use.
\<close>

definition drainStageWithTimeout :: "nat list \<Rightarrow> bool" where
  "drainStageWithTimeout polls = list_ex (\<lambda>n. n = 0) polls"

definition Queues_ShutDown ::
    "('g, nat \<times> GatherItem) workqueue \<Rightarrow> ('s, nat \<times> SinkItem) workqueue \<Rightarrow> ('g, 's) Pipeline \<Rightarrow> ('g, 's) Pipeline" where
  "Queues_ShutDown wg ws pl =
     pl\<lparr>pl_gathering := wq_ShutDown wg (pl_gathering pl), pl_analysis := ShutDown (pl_analysis pl),
        pl_sink := wq_ShutDown ws (pl_sink pl)\<rparr>"

section \<open>What a stage expects of its queue\<close>

locale stage_queue =
  fixes add :: "'q \<Rightarrow> 'x \<Rightarrow> 'q"
    and get :: "'q \<Rightarrow> ('x \<times> 'q) option"
    and finish :: "'q \<Rightarrow> 'x \<Rightarrow> 'q"
    and pending :: "'q \<Rightarrow> 'x multiset"
    and up :: "'q \<Rightarrow> bool"
    and fresh :: "'q \<Rightarrow> 'x \<Rightarrow> bool"
  assumes add_pending: "up q \<Longrightarrow> fresh q x \<Longrightarrow> pending (add q x) = add_mset x (pending q)"
    and add_up: "up q \<Longrightarrow> fresh q x \<Longrightarrow> up (add q x)"
    and add_fresh: "up q \<Longrightarrow> fresh q x \<Longrightarrow> fresh q y \<Longrightarrow> x \<noteq> y \<Longrightarrow> fresh (add q x) y"
    and get_none: "up q \<Longrightarrow> get q = None \<longleftrightarrow> pending q = {#}"
    and get_pending: "up q \<Longrightarrow> get q = Some (x, q') \<Longrightarrow> pending q = add_mset x (pending q')"
    and get_up: "up q \<Longrightarrow> get q = Some (x, q') \<Longrightarrow> up q'"
    and get_fresh: "up q \<Longrightarrow> get q = Some (x, q') \<Longrightarrow> fresh q y \<Longrightarrow> fresh q' y"
    and finish_pending: "up q \<Longrightarrow> pending (finish q x) = pending q"
    and finish_up: "up q \<Longrightarrow> up (finish q x)"
    and finish_fresh: "up q \<Longrightarrow> fresh q y \<Longrightarrow> fresh (finish q x) y"

lemma Done_frames [simp]:
  "pq_view (Done q) = pq_view q" "pq_open (Done q) = pq_open q" "pq_shutdown (Done q) = pq_shutdown q"
  by (simp_all add: Done_def pq_view_def pq_open_def pq_wf_def)

interpretation aq: stage_queue Add get_item "\<lambda>q x. Done q" "\<lambda>q. mset (pq_view q)" pq_open "\<lambda>q x. True"
  by unfold_locales (auto simp: pq.add_view pq.add_ok pq.get_none dest: pq.get_view intro: pq.get_ok)

section \<open>The pipeline at work\<close>

record pipeline_run_env =
  pe_gatherers :: "Gatherer list"
  pe_sinks :: "string list"
  pe_backend :: string
  pe_config :: PipelineConfig

record ('g, 's) pipeline_run =
  pr_pl :: "('g, 's) Pipeline"
  pr_gathering :: "(nat \<times> GatherItem) multiset"
  pr_analyzing :: "AnalysisItem multiset"
  pr_delivering :: "(nat \<times> SinkItem) multiset"
  pr_accepted :: "FaultEvent list"
  pr_delivered :: "RCAReport list"
  pr_attempts :: "attempt list"

text \<open>
  The steps. \<open>pr_accepted\<close>, \<open>pr_delivered\<close> and \<open>pr_attempts\<close> record the events that passed the
  filter, the reports whose delivery is complete and the calls of \<open>Deliver\<close>. The analyzer is called
  outside the queue's lock and may be shared by the workers, so a call may see any of its states.
\<close>

inductive pipeline_step ::
    "('g, nat \<times> GatherItem) workqueue \<Rightarrow> ('s, nat \<times> SinkItem) workqueue \<Rightarrow> ('t, 'r) analyze \<Rightarrow> pipeline_run_env \<Rightarrow>
     ('g, 's) pipeline_run \<Rightarrow> ('g, 's) pipeline_run \<Rightarrow> bool"
  for wg ws analyze E where
  filtered: "excluded_reason now (pr_pl s) input \<noteq> None \<Longrightarrow>
    pipeline_step wg ws analyze E s (s\<lparr>pr_pl := SubmitFaultEvent wg now (Some e) input (pr_pl s)\<rparr>)"
| accepted: "excluded_reason now (pr_pl s) input = None \<Longrightarrow>
    pipeline_step wg ws analyze E s
      (s\<lparr>pr_pl := SubmitFaultEvent wg now (Some e) input (pr_pl s), pr_accepted := pr_accepted s @ [e]\<rparr>)"
| window: "permuting_orders os \<Longrightarrow>
    pipeline_step wg ws analyze E s
      (s\<lparr>pr_pl := correlator_output wg (evaluateAndEmit env os (pl_correlator (pr_pl s))) (pr_pl s)\<rparr>)"
| gather_get: "wq_Get wg (pl_gathering (pr_pl s)) = Some (x, q) \<Longrightarrow>
    int (size (pr_gathering s)) < wc_Gathering (pc_Workers (pe_config E)) \<Longrightarrow>
    pipeline_step wg ws analyze E s
      (s\<lparr>pr_pl := (pr_pl s)\<lparr>pl_gathering := q\<rparr>, pr_gathering := add_mset x (pr_gathering s)\<rparr>)"
| gather_done: "x \<in># pr_gathering s \<Longrightarrow>
    processGatherItem sched (pe_gatherers E) now dur (snd x) (pr_pl s) = Some pl \<Longrightarrow>
    pipeline_step wg ws analyze E s
      (s\<lparr>pr_pl := pl\<lparr>pl_gathering := wq_Done wg (pl_gathering pl) x\<rparr>, pr_gathering := pr_gathering s - {#x#}\<rparr>)"
| analyze_get: "get_item (pl_analysis (pr_pl s)) = Some (a, q) \<Longrightarrow>
    int (size (pr_analyzing s)) < wc_Analysis (pc_Workers (pe_config E)) \<Longrightarrow>
    pipeline_step wg ws analyze E s
      (s\<lparr>pr_pl := (pr_pl s)\<lparr>pl_analysis := q\<rparr>, pr_analyzing := add_mset a (pr_analyzing s)\<rparr>)"
| analyze_done: "a \<in># pr_analyzing s \<Longrightarrow> outcome = snd (analyze t rd (ai_Bundle a)) \<Longrightarrow>
    pl = processAnalysisItem ws (pe_backend E) now dur a outcome (pr_pl s) \<Longrightarrow>
    pipeline_step wg ws analyze E s
      (s\<lparr>pr_pl := pl\<lparr>pl_analysis := Done (pl_analysis pl)\<rparr>, pr_analyzing := pr_analyzing s - {#a#}\<rparr>)"
| sink_get: "wq_Get ws (pl_sink (pr_pl s)) = Some (y, q) \<Longrightarrow>
    int (size (pr_delivering s)) < wc_Sink (pc_Workers (pe_config E)) \<Longrightarrow>
    pipeline_step wg ws analyze E s
      (s\<lparr>pr_pl := (pr_pl s)\<lparr>pl_sink := q\<rparr>, pr_delivering := add_mset y (pr_delivering s)\<rparr>)"
| sink_done: "y \<in># pr_delivering s \<Longrightarrow> processSinkItem (pe_sinks E) outcomes (snd y) (pr_pl s) = (pl, as) \<Longrightarrow>
    pipeline_step wg ws analyze E s
      (s\<lparr>pr_pl := pl\<lparr>pl_sink := wq_Done ws (pl_sink pl) y\<rparr>, pr_delivering := pr_delivering s - {#y#},
         pr_delivered := pr_delivered s @ (case si_Report (snd y) of None \<Rightarrow> [] | Some r \<Rightarrow> [r]),
         pr_attempts := pr_attempts s @ as\<rparr>)"

definition pipeline_init :: "('g, 's) Pipeline \<Rightarrow> ('g, 's) pipeline_run" where
  "pipeline_init pl = \<lparr>pr_pl = pl, pr_gathering = {#}, pr_analyzing = {#}, pr_delivering = {#},
     pr_accepted = [], pr_delivered = [], pr_attempts = []\<rparr>"

inductive pipeline_reaches ::
    "('g, nat \<times> GatherItem) workqueue \<Rightarrow> ('s, nat \<times> SinkItem) workqueue \<Rightarrow> ('t, 'r) analyze \<Rightarrow> pipeline_run_env \<Rightarrow>
     ('g, 's) Pipeline \<Rightarrow> ('g, 's) pipeline_run \<Rightarrow> bool"
  for wg ws analyze E pl where
  start: "pipeline_reaches wg ws analyze E pl (pipeline_init pl)"
| step: "pipeline_reaches wg ws analyze E pl s \<Longrightarrow> pipeline_step wg ws analyze E s s' \<Longrightarrow>
    pipeline_reaches wg ws analyze E pl s'"

section \<open>Where the events are\<close>

definition gather_events :: "nat \<times> GatherItem \<Rightarrow> FaultEvent multiset" where
  "gather_events x = (case gi_SuperEvent (snd x) of
     Some se \<Rightarrow> mset (se_FaultEvents se)
   | None \<Rightarrow> (case gi_FaultEvent (snd x) of Some fe \<Rightarrow> {#fe#} | None \<Rightarrow> {#}))"

definition bundle_events :: "DiagnosticBundle \<Rightarrow> FaultEvent multiset" where
  "bundle_events b = (case db_SuperEvent b of
     Some se \<Rightarrow> mset (se_FaultEvents se)
   | None \<Rightarrow> (case db_FaultEvent b of Some fe \<Rightarrow> {#fe#} | None \<Rightarrow> {#}))"

definition item_events :: "AnalysisItem \<Rightarrow> FaultEvent multiset" where
  "item_events a = bundle_events (ai_Bundle a)"

definition report_events :: "RCAReport \<Rightarrow> FaultEvent multiset" where
  "report_events r = bundle_events (rca_DiagnosticBundle r)"

definition sink_events :: "nat \<times> SinkItem \<Rightarrow> FaultEvent multiset" where
  "sink_events y = (case si_Report (snd y) of Some r \<Rightarrow> report_events r | None \<Rightarrow> {#})"

definition load :: "('x \<Rightarrow> FaultEvent multiset) \<Rightarrow> 'x multiset \<Rightarrow> FaultEvent multiset" where
  "load f M = \<Sum>\<^sub># (image_mset f M)"

lemma load_simps [simp]:
  "load f {#} = {#}" "load f (add_mset x M) = f x + load f M"
  by (simp_all add: load_def)

lemma load_remove: "x \<in># M \<Longrightarrow> load f M = f x + load f (M - {#x#})"
  by (metis insert_DiffM load_simps(2))

definition pl_ok ::
    "('g \<Rightarrow> bool) \<Rightarrow> ('g \<Rightarrow> nat \<times> GatherItem \<Rightarrow> bool) \<Rightarrow> ('s \<Rightarrow> bool) \<Rightarrow> ('s \<Rightarrow> nat \<times> SinkItem \<Rightarrow> bool) \<Rightarrow>
     ('g, 's) Pipeline \<Rightarrow> bool" where
  "pl_ok ug fg us fs pl \<longleftrightarrow>
     ug (pl_gathering pl) \<and> us (pl_sink pl) \<and> pq_open (pl_analysis pl) \<and>
     (\<forall>x. pl_next pl \<le> fst x \<longrightarrow> fg (pl_gathering pl) x) \<and> (\<forall>y. pl_next pl \<le> fst y \<longrightarrow> fs (pl_sink pl) y)"

definition pl_load ::
    "('g \<Rightarrow> (nat \<times> GatherItem) multiset) \<Rightarrow> ('s \<Rightarrow> (nat \<times> SinkItem) multiset) \<Rightarrow> ('g, 's) Pipeline \<Rightarrow> FaultEvent multiset" where
  "pl_load pg ps pl = mset (co_buffer (pl_correlator pl)) + load gather_events (pg (pl_gathering pl)) +
     load item_events (mset (pq_view (pl_analysis pl))) + load sink_events (ps (pl_sink pl))"

definition events_inside ::
    "('g \<Rightarrow> (nat \<times> GatherItem) multiset) \<Rightarrow> ('s \<Rightarrow> (nat \<times> SinkItem) multiset) \<Rightarrow> ('g, 's) pipeline_run \<Rightarrow> FaultEvent multiset" where
  "events_inside pg ps s = pl_load pg ps (pr_pl s) + load gather_events (pr_gathering s) +
     load item_events (pr_analyzing s) + load sink_events (pr_delivering s)"

definition attempts_of :: "string list \<Rightarrow> RCAReport list \<Rightarrow> (string \<times> RCAReport) list" where
  "attempts_of sinks reports = concat (map (\<lambda>r. map (\<lambda>n. (n, r)) sinks) reports)"

definition pipeline_inv where
  "pipeline_inv pg ug fg ps us fs E s \<longleftrightarrow> pl_ok ug fg us fs (pr_pl s) \<and>
     mset (pr_accepted s) = events_inside pg ps s + load report_events (mset (pr_delivered s)) \<and>
     map (\<lambda>(n, r, e). (n, r)) (pr_attempts s) = attempts_of (pe_sinks E) (pr_delivered s)"

section \<open>Every operation moves the events on\<close>

lemma observe_frames [simp]:
  "pl_ok ug fg us fs (observe ms pl) = pl_ok ug fg us fs pl" "pl_load pg ps (observe ms pl) = pl_load pg ps pl"
  "pl_correlator (observe ms pl) = pl_correlator pl" "pl_analysis (observe ms pl) = pl_analysis pl"
  "pl_gathering (observe ms pl) = pl_gathering pl" "pl_sink (observe ms pl) = pl_sink pl"
  "pl_next (observe ms pl) = pl_next pl"
  by (simp_all add: observe_def pl_ok_def pl_load_def)

lemma gather_events_addr: "gather_events (a, item) = gather_events (b, item)"
  unfolding gather_events_def snd_conv ..

lemma sink_events_addr: "sink_events (a, item) = sink_events (b, item)"
  unfolding sink_events_def snd_conv ..

lemma gathering_Add_moves:
  assumes G: "stage_queue (wq_Add wg) (wq_Get wg) (wq_Done wg) pg ug fg" and ok: "pl_ok ug fg us fs pl"
  shows "pl_ok ug fg us fs (gathering_Add wg pl item)"
    "pl_load pg ps (gathering_Add wg pl item) = pl_load pg ps pl + gather_events (0, item)"
proof -
  let ?x = "(pl_next pl, item)"
  have fr: "fg (pl_gathering pl) x" if "pl_next pl \<le> fst x" for x using ok that unfolding pl_ok_def by blast
  have up: "ug (pl_gathering pl)" using ok by (simp add: pl_ok_def)
  have "fg (wq_Add wg (pl_gathering pl) ?x) y" if "Suc (pl_next pl) \<le> fst y" for y
    using stage_queue.add_fresh [OF G up fr [of ?x] fr [of y]] that by (cases y) auto
  then show "pl_ok ug fg us fs (gathering_Add wg pl item)"
    using ok stage_queue.add_up [OF G up fr [of ?x]] by (auto simp: pl_ok_def gathering_Add_def)
  show "pl_load pg ps (gathering_Add wg pl item) = pl_load pg ps pl + gather_events (0, item)"
    using stage_queue.add_pending [OF G up fr [of ?x]] gather_events_addr [of "pl_next pl" item 0]
    by (simp add: pl_load_def gathering_Add_def)
qed

lemma sink_Add_moves:
  assumes S: "stage_queue (wq_Add ws) (wq_Get ws) (wq_Done ws) ps us fs" and ok: "pl_ok ug fg us fs pl"
  shows "pl_ok ug fg us fs (sink_Add ws item pl)"
    "pl_load pg ps (sink_Add ws item pl) = pl_load pg ps pl + sink_events (0, item)"
proof -
  let ?x = "(pl_next pl, item)"
  have fr: "fs (pl_sink pl) x" if "pl_next pl \<le> fst x" for x using ok that unfolding pl_ok_def by blast
  have up: "us (pl_sink pl)" using ok by (simp add: pl_ok_def)
  have "fs (wq_Add ws (pl_sink pl) ?x) y" if "Suc (pl_next pl) \<le> fst y" for y
    using stage_queue.add_fresh [OF S up fr [of ?x] fr [of y]] that by (cases y) auto
  then show "pl_ok ug fg us fs (sink_Add ws item pl)"
    using ok stage_queue.add_up [OF S up fr [of ?x]] by (auto simp: pl_ok_def sink_Add_def)
  show "pl_load pg ps (sink_Add ws item pl) = pl_load pg ps pl + sink_events (0, item)"
    using stage_queue.add_pending [OF S up fr [of ?x]] sink_events_addr [of "pl_next pl" item 0]
    by (simp add: pl_load_def sink_Add_def)
qed

lemma gathering_Add_all:
  assumes G: "stage_queue (wq_Add wg) (wq_Get wg) (wq_Done wg) pg ug fg" and "pl_ok ug fg us fs pl"
  shows "pl_ok ug fg us fs (foldl (\<lambda>pl x. gathering_Add wg pl (f x)) pl xs) \<and>
    pl_load pg ps (foldl (\<lambda>pl x. gathering_Add wg pl (f x)) pl xs) =
      pl_load pg ps pl + (\<Sum>x\<leftarrow>xs. gather_events (0, f x))"
  using assms(2)
proof (induction xs arbitrary: pl)
  case (Cons x xs)
  note m = gathering_Add_moves [OF G Cons.prems, where item = "f x"]
  show ?case using Cons.IH [OF m(1)] m(2) by (simp add: ac_simps)
qed simp

lemma handleCorrelationResult_moves:
  assumes G: "stage_queue (wq_Add wg) (wq_Get wg) (wq_Done wg) pg ug fg" and ok: "pl_ok ug fg us fs pl"
  shows "pl_ok ug fg us fs (handleCorrelationResult wg result pl) \<and>
    pl_load pg ps (handleCorrelationResult wg result pl) = pl_load pg ps pl + mset (result_events result)"
proof -
  have sup: "(\<Sum>se\<leftarrow>ses. gather_events (0, \<lparr>gi_FaultEvent = None, gi_SuperEvent = Some se\<rparr>)) =
      mset (concat (map se_FaultEvents ses))" for ses by (induction ses) (simp_all add: gather_events_def)
  have fau: "(\<Sum>fe\<leftarrow>fes. gather_events (0, \<lparr>gi_FaultEvent = Some fe, gi_SuperEvent = None\<rparr>)) = mset fes"
    for fes by (induction fes) (simp_all add: gather_events_def)
  note first = gathering_Add_all [OF G ok, where ps = ps and xs = "cr_SuperEvents result" and
      f = "\<lambda>se. \<lparr>gi_FaultEvent = None, gi_SuperEvent = Some se\<rparr>"]
  show ?thesis
    using gathering_Add_all [OF G conjunct1 [OF first], where ps = ps and xs = "cr_UncorrelatedEvents result" and
        f = "\<lambda>fe. \<lparr>gi_FaultEvent = Some fe, gi_SuperEvent = None\<rparr>"] first
    by (simp add: handleCorrelationResult_def result_events_def sup fau)
qed

lemma correlator_output_moves:
  assumes G: "stage_queue (wq_Add wg) (wq_Get wg) (wq_Done wg) pg ug fg" and ok: "pl_ok ug fg us fs pl"
    and emits: "mset (case out of None \<Rightarrow> [] | Some r \<Rightarrow> result_events r) + mset (co_buffer c) =
      mset (co_buffer (pl_correlator pl)) + E"
  shows "pl_ok ug fg us fs (correlator_output wg (c, out) pl) \<and>
    pl_load pg ps (correlator_output wg (c, out) pl) = pl_load pg ps pl + E"
proof -
  have ok': "pl_ok ug fg us fs (pl\<lparr>pl_correlator := c\<rparr>)" using ok by (simp add: pl_ok_def)
  have l: "pl_load pg ps (pl\<lparr>pl_correlator := c\<rparr>) + mset (case out of None \<Rightarrow> [] | Some r \<Rightarrow> result_events r) = pl_load pg ps pl + E"
    using emits by (simp add: pl_load_def ac_simps)
  show ?thesis
    using handleCorrelationResult_moves [OF G ok'] l ok'
    by (cases out) (simp_all add: correlator_output_def)
qed

lemma enqueue_bundle_moves:
  assumes "pl_ok ug fg us fs pl"
  shows "pl_ok ug fg us fs (enqueue_bundle dur sev b pl) \<and>
    pl_load pg ps (enqueue_bundle dur sev b pl) = pl_load pg ps pl + bundle_events b"
proof -
  have "pq_open (pl_analysis pl)" using assms by (simp add: pl_ok_def)
  note a = aq.add_up [OF this] aq.add_pending [OF this]
  show ?thesis
    using assms a by (simp add: enqueue_bundle_def Let_def pl_ok_def pl_load_def item_events_def)
qed

lemma processGatherItem_moves:
  assumes "pl_ok ug fg us fs pl" "processGatherItem sched gs now dur (snd x) pl = Some pl'"
  shows "pl_ok ug fg us fs pl' \<and> pl_load pg ps pl' = pl_load pg ps pl + gather_events x \<and>
    pl_gathering pl' = pl_gathering pl"
proof -
  have enq: "pl_ok ug fg us fs (enqueue_bundle dur sev b pl)" "pl_gathering (enqueue_bundle dur sev b pl) = pl_gathering pl"
    "pl_load pg ps (enqueue_bundle dur sev b pl) = pl_load pg ps pl + bundle_events b" for sev b
    using enqueue_bundle_moves [OF assms(1)] by simp_all (simp add: enqueue_bundle_def Let_def)
  have ev: "bundle_events (NewSuperEventDiagnosticBundle now (Some se) secs) = mset (se_FaultEvents se)"
    "bundle_events (NewDiagnosticBundle now (Some fe) secs) = {#fe#}" for se fe secs
    by (simp_all add: bundle_events_def NewSuperEventDiagnosticBundle_def NewDiagnosticBundle_def)
  show ?thesis
    using assms by (auto simp: processGatherItem_def gather_events_def enq ev split: option.splits)
qed

lemma processAnalysisItem_moves:
  assumes S: "stage_queue (wq_Add ws) (wq_Get ws) (wq_Done ws) ps us fs" and A: "analyzer analyze"
    and ok: "pl_ok ug fg us fs pl" and outcome: "outcome = snd (analyze t rd (ai_Bundle a))"
  shows "pl_ok ug fg us fs (processAnalysisItem ws name now dur a outcome pl) \<and>
    pl_load pg ps (processAnalysisItem ws name now dur a outcome pl) = pl_load pg ps pl + item_events a \<and>
    pl_analysis (processAnalysisItem ws name now dur a outcome pl) = pl_analysis pl"
proof -
  have "\<exists>ms r. processAnalysisItem ws name now dur a outcome pl = sink_Add ws \<lparr>si_Report = Some r\<rparr> (observe ms pl) \<and>
      rca_DiagnosticBundle r = ai_Bundle a"
  proof (cases outcome)
    case (Inl err)
    then show ?thesis
      by (intro exI [of _ "[AnalyzerLatency dur, AnalyzerRequestsTotal name ''error'']"]
          exI [of _ "fallback_report name now a err"]) (simp add: processAnalysisItem_def fallback_report_def)
  next
    case (Inr report)
    then have "rca_DiagnosticBundle report = ai_Bundle a"
      using analyzer.about_bundle [OF A, of t rd "ai_Bundle a" report] outcome by simp
    then show ?thesis using Inr by (auto simp: processAnalysisItem_def)
  qed
  then obtain ms r where p: "processAnalysisItem ws name now dur a outcome pl = sink_Add ws \<lparr>si_Report = Some r\<rparr> (observe ms pl)"
    and r: "rca_DiagnosticBundle r = ai_Bundle a" by blast
  have "pl_ok ug fg us fs (observe ms pl)" using ok by simp
  note m = sink_Add_moves [OF S this, where item = "\<lparr>si_Report = Some r\<rparr>"]
  show ?thesis
    unfolding p using m by (simp add: r sink_events_def report_events_def item_events_def) (simp add: sink_Add_def)
qed

lemma deliver_loop_all:
  "map (\<lambda>(n, r, e). (n, r)) (snd (deliver_loop outcomes i sinks report)) = map (\<lambda>n. (n, report)) sinks"
proof (induction sinks arbitrary: i)
  case (Cons s sinks)
  obtain ms as where r: "deliver_loop outcomes (Suc i) sinks report = (ms, as)" by fastforce
  show ?case using Cons.IH [of "Suc i"] by (simp add: r split: option.split)
qed simp

lemma processSinkItem_attempts:
  assumes "processSinkItem sinks outcomes item pl = (pl', as)"
  shows "map (\<lambda>(n, r, e). (n, r)) as = attempts_of sinks (case si_Report item of None \<Rightarrow> [] | Some r \<Rightarrow> [r]) \<and>
    pl_ok ug fg us fs pl' = pl_ok ug fg us fs pl \<and> pl_load pg ps pl' = pl_load pg ps pl \<and> pl_sink pl' = pl_sink pl"
  using assms deliver_loop_all [of outcomes 0 sinks]
  by (auto simp: processSinkItem_def attempts_of_def split: option.splits prod.splits)
    (metis snd_conv)+

lemma SubmitFaultEvent_moves:
  assumes G: "stage_queue (wq_Add wg) (wq_Get wg) (wq_Done wg) pg ug fg" and ok: "pl_ok ug fg us fs pl"
  shows "pl_ok ug fg us fs (SubmitFaultEvent wg now (Some e) input pl) \<and>
    pl_load pg ps (SubmitFaultEvent wg now (Some e) input pl) =
      pl_load pg ps pl + (if excluded_reason now pl input = None then {#e#} else {#})"
proof (cases "excluded_reason now pl input")
  case None
  let ?pl = "observe [FaultEventsTotal (fe_DetectorName e) (fe_Severity e) (ref_Namespace (fe_Resource e))] pl"
  obtain c out where r: "Submit (pl_correlator pl) e = (c, out)" by (cases "Submit (pl_correlator pl) e")
  have "mset (case out of None \<Rightarrow> [] | Some r \<Rightarrow> result_events r) + mset (co_buffer c) =
      mset (co_buffer (pl_correlator ?pl)) + {#e#}"
    using r by (auto simp: Submit_def result_events_def split: if_splits)
  from correlator_output_moves [OF G _ this, of us fs ps] show ?thesis
    using None ok by (simp add: SubmitFaultEvent_def r)
next
  case (Some reason)
  then show ?thesis using ok by (simp add: SubmitFaultEvent_def)
qed

lemma window_moves:
  assumes G: "stage_queue (wq_Add wg) (wq_Get wg) (wq_Done wg) pg ug fg" and ok: "pl_ok ug fg us fs pl"
    and os: "permuting_orders os" and d: "distinct (map fe_ID (co_buffer (pl_correlator pl)))"
  shows "pl_ok ug fg us fs (correlator_output wg (evaluateAndEmit env os (pl_correlator pl)) pl) \<and>
    pl_load pg ps (correlator_output wg (evaluateAndEmit env os (pl_correlator pl)) pl) = pl_load pg ps pl"
proof -
  obtain c out where r: "evaluateAndEmit env os (pl_correlator pl) = (c, out)"
    by (cases "evaluateAndEmit env os (pl_correlator pl)")
  have "mset (case out of None \<Rightarrow> [] | Some r \<Rightarrow> result_events r) + mset (co_buffer c) =
      mset (co_buffer (pl_correlator pl)) + {#}"
    using evaluateAndEmit_conserves [OF os d r] by simp
  from correlator_output_moves [OF G ok this, of ps] show ?thesis by (simp add: r)
qed

section \<open>The invariant\<close>

lemma taking_gather:
  assumes G: "stage_queue (wq_Add wg) (wq_Get wg) (wq_Done wg) pg ug fg" and ok: "pl_ok ug fg us fs pl"
    and g: "wq_Get wg (pl_gathering pl) = Some (x, q)"
  shows "pl_ok ug fg us fs (pl\<lparr>pl_gathering := q\<rparr>) \<and>
    pl_load pg ps pl = pl_load pg ps (pl\<lparr>pl_gathering := q\<rparr>) + gather_events x"
proof -
  have up: "ug (pl_gathering pl)" using ok by (simp add: pl_ok_def)
  show ?thesis
    using ok stage_queue.get_up [OF G up g] stage_queue.get_fresh [OF G up g] stage_queue.get_pending [OF G up g]
    by (auto simp: pl_ok_def pl_load_def)
qed

lemma taking_analysis:
  assumes ok: "pl_ok ug fg us fs pl" and g: "get_item (pl_analysis pl) = Some (a, q)"
  shows "pl_ok ug fg us fs (pl\<lparr>pl_analysis := q\<rparr>) \<and>
    pl_load pg ps pl = pl_load pg ps (pl\<lparr>pl_analysis := q\<rparr>) + item_events a"
proof -
  have up: "pq_open (pl_analysis pl)" using ok by (simp add: pl_ok_def)
  show ?thesis using ok aq.get_up [OF up g] aq.get_pending [OF up g] by (simp add: pl_ok_def pl_load_def)
qed

lemma taking_sink:
  assumes S: "stage_queue (wq_Add ws) (wq_Get ws) (wq_Done ws) ps us fs" and ok: "pl_ok ug fg us fs pl"
    and g: "wq_Get ws (pl_sink pl) = Some (y, q)"
  shows "pl_ok ug fg us fs (pl\<lparr>pl_sink := q\<rparr>) \<and>
    pl_load pg ps pl = pl_load pg ps (pl\<lparr>pl_sink := q\<rparr>) + sink_events y"
proof -
  have up: "us (pl_sink pl)" using ok by (simp add: pl_ok_def)
  show ?thesis
    using ok stage_queue.get_up [OF S up g] stage_queue.get_fresh [OF S up g] stage_queue.get_pending [OF S up g]
    by (auto simp: pl_ok_def pl_load_def)
qed

lemma finishing:
  assumes G: "stage_queue (wq_Add wg) (wq_Get wg) (wq_Done wg) pg ug fg"
    and S: "stage_queue (wq_Add ws) (wq_Get ws) (wq_Done ws) ps us fs" and ok: "pl_ok ug fg us fs pl"
  shows "pl_ok ug fg us fs (pl\<lparr>pl_gathering := wq_Done wg (pl_gathering pl) x\<rparr>)"
    "pl_load pg ps (pl\<lparr>pl_gathering := wq_Done wg (pl_gathering pl) x\<rparr>) = pl_load pg ps pl"
    "pl_ok ug fg us fs (pl\<lparr>pl_analysis := Done (pl_analysis pl)\<rparr>)"
    "pl_load pg ps (pl\<lparr>pl_analysis := Done (pl_analysis pl)\<rparr>) = pl_load pg ps pl"
    "pl_ok ug fg us fs (pl\<lparr>pl_sink := wq_Done ws (pl_sink pl) y\<rparr>)"
    "pl_load pg ps (pl\<lparr>pl_sink := wq_Done ws (pl_sink pl) y\<rparr>) = pl_load pg ps pl"
proof -
  have up: "ug (pl_gathering pl)" "us (pl_sink pl)" using ok by (simp_all add: pl_ok_def)
  show "pl_ok ug fg us fs (pl\<lparr>pl_gathering := wq_Done wg (pl_gathering pl) x\<rparr>)"
    "pl_ok ug fg us fs (pl\<lparr>pl_sink := wq_Done ws (pl_sink pl) y\<rparr>)"
    "pl_ok ug fg us fs (pl\<lparr>pl_analysis := Done (pl_analysis pl)\<rparr>)"
    using ok stage_queue.finish_up [OF G up(1)] stage_queue.finish_fresh [OF G up(1)]
      stage_queue.finish_up [OF S up(2)] stage_queue.finish_fresh [OF S up(2)]
    by (auto simp: pl_ok_def)
  show "pl_load pg ps (pl\<lparr>pl_gathering := wq_Done wg (pl_gathering pl) x\<rparr>) = pl_load pg ps pl"
    "pl_load pg ps (pl\<lparr>pl_sink := wq_Done ws (pl_sink pl) y\<rparr>) = pl_load pg ps pl"
    "pl_load pg ps (pl\<lparr>pl_analysis := Done (pl_analysis pl)\<rparr>) = pl_load pg ps pl"
    using stage_queue.finish_pending [OF G up(1)] stage_queue.finish_pending [OF S up(2)]
    by (simp_all add: pl_load_def)
qed

lemmas inv_parts = pipeline_inv_def events_inside_def

lemma buffer_distinct:
  assumes "pipeline_inv pg ug fg ps us fs E s" "distinct (map fe_ID (pr_accepted s))"
  shows "distinct (map fe_ID (co_buffer (pl_correlator (pr_pl s))))"
proof -
  have "mset (co_buffer (pl_correlator (pr_pl s))) \<subseteq># mset (pr_accepted s)"
    using assms(1) by (simp add: inv_parts pl_load_def add.assoc)
  then have "mset (map fe_ID (co_buffer (pl_correlator (pr_pl s)))) \<subseteq># mset (map fe_ID (pr_accepted s))"
    by (simp add: image_mset_subseteq_mono)
  then show ?thesis using assms(2) by (rule mset_distinct_subset)
qed

lemma attempts_of_append [simp]: "attempts_of sinks (xs @ ys) = attempts_of sinks xs @ attempts_of sinks ys"
  by (simp add: attempts_of_def)

lemma pipeline_inv_step:
  assumes G: "stage_queue (wq_Add wg) (wq_Get wg) (wq_Done wg) pg ug fg"
    and S: "stage_queue (wq_Add ws) (wq_Get ws) (wq_Done ws) ps us fs" and A: "analyzer analyze"
    and step: "pipeline_step wg ws analyze E s s'"
    and inv: "pipeline_inv pg ug fg ps us fs E s" and d: "distinct (map fe_ID (pr_accepted s))"
  shows "pipeline_inv pg ug fg ps us fs E s'"
proof -
  have ok: "pl_ok ug fg us fs (pr_pl s)" using inv by (simp add: pipeline_inv_def)
  from step show ?thesis
  proof cases
    case (filtered now input e)
    then show ?thesis using inv SubmitFaultEvent_moves [OF G ok, of now e input ps] by (simp add: inv_parts)
  next
    case (accepted now input e)
    then show ?thesis using inv SubmitFaultEvent_moves [OF G ok, of now e input ps] by (simp add: inv_parts)
  next
    case (window os env)
    then show ?thesis
      using inv window_moves [OF G ok _ buffer_distinct [OF inv d], of os env ps] by (simp add: inv_parts)
  next
    case (gather_get x q)
    then show ?thesis using inv taking_gather [OF G ok, of x q ps] by (simp add: inv_parts ac_simps)
  next
    case (gather_done x sched now dur pl)
    note m = processGatherItem_moves [OF ok gather_done(3), of pg ps]
    have "pl_ok ug fg us fs pl" using m by blast
    from finishing(1,2) [OF G S this] m show ?thesis
      using inv gather_done load_remove [OF gather_done(2), of gather_events] by (simp add: inv_parts ac_simps)
  next
    case (analyze_get a q)
    then show ?thesis using inv taking_analysis [OF ok, of a q pg ps] by (simp add: inv_parts ac_simps)
  next
    case (analyze_done a outcome t rd pl now dur)
    note m = processAnalysisItem_moves [OF S A ok analyze_done(3), of "pe_backend E" now dur pg, folded analyze_done(4)]
    have "pl_ok ug fg us fs pl" using m by blast
    from finishing(3,4) [OF G S this] m show ?thesis
      using inv analyze_done(1,2) load_remove [OF analyze_done(2), of item_events] by (simp add: inv_parts ac_simps)
  next
    case (sink_get y q)
    then show ?thesis using inv taking_sink [OF S ok, of y q pg] by (simp add: inv_parts ac_simps)
  next
    case (sink_done y outcomes pl as)
    note m = processSinkItem_attempts [OF sink_done(3)]
    have "pl_ok ug fg us fs pl" using m ok by blast
    from finishing(5,6) [OF G S this] show ?thesis
      using inv m [of ug fg us fs pg ps] sink_done(1,2) load_remove [OF sink_done(2), of sink_events]
      by (auto simp: inv_parts ac_simps sink_events_def split: option.splits)
  qed
qed

lemma accepted_grows:
  "pipeline_step wg ws analyze E s s' \<Longrightarrow> \<exists>es. pr_accepted s' = pr_accepted s @ es"
  by (erule pipeline_step.cases) auto

lemma pipeline_reaches_inv:
  assumes G: "stage_queue (wq_Add wg) (wq_Get wg) (wq_Done wg) pg ug fg"
    and S: "stage_queue (wq_Add ws) (wq_Get ws) (wq_Done ws) ps us fs" and A: "analyzer analyze"
    and start: "pipeline_inv pg ug fg ps us fs E (pipeline_init pl)"
    and reach: "pipeline_reaches wg ws analyze E pl s" and d: "distinct (map fe_ID (pr_accepted s))"
  shows "pipeline_inv pg ug fg ps us fs E s"
  using reach d
proof (induction rule: pipeline_reaches.induct)
  case (step s s')
  have d: "distinct (map fe_ID (pr_accepted s))" using step.prems accepted_grows [OF step.hyps(2)] by auto
  show ?case by (rule pipeline_inv_step [OF G S A step.hyps(2) step.IH [OF d] d])
qed (rule start)

section \<open>Progress\<close>

definition idle ::
    "('g \<Rightarrow> (nat \<times> GatherItem) multiset) \<Rightarrow> ('s \<Rightarrow> (nat \<times> SinkItem) multiset) \<Rightarrow> ('g, 's) pipeline_run \<Rightarrow> bool" where
  "idle pg ps s \<longleftrightarrow> co_buffer (pl_correlator (pr_pl s)) = [] \<and> pg (pl_gathering (pr_pl s)) = {#} \<and>
     pr_gathering s = {#} \<and> pq_view (pl_analysis (pr_pl s)) = [] \<and> pr_analyzing s = {#} \<and>
     ps (pl_sink (pr_pl s)) = {#} \<and> pr_delivering s = {#}"

text \<open>The number of steps the items of the pipeline are away from being delivered.\<close>

definition pl_work ::
    "('g \<Rightarrow> (nat \<times> GatherItem) multiset) \<Rightarrow> ('s \<Rightarrow> (nat \<times> SinkItem) multiset) \<Rightarrow> ('g, 's) Pipeline \<Rightarrow> nat" where
  "pl_work pg ps pl = 7 * length (co_buffer (pl_correlator pl)) + 6 * size (pg (pl_gathering pl)) +
     4 * length (pq_view (pl_analysis pl)) + 2 * size (ps (pl_sink pl))"

definition work ::
    "('g \<Rightarrow> (nat \<times> GatherItem) multiset) \<Rightarrow> ('s \<Rightarrow> (nat \<times> SinkItem) multiset) \<Rightarrow> ('g, 's) pipeline_run \<Rightarrow> nat" where
  "work pg ps s = pl_work pg ps (pr_pl s) + 5 * size (pr_gathering s) + 3 * size (pr_analyzing s) +
     size (pr_delivering s)"

lemma pl_work_observe [simp]: "pl_work pg ps (observe ms pl) = pl_work pg ps pl"
  by (simp add: pl_work_def observe_def)

lemma gathering_Add_work:
  assumes G: "stage_queue (wq_Add wg) (wq_Get wg) (wq_Done wg) pg ug fg" and ok: "pl_ok ug fg us fs pl"
  shows "pl_work pg ps (gathering_Add wg pl item) = pl_work pg ps pl + 6"
proof -
  have "ug (pl_gathering pl)" "fg (pl_gathering pl) (pl_next pl, item)" using ok by (simp_all add: pl_ok_def)
  from stage_queue.add_pending [OF G this] show ?thesis by (simp add: pl_work_def gathering_Add_def)
qed

lemma gathering_Add_all_work:
  assumes G: "stage_queue (wq_Add wg) (wq_Get wg) (wq_Done wg) pg ug fg" and "pl_ok ug fg us fs pl"
  shows "pl_work pg ps (foldl (\<lambda>pl x. gathering_Add wg pl (f x)) pl xs) = pl_work pg ps pl + 6 * length xs"
  using assms(2)
proof (induction xs arbitrary: pl)
  case (Cons x xs)
  have "pl_ok ug fg us fs (gathering_Add wg pl (f x))" by (rule gathering_Add_moves(1) [OF G Cons.prems])
  from Cons.IH [OF this] gathering_Add_work [OF G Cons.prems, of ps "f x"] show ?case by simp
qed simp

lemma handleCorrelationResult_work:
  assumes G: "stage_queue (wq_Add wg) (wq_Get wg) (wq_Done wg) pg ug fg" and ok: "pl_ok ug fg us fs pl"
  shows "pl_work pg ps (handleCorrelationResult wg result pl) =
    pl_work pg ps pl + 6 * (length (cr_SuperEvents result) + length (cr_UncorrelatedEvents result))"
proof -
  let ?pl = "foldl (\<lambda>pl se. gathering_Add wg pl \<lparr>gi_FaultEvent = None, gi_SuperEvent = Some se\<rparr>) pl (cr_SuperEvents result)"
  have "pl_ok ug fg us fs ?pl" by (rule conjunct1 [OF gathering_Add_all [OF G ok]])
  note second = gathering_Add_all_work [OF G this, where ps = ps and xs = "cr_UncorrelatedEvents result" and
      f = "\<lambda>fe. \<lparr>gi_FaultEvent = Some fe, gi_SuperEvent = None\<rparr>"]
  note first = gathering_Add_all_work [OF G ok, where ps = ps and xs = "cr_SuperEvents result" and
      f = "\<lambda>se. \<lparr>gi_FaultEvent = None, gi_SuperEvent = Some se\<rparr>"]
  show ?thesis unfolding handleCorrelationResult_def second first by simp
qed

lemma result_size:
  assumes "list_all (\<lambda>se. se_FaultEvents se \<noteq> []) (cr_SuperEvents r)"
  shows "length (cr_SuperEvents r) + length (cr_UncorrelatedEvents r) \<le> length (result_events r)"
proof -
  have "length ses \<le> length (concat (map se_FaultEvents ses))" if "list_all (\<lambda>se. se_FaultEvents se \<noteq> []) ses" for ses
    using that
  proof (induction ses)
    case (Cons se ses)
    then have "1 \<le> length (se_FaultEvents se)" by (cases "se_FaultEvents se") auto
    moreover have "length ses \<le> length (concat (map se_FaultEvents ses))" using Cons by simp
    ultimately show ?case unfolding list.map concat.simps length_append length_Cons by linarith
  qed simp
  from this [OF assms] show ?thesis by (simp add: result_events_def)
qed

lemma window_work:
  assumes G: "stage_queue (wq_Add wg) (wq_Get wg) (wq_Done wg) pg ug fg" and ok: "pl_ok ug fg us fs pl"
    and os: "permuting_orders os" and d: "distinct (map fe_ID (co_buffer (pl_correlator pl)))"
    and ne: "co_buffer (pl_correlator pl) \<noteq> []"
  shows "pl_work pg ps (correlator_output wg (evaluateAndEmit env os (pl_correlator pl)) pl) < pl_work pg ps pl"
proof -
  let ?c = "pl_correlator pl"
  let ?r = "evaluate (co_config ?c) env os (co_buffer ?c)"
  have len: "length (result_events ?r) = length (co_buffer ?c)"
    using evaluate_conserves [OF os d] by (rule mset_eq_length)
  have "list_all (\<lambda>se. se_FaultEvents se \<noteq> []) (cr_SuperEvents ?r)"
    using evaluate_well_formed [of "co_config ?c" env os "co_buffer ?c"] by (auto simp: super_event_ok_def list_all_iff)
  note sz = result_size [OF this]
  have "cr_SuperEvents ?r \<noteq> [] \<or> cr_UncorrelatedEvents ?r \<noteq> []"
    using len ne by (auto simp: result_events_def)
  then have r: "evaluateAndEmit env os ?c = (?c\<lparr>co_buffer := []\<rparr>, Some ?r)"
    using ne by (auto simp: evaluateAndEmit_def Let_def)
  let ?pl = "pl\<lparr>pl_correlator := ?c\<lparr>co_buffer := []\<rparr>\<rparr>"
  have "pl_ok ug fg us fs ?pl" using ok by (simp add: pl_ok_def)
  note w = handleCorrelationResult_work [OF G this, of ps ?r]
  have arith: "w' = w0 + 6 * (a + b) \<Longrightarrow> a + b \<le> l \<Longrightarrow> l = n \<Longrightarrow> w1 = w0 + 7 * n \<Longrightarrow> 0 < n \<Longrightarrow> w' < w1"
    for w' w0 a b l n w1 :: nat by presburger
  have "pl_work pg ps (handleCorrelationResult wg ?r ?pl) < pl_work pg ps pl"
    by (rule arith [OF w sz len]) (use ne in \<open>simp_all add: pl_work_def\<close>)
  then show ?thesis by (simp only: r correlator_output_def prod.case option.case)
qed

lemma processGatherItem_work:
  assumes "pl_ok ug fg us fs pl" "processGatherItem sched gs now dur item pl = Some pl'"
  shows "pl_work pg ps pl' \<le> pl_work pg ps pl + 4"
proof -
  have up: "pq_open (pl_analysis pl)" using assms(1) by (simp add: pl_ok_def)
  have "length (pq_view (Add (pl_analysis pl) a)) = Suc (length (pq_view (pl_analysis pl)))" for a
    using arg_cong [OF aq.add_pending [OF up], of size a] by simp
  then have "pl_work pg ps (enqueue_bundle dur sev b pl) = pl_work pg ps pl + 4" for sev b
    by (simp add: enqueue_bundle_def Let_def pl_work_def)
  then show ?thesis using assms(2) by (auto simp: processGatherItem_def split: option.splits)
qed

lemma processAnalysisItem_work:
  assumes S: "stage_queue (wq_Add ws) (wq_Get ws) (wq_Done ws) ps us fs" and ok: "pl_ok ug fg us fs pl"
  shows "pl_work pg ps (processAnalysisItem ws name now dur a outcome pl) = pl_work pg ps pl + 2"
proof -
  have up: "us (pl_sink pl)" "fs (pl_sink pl) (pl_next pl, item)" for item using ok by (simp_all add: pl_ok_def)
  have "pl_work pg ps (sink_Add ws item (observe ms pl)) = pl_work pg ps pl + 2" for ms item
    using stage_queue.add_pending [OF S up] by (simp add: pl_work_def sink_Add_def)
  then show ?thesis by (cases outcome) (simp_all add: processAnalysisItem_def)
qed

lemma size_remove: "x \<in># M \<Longrightarrow> size M = Suc (size (M - {#x#}))"
  by (simp add: size_Diff_singleton_if Suc_pred' nonempty_has_size) (metis Suc_pred empty_iff nonempty_has_size set_mset_empty)

lemma step_decreases:
  assumes G: "stage_queue (wq_Add wg) (wq_Get wg) (wq_Done wg) pg ug fg"
    and S: "stage_queue (wq_Add ws) (wq_Get ws) (wq_Done ws) ps us fs"
    and step: "pipeline_step wg ws analyze E s s'" and same: "pr_accepted s' = pr_accepted s"
    and inv: "pipeline_inv pg ug fg ps us fs E s" and d: "distinct (map fe_ID (pr_accepted s))"
  shows "work pg ps s' < work pg ps s \<or> (\<exists>ms. s' = s\<lparr>pr_pl := (pr_pl s)\<lparr>pl_metrics := ms\<rparr>\<rparr>)"
proof -
  have ok: "pl_ok ug fg us fs (pr_pl s)" using inv by (simp add: pipeline_inv_def)
  then have up: "ug (pl_gathering (pr_pl s))" "us (pl_sink (pr_pl s))" "pq_open (pl_analysis (pr_pl s))"
    by (simp_all add: pl_ok_def)
  from step show ?thesis
  proof cases
    case (filtered now input e)
    then show ?thesis by (auto simp: SubmitFaultEvent_def observe_def)
  next
    case (accepted now input e)
    then show ?thesis using same by simp
  next
    case (window os env)
    show ?thesis
    proof (cases "co_buffer (pl_correlator (pr_pl s)) = []")
      case True
      then have "evaluateAndEmit env os (pl_correlator (pr_pl s)) = (pl_correlator (pr_pl s), None)"
        by (simp add: evaluateAndEmit_def Let_def)
      then have "s' = s\<lparr>pr_pl := (pr_pl s)\<lparr>pl_metrics := pl_metrics (pr_pl s)\<rparr>\<rparr>"
        using window(1) by (simp add: correlator_output_def)
      then show ?thesis by blast
    next
      case False
      then show ?thesis
        using window window_work [OF G ok window(2) buffer_distinct [OF inv d] False, of ps env] by (simp add: work_def)
    qed
  next
    case (gather_get x q)
    then show ?thesis
      using stage_queue.get_pending [OF G up(1), of x q] by (simp add: work_def pl_work_def)
  next
    case (gather_done x sched now dur pl)
    note m = processGatherItem_moves [OF ok gather_done(3), of pg ps]
    have "pl_work pg ps (pl\<lparr>pl_gathering := wq_Done wg (pl_gathering pl) x\<rparr>) = pl_work pg ps pl"
      using m up stage_queue.finish_pending [OF G, of "pl_gathering pl" x] by (simp add: pl_work_def)
    then show ?thesis
      using gather_done(1) processGatherItem_work [OF ok gather_done(3), of pg ps] size_remove [OF gather_done(2)]
      by (simp add: work_def)
  next
    case (analyze_get a q)
    then show ?thesis
      using arg_cong [OF aq.get_pending [OF up(3), of a q], of size] by (simp add: work_def pl_work_def)
  next
    case (analyze_done a outcome t rd pl now dur)
    have "pl_work pg ps (pl\<lparr>pl_analysis := Done (pl_analysis pl)\<rparr>) = pl_work pg ps pl" by (simp add: pl_work_def)
    then show ?thesis
      using analyze_done(1) processAnalysisItem_work [OF S ok, of pg "pe_backend E" now dur a outcome, folded analyze_done(4)]
        size_remove [OF analyze_done(2)]
      by (simp add: work_def)
  next
    case (sink_get y q)
    then show ?thesis
      using stage_queue.get_pending [OF S up(2), of y q] by (simp add: work_def pl_work_def)
  next
    case (sink_done y outcomes pl as)
    have pl: "pl_sink pl = pl_sink (pr_pl s)" "pl_work pg ps pl = pl_work pg ps (pr_pl s)"
      using sink_done(3) by (auto simp: processSinkItem_def split: option.splits prod.splits)
    then have "pl_work pg ps (pl\<lparr>pl_sink := wq_Done ws (pl_sink pl) y\<rparr>) = pl_work pg ps (pr_pl s)"
      using up stage_queue.finish_pending [OF S, of "pl_sink pl" y] by (simp add: pl_work_def)
    then show ?thesis using sink_done(1) size_remove [OF sink_done(2)] by (simp add: work_def)
  qed
qed

lemma processGatherItem_total:
  assumes "\<forall>ref. list_all (\<lambda>g. g_Gather g ref \<noteq> Inr None) gs"
  shows "\<exists>pl'. processGatherItem (\<lambda>n. [0..<n]) gs now dur item pl = Some pl'"
proof -
  have f: "fair_sched (\<lambda>n. [0..<n])" by (simp add: fair_sched_def)
  have "\<exists>secs. RunAll (\<lambda>n. [0..<n]) gs ref = Some secs" for ref
  proof -
    have "list_all (\<lambda>g. gather_section ref g \<noteq> None) gs" unfolding gather_section_some using assms by blast
    from RunAll_map [OF this f] show ?thesis by blast
  qed
  then show ?thesis
    by (auto simp: processGatherItem_def split: option.split) (metis option.distinct(1))+
qed

lemma gathering_Add_all_correlator:
  "pl_correlator (foldl (\<lambda>pl x. gathering_Add wg pl (f x)) pl xs) = pl_correlator pl"
  by (induction xs arbitrary: pl) (simp_all add: gathering_Add_def)

lemma handleCorrelationResult_correlator [simp]:
  "pl_correlator (handleCorrelationResult wg result pl) = pl_correlator pl"
  by (simp add: handleCorrelationResult_def gathering_Add_all_correlator)

lemma window_empties: "co_buffer (pl_correlator (correlator_output wg (evaluateAndEmit env os c) pl)) = []"
  by (simp add: correlator_output_def evaluateAndEmit_def Let_def)

lemma not_stuck:
  assumes G: "stage_queue (wq_Add wg) (wq_Get wg) (wq_Done wg) pg ug fg"
    and S: "stage_queue (wq_Add ws) (wq_Get ws) (wq_Done ws) ps us fs"
    and inv: "pipeline_inv pg ug fg ps us fs E s"
    and cfg: "ValidatePipelineConfig (pe_config E) = None"
    and gs: "\<forall>ref. list_all (\<lambda>g. g_Gather g ref \<noteq> Inr None) (pe_gatherers E)"
    and busy: "\<not> idle pg ps s"
  shows "\<exists>s'. pipeline_step wg ws analyze E s s' \<and> pr_accepted s' = pr_accepted s \<and> (\<nexists>ms. s' = s\<lparr>pr_pl := (pr_pl s)\<lparr>pl_metrics := ms\<rparr>\<rparr>)"
proof -
  have up: "ug (pl_gathering (pr_pl s))" "us (pl_sink (pr_pl s))" "pq_open (pl_analysis (pr_pl s))"
    using inv by (simp_all add: pipeline_inv_def pl_ok_def)
  have w: "1 \<le> wc_Gathering (pc_Workers (pe_config E))" "1 \<le> wc_Analysis (pc_Workers (pe_config E))"
    "1 \<le> wc_Sink (pc_Workers (pe_config E))"
    using cfg by (auto simp: ValidatePipelineConfig_def split: if_splits)
  let ?key = "\<lambda>s. (size (pr_gathering s), size (pr_analyzing s), size (pr_delivering s), co_buffer (pl_correlator (pr_pl s)))"
  have found: ?thesis if "pipeline_step wg ws analyze E s s'" "pr_accepted s' = pr_accepted s" "?key s' \<noteq> ?key s" for s'
    using that by (intro exI [of _ s']) auto
  consider (gathering) x where "x \<in># pr_gathering s" | (analyzing) a where "a \<in># pr_analyzing s"
    | (delivering) y where "y \<in># pr_delivering s"
    | (queued_gather) "pg (pl_gathering (pr_pl s)) \<noteq> {#}" "pr_gathering s = {#}"
    | (queued_analysis) "pq_view (pl_analysis (pr_pl s)) \<noteq> []" "pr_analyzing s = {#}"
    | (queued_sink) "ps (pl_sink (pr_pl s)) \<noteq> {#}" "pr_delivering s = {#}"
    | (buffered) "co_buffer (pl_correlator (pr_pl s)) \<noteq> []"
    using busy unfolding idle_def by (meson multiset_nonemptyE)
  then show ?thesis
  proof cases
    case gathering
    obtain pl where "processGatherItem (\<lambda>n. [0..<n]) (pe_gatherers E) 0 0 (snd x) (pr_pl s) = Some pl"
      using processGatherItem_total [OF gs] by blast
    from pipeline_step.gather_done [OF gathering this] show ?thesis
      by (rule found) (use size_remove [OF gathering] in simp_all)
  next
    case analyzing
    from pipeline_step.analyze_done [OF analyzing refl refl] show ?thesis
      by (rule found) (use size_remove [OF analyzing] in simp_all)
  next
    case delivering
    obtain pl as where "processSinkItem (pe_sinks E) (\<lambda>i. None) (snd y) (pr_pl s) = (pl, as)" by fastforce
    from pipeline_step.sink_done [OF delivering this] show ?thesis
      by (rule found) (use size_remove [OF delivering] in simp_all)
  next
    case queued_gather
    then obtain x q where "wq_Get wg (pl_gathering (pr_pl s)) = Some (x, q)"
      using stage_queue.get_none [OF G up(1)] by (cases "wq_Get wg (pl_gathering (pr_pl s))") auto
    from pipeline_step.gather_get [OF this] show ?thesis
      by (rule found) (use queued_gather(2) w in simp_all)
  next
    case queued_analysis
    then obtain a q where "get_item (pl_analysis (pr_pl s)) = Some (a, q)"
      using aq.get_none [OF up(3)] by (cases "get_item (pl_analysis (pr_pl s))") auto
    from pipeline_step.analyze_get [OF this] show ?thesis
      by (rule found) (use queued_analysis(2) w in simp_all)
  next
    case queued_sink
    then obtain y q where "wq_Get ws (pl_sink (pr_pl s)) = Some (y, q)"
      using stage_queue.get_none [OF S up(2)] by (cases "wq_Get ws (pl_sink (pr_pl s))") auto
    from pipeline_step.sink_get [OF this] show ?thesis
      by (rule found) (use queued_sink(2) w in simp_all)
  next
    case buffered
    from pipeline_step.window [OF ex_orders_permuting, where env = ex_env] show ?thesis
      by (rule found) (use buffered in \<open>simp_all add: window_empties\<close>)
  qed
qed

section \<open>Properties\<close>

lemma start_inv:
  assumes "NewPipeline cfg m a filt g0 s0 = Inr pl" "ug g0" "pg g0 = {#}" "\<forall>x. fg g0 x" "us s0" "ps s0 = {#}" "\<forall>y. fs s0 y"
  shows "pipeline_inv pg ug fg ps us fs E (pipeline_init pl)"
  using assms
  by (auto simp: NewPipeline_def NewCorrelator_def inv_parts pl_ok_def pl_load_def pipeline_init_def attempts_of_def
      split: option.splits if_splits)

text \<open>
  C2. Exactly-once processing. Take any interleaving of submissions, window ticks and the workers
  of the three stages, with any failures of gatherers, analyzer and sinks. Every event that passed
  the filter is, exactly once, in the correlation buffer, in a queue, with a worker or in a
  delivered report; each sink was called exactly once, in order, for every delivered report; and
  when the pipeline is idle, the delivered reports together cover exactly the accepted events. The
  client-go queues are only assumed to hand out what was added, each item once.
\<close>

theorem pipeline_exactly_once:
  assumes G: "stage_queue (wq_Add wg) (wq_Get wg) (wq_Done wg) pg ug fg"
    and S: "stage_queue (wq_Add ws) (wq_Get ws) (wq_Done ws) ps us fs" and A: "analyzer analyze"
    and new: "NewPipeline cfg m a filt g0 s0 = Inr pl" "ug g0" "pg g0 = {#}" "\<forall>x. fg g0 x" "us s0" "ps s0 = {#}" "\<forall>y. fs s0 y"
    and reach: "pipeline_reaches wg ws analyze E pl s" and ids: "distinct (map fe_ID (pr_accepted s))"
  shows "mset (pr_accepted s) = events_inside pg ps s + load report_events (mset (pr_delivered s)) \<and>
    map (\<lambda>(n, r, e). (n, r)) (pr_attempts s) = attempts_of (pe_sinks E) (pr_delivered s) \<and>
    (idle pg ps s \<longrightarrow> load report_events (mset (pr_delivered s)) = mset (pr_accepted s))"
  using pipeline_reaches_inv [OF G S A start_inv [where ug = ug and fg = fg and pg = pg and us = us and fs = fs and ps = ps, OF new] reach ids]
  by (auto simp: inv_parts pl_load_def idle_def)

text \<open>
  C3. The pipeline drains. Unless a gatherer returns neither a section nor an error, no reachable
  state is stuck: whenever some event is not delivered yet, a worker or the window can take a step.
  Every step other than an accepted submission either brings the items strictly closer to delivery
  or changes nothing but the metrics. So from every reachable state the workers lead to an idle
  state in which every accepted event is in a delivered report.
\<close>

theorem pipeline_drains:
  assumes G: "stage_queue (wq_Add wg) (wq_Get wg) (wq_Done wg) pg ug fg"
    and S: "stage_queue (wq_Add ws) (wq_Get ws) (wq_Done ws) ps us fs" and A: "analyzer analyze"
    and new: "NewPipeline (pe_config E) m a filt g0 s0 = Inr pl" "ug g0" "pg g0 = {#}" "\<forall>x. fg g0 x" "us s0" "ps s0 = {#}" "\<forall>y. fs s0 y"
    and gs: "\<forall>ref. list_all (\<lambda>g. g_Gather g ref \<noteq> Inr None) (pe_gatherers E)"
    and reach: "pipeline_reaches wg ws analyze E pl s" and ids: "distinct (map fe_ID (pr_accepted s))"
  shows "(\<forall>s'. pipeline_step wg ws analyze E s s' \<and> pr_accepted s' = pr_accepted s \<longrightarrow>
      work pg ps s' < work pg ps s \<or> (\<exists>ms. s' = s\<lparr>pr_pl := (pr_pl s)\<lparr>pl_metrics := ms\<rparr>\<rparr>)) \<and>
    (\<exists>s'. (pipeline_step wg ws analyze E)\<^sup>*\<^sup>* s s' \<and> idle pg ps s' \<and> pr_accepted s' = pr_accepted s \<and>
      load report_events (mset (pr_delivered s')) = mset (pr_accepted s))"
proof -
  have cfg: "ValidatePipelineConfig (pe_config E) = None"
    using new(1) by (auto simp: NewPipeline_def split: option.splits)
  note inv = pipeline_reaches_inv [OF G S A start_inv [where ug = ug and fg = fg and pg = pg and us = us and fs = fs and ps = ps, OF new] _]
  have run: "\<exists>s'. (pipeline_step wg ws analyze E)\<^sup>*\<^sup>* s s' \<and> idle pg ps s' \<and> pr_accepted s' = pr_accepted s \<and>
      pipeline_reaches wg ws analyze E pl s'"
    using reach ids
  proof (induction "work pg ps s" arbitrary: s rule: less_induct)
    case less
    show ?case
    proof (cases "idle pg ps s")
      case True
      then show ?thesis using less.prems by blast
    next
      case False
      have inv: "pipeline_inv pg ug fg ps us fs E s" by (rule inv [OF less.prems])
      obtain s1 where s1: "pipeline_step wg ws analyze E s s1" "pr_accepted s1 = pr_accepted s"
        "\<nexists>ms. s1 = s\<lparr>pr_pl := (pr_pl s)\<lparr>pl_metrics := ms\<rparr>\<rparr>"
        using not_stuck [OF G S inv cfg gs False] by blast
      then have "work pg ps s1 < work pg ps s"
        using step_decreases [OF G S s1(1,2) inv less.prems(2)] by blast
      from less.hyps [OF this pipeline_reaches.step [OF less.prems(1) s1(1)]] s1 less.prems(2)
      show ?thesis by (metis (no_types, lifting) converse_rtranclp_into_rtranclp)
    qed
  qed
  then obtain s' where s': "(pipeline_step wg ws analyze E)\<^sup>*\<^sup>* s s'" "idle pg ps s'" "pr_accepted s' = pr_accepted s"
    "pipeline_reaches wg ws analyze E pl s'" by blast
  have "pipeline_inv pg ug fg ps us fs E s'" using inv [OF s'(4)] s'(3) ids by simp
  then have "load report_events (mset (pr_delivered s')) = mset (pr_accepted s)"
    using s'(2,3) by (auto simp: inv_parts pl_load_def idle_def)
  then show ?thesis using s' step_decreases [OF G S _ _ inv [OF reach ids] ids] by blast
qed

text \<open>
  C4. A failed analysis is not lost: whatever the analyzer returns for an item, exactly one report
  is put on the sink queue, it carries the item's diagnostic bundle, and if the analyzer failed it
  has the item's event identifier and severity and the error text.
\<close>

theorem analysis_always_reports:
  assumes "analyzer analyze" "outcome = snd (analyze t rd (ai_Bundle a))"
  shows "\<exists>report ms. processAnalysisItem ws name now dur a outcome pl =
      sink_Add ws \<lparr>si_Report = Some report\<rparr> (observe ms pl) \<and> rca_DiagnosticBundle report = ai_Bundle a \<and>
    (\<forall>err. outcome = Inl err \<longrightarrow> rca_FaultEventID report = item_event_id a \<and> rca_Severity report = ai_Severity a \<and>
       rca_RawAnalysis report = analyzer_error_text err \<and> rca_AnalyzerBackend report = name)"
proof (cases outcome)
  case (Inl err)
  then show ?thesis
    by (intro exI [of _ "fallback_report name now a err"]
        exI [of _ "[AnalyzerLatency dur, AnalyzerRequestsTotal name ''error'']"])
      (simp add: processAnalysisItem_def fallback_report_def)
next
  case (Inr report)
  then have "rca_DiagnosticBundle report = ai_Bundle a"
    using analyzer.about_bundle [OF assms(1), of t rd "ai_Bundle a" report] assms(2) by simp
  then show ?thesis using Inr by (auto simp: processAnalysisItem_def)
qed


section \<open>Instances\<close>

text \<open>A queue of the pending items, with the items ever added and a flag for the shutdown.\<close>

definition list_wq :: "('x list \<times> 'x list \<times> bool, 'x) workqueue" where
  "list_wq = \<lparr>wq_Add = (\<lambda>(p, seen, up) x. if up \<and> x \<notin> set seen then (p @ [x], x # seen, up) else (p, seen, up)),
     wq_Get = (\<lambda>(p, seen, up). case p of [] \<Rightarrow> None | x # p' \<Rightarrow> Some (x, (p', seen, up))),
     wq_Done = (\<lambda>q x. q), wq_Len = (\<lambda>(p, seen, up). length p), wq_ShutDown = (\<lambda>(p, seen, up). (p, seen, False))\<rparr>"

lemma list_wq_laws:
  "stage_queue (wq_Add list_wq) (wq_Get list_wq) (wq_Done list_wq) (\<lambda>(p, seen, up). mset p) (\<lambda>(p, seen, up). up)
     (\<lambda>(p, seen, up) x. x \<notin> set seen)"
  by unfold_locales (auto simp: list_wq_def split: if_splits list.splits)

definition ex_pipeline_env :: pipeline_run_env where
  "ex_pipeline_env = \<lparr>pe_gatherers = [ex_gatherer ''PodLogs'' True, ex_gatherer ''PodEvents'' False],
     pe_sinks = [''log'', ''slack''], pe_backend = ''noop'', pe_config = DefaultPipelineConfig\<rparr>"

definition ex_pipeline ::
    "((nat \<times> GatherItem) list \<times> (nat \<times> GatherItem) list \<times> bool, (nat \<times> SinkItem) list \<times> (nat \<times> SinkItem) list \<times> bool) Pipeline" where
  "ex_pipeline = \<lparr>pl_filter = None, pl_correlator = \<lparr>co_config = DefaultCorrelatorConfig, co_buffer = []\<rparr>,
     pl_gathering = ([], [], True), pl_analysis = NewPriorityQueue ''analysis'', pl_sink = ([], [], True),
     pl_next = 0, pl_metrics = []\<rparr>"

definition ex_fault :: FaultEvent where
  "ex_fault = ex_event ''1'' ''PodFailed'' ''Pod'' ''a'' []"

lemma ex_pipeline_new:
  "NewPipeline (pe_config ex_pipeline_env) True True None ([], [], True) ([], [], True) = Inr ex_pipeline"
proof -
  have "ValidatePipelineConfig DefaultPipelineConfig = None" by code_simp
  moreover have "NewCorrelator (pc_Correlation DefaultPipelineConfig) True True =
      Inr \<lparr>co_config = DefaultCorrelatorConfig, co_buffer = []\<rparr>" by code_simp
  ultimately show ?thesis by (simp add: NewPipeline_def ex_pipeline_env_def ex_pipeline_def)
qed

lemma ex_pipeline_run:
  obtains s where "pipeline_reaches list_wq list_wq NoopAnalyzer_Analyze ex_pipeline_env ex_pipeline s"
    "pr_accepted s = [ex_fault]" "pr_delivered s = []"
proof -
  let ?s = "pipeline_init ex_pipeline"
  have "excluded_reason 0 (pr_pl ?s) (ex_input ''PodFailed'') = None"
    by (simp add: excluded_reason_def pipeline_init_def ex_pipeline_def)
  from pipeline_reaches.step [OF pipeline_reaches.start pipeline_step.accepted [OF this, of list_wq list_wq NoopAnalyzer_Analyze ex_pipeline_env ex_fault]]
  show ?thesis by (rule that) (simp_all add: pipeline_init_def)
qed

lemma ex_gatherers_total: "\<forall>ref. list_all (\<lambda>g. g_Gather g ref \<noteq> Inr None) (pe_gatherers ex_pipeline_env)"
  by (simp add: ex_pipeline_env_def ex_gatherer_def)

theorem pipeline_exactly_once_witness:
  "\<exists>s. pipeline_reaches list_wq list_wq NoopAnalyzer_Analyze ex_pipeline_env ex_pipeline s \<and>
     events_inside (\<lambda>(p, seen, up). mset p) (\<lambda>(p, seen, up). mset p) s = {#ex_fault#}"
proof -
  obtain s where s: "pipeline_reaches list_wq list_wq NoopAnalyzer_Analyze ex_pipeline_env ex_pipeline s"
    "pr_accepted s = [ex_fault]" "pr_delivered s = []" by (rule ex_pipeline_run)
  have "mset (pr_accepted s) = events_inside (\<lambda>(p, seen, up). mset p) (\<lambda>(p, seen, up). mset p) s +
      load report_events (mset (pr_delivered s))"
    using pipeline_exactly_once [OF list_wq_laws list_wq_laws noop.analyzer_axioms ex_pipeline_new _ _ _ _ _ _ s(1)] s(2) by simp
  then show ?thesis using s by auto
qed

theorem pipeline_drains_witness:
  "\<exists>s s'. pipeline_reaches list_wq list_wq NoopAnalyzer_Analyze ex_pipeline_env ex_pipeline s \<and>
     (pipeline_step list_wq list_wq NoopAnalyzer_Analyze ex_pipeline_env)\<^sup>*\<^sup>* s s' \<and>
     idle (\<lambda>(p, seen, up). mset p) (\<lambda>(p, seen, up). mset p) s' \<and> pr_accepted s' = [ex_fault] \<and>
     load report_events (mset (pr_delivered s')) = {#ex_fault#}"
proof -
  obtain s where s: "pipeline_reaches list_wq list_wq NoopAnalyzer_Analyze ex_pipeline_env ex_pipeline s"
    "pr_accepted s = [ex_fault]" "pr_delivered s = []" by (rule ex_pipeline_run)
  show ?thesis
    using pipeline_drains [OF list_wq_laws list_wq_laws noop.analyzer_axioms ex_pipeline_new _ _ _ _ _ _ ex_gatherers_total s(1)] s(1,2)
    by auto
qed

theorem analysis_always_reports_witness:
  "\<exists>report ms. processAnalysisItem list_wq ''noop'' 0 0 (ex_item ''7'' SeverityCritical)
      (snd (NoopAnalyzer_Analyze () (Some ''cancelled'', 0) (ai_Bundle (ex_item ''7'' SeverityCritical)))) ex_pipeline =
     sink_Add list_wq \<lparr>si_Report = Some report\<rparr> (observe ms ex_pipeline) \<and> rca_Severity report = SeverityCritical \<and>
     rca_RawAnalysis report = ''cancelled''"
  using analysis_always_reports [OF noop.analyzer_axioms refl, of "list_wq" "''noop''" 0 0 "ex_item ''7'' SeverityCritical"
      "()" "(Some ''cancelled'', 0)" ex_pipeline]
  by (auto simp: NoopAnalyzer_Analyze_def ex_item_def analyzer_error_text_def)


end
