(* ===== verification/Go_Regex.thy ===== *)
theory Go_Regex
  imports Go_Prelude
begin

text \<open>
  What the sources use of package \<open>regexp\<close>. An expression is a syntax tree; \<open>re_run\<close> lists the
  matches at a position in the order of preference of the package (leftmost-first: the left branch
  of an alternation first; \<open>Re_Star True\<close> is the greedy and \<open>Re_Star False\<close> the lazy repetition), and \<open>FindStringSubmatch\<close> takes the first one at the
  first position that has one. A match is the list of its captures, the matched text and the rest.
  Strings are bytes; the classes \<open>\w\<close>, \<open>\s\<close>, \<open>\d\<close> and \<open>\b\<close> of the package are ASCII, and case
  folding (\<open>(?i)\<close>) is written out for ASCII letters.

  \<open>re_matches\<close> is the textbook meaning of an expression as an inductive relation; the matcher is
  proved sound and complete for it.
\<close>

section \<open>Syntax\<close>

datatype re =
    Re_Eps
  | Re_Set "char \<Rightarrow> bool"
  | Re_Seq re re
  | Re_Alt re re
  | Re_Star bool re
  | Re_Cap re
  | Re_Bol
  | Re_Eol
  | Re_Wordb

definition re_plus :: "re \<Rightarrow> re" where
  "re_plus r = Re_Seq r (Re_Star True r)"

definition re_opt :: "re \<Rightarrow> re" where
  "re_opt r = Re_Alt r Re_Eps"

definition re_seq :: "re list \<Rightarrow> re" where
  "re_seq rs = foldr Re_Seq rs Re_Eps"

fun re_alt :: "re list \<Rightarrow> re" where
  "re_alt [] = Re_Set (\<lambda>c. False)"
| "re_alt [r] = r"
| "re_alt (r # s # rs) = Re_Alt r (re_alt (s # rs))"

definition re_lit :: "string \<Rightarrow> re" where
  "re_lit s = re_seq (map (\<lambda>c. Re_Set (\<lambda>d. d = c)) s)"

definition re_ilit :: "string \<Rightarrow> re" where
  "re_ilit s = re_seq (map (\<lambda>c. Re_Set (\<lambda>d. lower_char d = lower_char c)) s)"

definition is_digit_char :: "char \<Rightarrow> bool" where
  "is_digit_char c \<longleftrightarrow> 48 \<le> (of_char c :: nat) \<and> (of_char c :: nat) \<le> 57"

definition is_word_char :: "char \<Rightarrow> bool" where
  "is_word_char c \<longleftrightarrow> is_digit_char c \<or> c = CHR ''_'' \<or>
     (97 \<le> (of_char (lower_char c) :: nat) \<and> (of_char (lower_char c) :: nat) \<le> 122)"

definition is_re_space :: "char \<Rightarrow> bool" where
  "is_re_space c \<longleftrightarrow> c = CHR 0x09 \<or> c = CHR 0x0A \<or> c = CHR 0x0C \<or> c = CHR 0x0D \<or> c = CHR '' ''"

abbreviation re_space :: re where "re_space \<equiv> Re_Set is_re_space"
abbreviation re_nonspace :: re where "re_nonspace \<equiv> Re_Set (\<lambda>c. \<not> is_re_space c)"
abbreviation re_word :: re where "re_word \<equiv> Re_Set is_word_char"
abbreviation re_digit :: re where "re_digit \<equiv> Re_Set is_digit_char"
abbreviation re_any :: re where "re_any \<equiv> Re_Set (\<lambda>c. c \<noteq> CHR 0x0A)"

section \<open>Matching\<close>

type_synonym re_result = "string list \<times> string \<times> string"

fun after :: "char option \<Rightarrow> string \<Rightarrow> char option" where
  "after p [] = p"
| "after p (c # cs) = after (Some c) cs"

definition at_word :: "char option \<Rightarrow> bool" where
  "at_word p = (case p of None \<Rightarrow> False | Some c \<Rightarrow> is_word_char c)"

definition next_char :: "string \<Rightarrow> char option" where
  "next_char s = (case s of [] \<Rightarrow> None | c # _ \<Rightarrow> Some c)"

fun star_loop :: "bool \<Rightarrow> nat \<Rightarrow> (char option \<Rightarrow> string \<Rightarrow> re_result list) \<Rightarrow> char option \<Rightarrow> string \<Rightarrow> re_result list" where
  "star_loop greedy 0 f p s = [([], [], s)]"
| "star_loop greedy (Suc n) f p s =
     (let more = concat (map (\<lambda>(c, u, t). if u = [] then []
             else map (\<lambda>(c', v, r). (c @ c', u @ v, r)) (star_loop greedy n f (after p u) t)) (f p s))
      in if greedy then more @ [([], [], s)] else ([], [], s) # more)"

primrec re_run :: "re \<Rightarrow> char option \<Rightarrow> string \<Rightarrow> re_result list" where
  "re_run Re_Eps p s = [([], [], s)]"
| "re_run (Re_Set P) p s = (case s of [] \<Rightarrow> [] | c # cs \<Rightarrow> if P c then [([], [c], cs)] else [])"
| "re_run (Re_Seq a b) p s =
     concat (map (\<lambda>(c, u, t). map (\<lambda>(c', v, r). (c @ c', u @ v, r)) (re_run b (after p u) t)) (re_run a p s))"
| "re_run (Re_Alt a b) p s = re_run a p s @ re_run b p s"
| "re_run (Re_Star g a) p s = star_loop g (length s) (re_run a) p s"
| "re_run (Re_Cap a) p s = map (\<lambda>(c, u, t). (u # c, u, t)) (re_run a p s)"
| "re_run Re_Bol p s = (if p = None then [([], [], s)] else [])"
| "re_run Re_Eol p s = (if s = [] then [([], [], s)] else [])"
| "re_run Re_Wordb p s = (if at_word p \<noteq> at_word (next_char s) then [([], [], s)] else [])"

fun re_search :: "re \<Rightarrow> char option \<Rightarrow> string \<Rightarrow> string list option" where
  "re_search a p s =
     (case re_run a p s of
        (c, u, t) # _ \<Rightarrow> Some (u # c)
      | [] \<Rightarrow> (case s of [] \<Rightarrow> None | x # xs \<Rightarrow> re_search a (Some x) xs))"

declare re_search.simps [simp del]

text \<open>The rules with which the simplifier runs the matcher on a concrete text.\<close>

lemma re_search_simps:
  "re_search a p [] = (case re_run a p [] of (c, u, t) # _ \<Rightarrow> Some (u # c) | [] \<Rightarrow> None)"
  "re_search a p (x # xs) = (case re_run a p (x # xs) of (c, u, t) # _ \<Rightarrow> Some (u # c) | [] \<Rightarrow> re_search a (Some x) xs)"
  by (subst re_search.simps; simp split: list.split)+

definition FindStringSubmatch :: "re \<Rightarrow> string \<Rightarrow> string list option" where
  "FindStringSubmatch a s = re_search a None s"

definition MatchString :: "re \<Rightarrow> string \<Rightarrow> bool" where
  "MatchString a s = (FindStringSubmatch a s \<noteq> None)"

lemmas re_eval = re_search_simps FindStringSubmatch_def MatchString_def re_seq_def re_lit_def re_ilit_def
  re_plus_def re_opt_def is_re_space_def is_digit_char_def is_word_char_def lower_char_def at_word_def
  next_char_def Let_def

section \<open>Meaning\<close>

inductive re_matches :: "re \<Rightarrow> char option \<Rightarrow> string \<Rightarrow> string \<Rightarrow> bool" where
  eps: "re_matches Re_Eps p [] r"
| set: "P c \<Longrightarrow> re_matches (Re_Set P) p [c] r"
| seq: "re_matches a p u (v @ r) \<Longrightarrow> re_matches b (after p u) v r \<Longrightarrow> re_matches (Re_Seq a b) p (u @ v) r"
| alt1: "re_matches a p u r \<Longrightarrow> re_matches (Re_Alt a b) p u r"
| alt2: "re_matches b p u r \<Longrightarrow> re_matches (Re_Alt a b) p u r"
| star0: "re_matches (Re_Star g a) p [] r"
| starS: "re_matches a p u (v @ r) \<Longrightarrow> u \<noteq> [] \<Longrightarrow> re_matches (Re_Star g a) (after p u) v r \<Longrightarrow>
    re_matches (Re_Star g a) p (u @ v) r"
| cap: "re_matches a p u r \<Longrightarrow> re_matches (Re_Cap a) p u r"
| bol: "re_matches Re_Bol None [] r"
| eol: "re_matches Re_Eol p [] []"
| wordb: "at_word p \<noteq> at_word (next_char r) \<Longrightarrow> re_matches Re_Wordb p [] r"

inductive_simps re_matches_simps [simp]:
  "re_matches Re_Eps p u r" "re_matches (Re_Set P) p u r" "re_matches (Re_Seq a b) p u r"
  "re_matches (Re_Alt a b) p u r" "re_matches (Re_Cap a) p u r" "re_matches Re_Bol p u r"
  "re_matches Re_Eol p u r" "re_matches Re_Wordb p u r"

definition hits :: "re_result list \<Rightarrow> string \<Rightarrow> string \<Rightarrow> bool" where
  "hits rs u r \<longleftrightarrow> (\<exists>c. (c, u, r) \<in> set rs)"

lemma hits_simps [simp]:
  "\<not> hits [] u r" "hits ((c, v, t) # rs) u r \<longleftrightarrow> u = v \<and> r = t \<or> hits rs u r"
  "hits (xs @ ys) u r \<longleftrightarrow> hits xs u r \<or> hits ys u r"
  by (auto simp: hits_def)

lemma ex_hits: "(\<exists>u r. hits rs u r) \<longleftrightarrow> rs \<noteq> []"
  by (cases rs) (auto simp: hits_def)

lemma hits_bind:
  "hits (concat (map (\<lambda>(c, u, t). map (\<lambda>(c', v, r). (c @ c', u @ v, r)) (g u t)) rs)) w r \<longleftrightarrow>
     (\<exists>u v t. hits rs u t \<and> hits (g u t) v r \<and> w = u @ v)"
  unfolding hits_def by (force simp: image_iff)

inductive_cases re_starE: "re_matches (Re_Star g a) p w r"

lemma star_unfold:
  "re_matches (Re_Star g a) p w r \<longleftrightarrow> w = [] \<or>
     (\<exists>u v. w = u @ v \<and> u \<noteq> [] \<and> re_matches a p u (v @ r) \<and> re_matches (Re_Star g a) (after p u) v r)"
  by (blast elim: re_starE intro: star0 starS)

lemma star_loop_iff:
  assumes f: "\<And>p s u r. hits (f p s) u r \<longleftrightarrow> s = u @ r \<and> re_matches a p u r" and n: "length s \<le> n"
  shows "hits (star_loop g n f p s) w r \<longleftrightarrow> s = w @ r \<and> re_matches (Re_Star g a) p w r"
  using n
proof (induction n arbitrary: p s w)
  case 0
  then show ?case by (auto intro: star0)
next
  case (Suc n)
  let ?g = "\<lambda>u t. if u = [] then [] else star_loop g n f (after p u) t"
  have "hits (star_loop g (Suc n) f p s) w r \<longleftrightarrow>
      (\<exists>u v t. hits (f p s) u t \<and> hits (?g u t) v r \<and> w = u @ v) \<or> w = [] \<and> r = s"
    using hits_bind [of ?g "f p s" w r]
    by (cases g) (auto simp: Let_def if_distrib [of "map _"] cong: if_cong)
  also have "(\<exists>u v t. hits (f p s) u t \<and> hits (?g u t) v r \<and> w = u @ v) \<longleftrightarrow>
      (\<exists>u v. u \<noteq> [] \<and> s = u @ v @ r \<and> re_matches a p u (v @ r) \<and> re_matches (Re_Star g a) (after p u) v r \<and> w = u @ v)"
  proof -
    have key: "hits (?g u t) v r \<longleftrightarrow> u \<noteq> [] \<and> t = v @ r \<and> re_matches (Re_Star g a) (after p u) v r" if "s = u @ t" for u v t
    proof (cases "u = []")
      case False
      then have "length t \<le> n" using Suc.prems that by (cases u) auto
      then show ?thesis using Suc.IH [of t "after p u" v] False by simp
    qed simp
    show ?thesis
    proof
      assume "\<exists>u v t. hits (f p s) u t \<and> hits (?g u t) v r \<and> w = u @ v"
      then obtain u v t where "hits (f p s) u t" and h: "hits (?g u t) v r" and w: "w = u @ v" by blast
      then have st: "s = u @ t" and m: "re_matches a p u t" by (simp_all add: f)
      from h have "u \<noteq> []" "t = v @ r" "re_matches (Re_Star g a) (after p u) v r" unfolding key [OF st] by blast+
      with st m w show "\<exists>u v. u \<noteq> [] \<and> s = u @ v @ r \<and> re_matches a p u (v @ r) \<and>
          re_matches (Re_Star g a) (after p u) v r \<and> w = u @ v" by blast
    next
      assume "\<exists>u v. u \<noteq> [] \<and> s = u @ v @ r \<and> re_matches a p u (v @ r) \<and>
          re_matches (Re_Star g a) (after p u) v r \<and> w = u @ v"
      then obtain u v where "u \<noteq> []" "s = u @ v @ r" "re_matches a p u (v @ r)"
          "re_matches (Re_Star g a) (after p u) v r" "w = u @ v" by blast
      moreover from this have "hits (?g u (v @ r)) v r" using key [of u "v @ r" v] by blast
      ultimately show "\<exists>u v t. hits (f p s) u t \<and> hits (?g u t) v r \<and> w = u @ v" unfolding f by blast
    qed
  qed
  finally have "hits (star_loop g (Suc n) f p s) w r \<longleftrightarrow>
      (\<exists>u v. u \<noteq> [] \<and> s = u @ v @ r \<and> re_matches a p u (v @ r) \<and> re_matches (Re_Star g a) (after p u) v r \<and> w = u @ v) \<or>
      w = [] \<and> r = s" .
  then show ?case by (subst star_unfold) auto
qed

lemma re_run_iff: "hits (re_run a p s) u r \<longleftrightarrow> s = u @ r \<and> re_matches a p u r"
proof (induction a arbitrary: p s u r)
  case (Re_Set P)
  then show ?case by (cases s) (auto simp: hits_def)
next
  case (Re_Seq a b)
  have "hits (re_run (Re_Seq a b) p s) u r \<longleftrightarrow>
      (\<exists>x v t. hits (re_run a p s) x t \<and> hits (re_run b (after p x) t) v r \<and> u = x @ v)"
    using hits_bind [of "\<lambda>x t. re_run b (after p x) t" "re_run a p s" u r] by simp
  then show ?case unfolding Re_Seq.IH re_matches_simps by (metis append.assoc)
next
  case (Re_Star g a)
  show ?case using star_loop_iff [of "re_run a" a, OF Re_Star.IH, of s "length s"] by simp
next
  case (Re_Cap a)
  have "hits (map (\<lambda>(c, u, t). (u # c, u, t)) rs) u r \<longleftrightarrow> hits rs u r" for rs
    unfolding hits_def by (force simp: image_iff)
  then show ?case by (simp add: Re_Cap.IH)
qed auto

lemma MatchString_search: "re_search a p s \<noteq> None \<longleftrightarrow> (\<exists>x u r. s = x @ u @ r \<and> re_matches a (after p x) u r)"
proof (induction s arbitrary: p)
  case Nil
  have "re_search a p [] \<noteq> None \<longleftrightarrow> (\<exists>u r. hits (re_run a p []) u r)"
    by (subst re_search.simps) (simp add: ex_hits split: list.split)
  then show ?case by (simp add: re_run_iff)
next
  case (Cons c cs)
  have "re_search a p (c # cs) \<noteq> None \<longleftrightarrow> (\<exists>u r. hits (re_run a p (c # cs)) u r) \<or> re_search a (Some c) cs \<noteq> None"
    by (subst re_search.simps) (simp add: ex_hits split: list.split)
  also have "\<dots> \<longleftrightarrow> (\<exists>x u r. c # cs = x @ u @ r \<and> re_matches a (after p x) u r)"
    unfolding Cons.IH re_run_iff
    by (auto simp: Cons_eq_append_conv) (metis after.simps append_Nil append_Cons)+
  finally show ?case .
qed

lemma MatchString_iff: "MatchString a s \<longleftrightarrow> (\<exists>x u r. s = x @ u @ r \<and> re_matches a (after None x) u r)"
  unfolding MatchString_def FindStringSubmatch_def by (rule MatchString_search)

end
