(* ===== verification/Rules_Signals.thy ===== *)
theory Rules_Signals
  imports Analyzers Go_Regex
begin

text \<open>
  The parsers of the rules-based analyzer (\<open>internal/analyzer/rules.go\<close>): how \<open>extractSignals\<close> reads the
  gathered sections into \<open>diagnosticSignals\<close>, the table of log error patterns and the log scanner. The
  regular expressions are syntax trees of \<open>Go_Regex\<close>, in the order of the source. The pointer
  \<open>currentContainer\<close> always designates the last element of \<open>containerStates\<close>, so it is a flag that says
  whether it is set. The lemmas show that no text makes the log scanner panic, what it collects, and two
  consequences of the order in which the code looks: dead patterns and images that are never attached.
\<close>

section \<open>Signals\<close>

record containerSignal =
  cs_name :: string
  cs_ready :: bool
  cs_restartCount :: goint
  cs_stateType :: string
  cs_stateReason :: string
  cs_exitCode :: goint
  cs_lastTermReason :: string
  cs_lastTermExitCode :: goint
  cs_image :: string

record eventSignal =
  ev_eventType :: string
  ev_reason :: string
  ev_message :: string

record logErrorSignal =
  le_pattern :: string
  le_snippet :: string

record diagnosticSignals =
  sg_podPhase :: string
  sg_containerStates :: "containerSignal list"
  sg_eventMessages :: "eventSignal list"
  sg_logErrors :: "logErrorSignal list"
  sg_deploymentName :: string
  sg_desiredReplicas :: goint
  sg_readyReplicas :: goint
  sg_availableReplicas :: goint
  sg_rolloutCondition :: string
  sg_pvcPhase :: string
  sg_storageClass :: string
  sg_nodeNotReady :: bool
  sg_memoryPressure :: bool
  sg_diskPressure :: bool

definition no_container :: containerSignal where
  "no_container = \<lparr>cs_name = [], cs_ready = False, cs_restartCount = 0, cs_stateType = [], cs_stateReason = [],
     cs_exitCode = 0, cs_lastTermReason = [], cs_lastTermExitCode = 0, cs_image = []\<rparr>"

definition no_signals :: diagnosticSignals where
  "no_signals = \<lparr>sg_podPhase = [], sg_containerStates = [], sg_eventMessages = [], sg_logErrors = [],
     sg_deploymentName = [], sg_desiredReplicas = 0, sg_readyReplicas = 0, sg_availableReplicas = 0,
     sg_rolloutCondition = [], sg_pvcPhase = [], sg_storageClass = [], sg_nodeNotReady = False,
     sg_memoryPressure = False, sg_diskPressure = False\<rparr>"

text \<open>\<open>strconv.Atoi\<close> of a string of digits; out of range it returns the largest integer.\<close>

definition atoi :: "string \<Rightarrow> goint" where
  "atoi s = min max_int64 (foldl (\<lambda>n c. n * 10 + (int (of_char c) - 48)) 0 s)"

definition nl :: string where "nl = [CHR 0x0A]"

definition lines_of :: "string \<Rightarrow> string list" where
  "lines_of s = split_char (CHR 0x0A) s"

section \<open>Pod description\<close>

definition rePodPhase :: re where
  "rePodPhase = re_seq [Re_Bol, re_lit ''Phase:'', re_plus re_space, Re_Cap (re_plus re_nonspace)]"

definition reContainerStatus :: re where
  "reContainerStatus = re_seq [Re_Bol, re_plus re_space, Re_Cap (re_plus re_nonspace), re_lit '':'', re_plus re_space,
     re_lit ''ready='', Re_Cap (re_alt [re_lit ''true'', re_lit ''false'']), re_lit '','', re_plus re_space,
     re_lit ''restartCount='', Re_Cap (re_plus re_digit)]"

definition reStateWaiting :: re where
  "reStateWaiting = re_seq [re_lit ''State:'', re_plus re_space, re_lit ''Waiting'', re_plus re_space,
     re_lit ''(reason='', Re_Cap (re_plus re_word)]"

definition reStateTerminated :: re where
  "reStateTerminated = re_seq [re_lit ''State:'', re_plus re_space, re_lit ''Terminated'', re_plus re_space,
     re_lit ''(exitCode='', Re_Cap (re_plus re_digit), re_lit '','', re_plus re_space, re_lit ''reason='',
     Re_Cap (re_plus re_word)]"

definition reLastTermination :: re where
  "reLastTermination = re_seq [re_lit ''LastTermination:'', re_plus re_space, re_lit ''exitCode='',
     Re_Cap (re_plus re_digit), re_lit '','', re_plus re_space, re_lit ''reason='', Re_Cap (re_plus re_word)]"

definition reContainerImage :: re where
  "reContainerImage = re_seq [Re_Bol, re_plus re_space, re_lit ''Image:'', re_plus re_space, Re_Cap (re_plus re_nonspace)]"

definition reContainerSection :: re where
  "reContainerSection = re_seq [Re_Bol, re_lit ''Container:'', re_plus re_space, Re_Cap (re_plus re_nonspace)]"

definition set_image :: "string \<Rightarrow> string \<Rightarrow> containerSignal \<Rightarrow> containerSignal" where
  "set_image name img c = (if cs_name c = name then c\<lparr>cs_image := img\<rparr> else c)"

definition update_last :: "(containerSignal \<Rightarrow> containerSignal) \<Rightarrow> diagnosticSignals \<Rightarrow> diagnosticSignals" where
  "update_last f s = s\<lparr>sg_containerStates := (case rev (sg_containerStates s) of
     [] \<Rightarrow> [] | c # cs \<Rightarrow> rev (f c # cs))\<rparr>"

text \<open>One line; the state is the signals, whether \<open>currentContainer\<close> is set and \<open>specContainerName\<close>.\<close>

definition current_line :: "diagnosticSignals \<times> bool \<times> string \<Rightarrow> string \<Rightarrow> diagnosticSignals \<times> bool \<times> string" where
  "current_line st line =
     (case st of (s, current, spec) \<Rightarrow>
        if \<not> current then st
        else case FindStringSubmatch reStateWaiting line of
          Some (_ # m1 # _) \<Rightarrow>
            (update_last (\<lambda>c. c\<lparr>cs_stateType := ''Waiting'', cs_stateReason := m1\<rparr>) s, current, spec)
        | _ \<Rightarrow>
          (case FindStringSubmatch reStateTerminated line of
             Some (_ # m1 # m2 # _) \<Rightarrow>
               (update_last (\<lambda>c. c\<lparr>cs_stateType := ''Terminated'', cs_stateReason := m2, cs_exitCode := atoi m1\<rparr>) s,
                current, spec)
           | _ \<Rightarrow>
             (case FindStringSubmatch reLastTermination line of
                Some (_ # m1 # m2 # _) \<Rightarrow>
                  (update_last (\<lambda>c. c\<lparr>cs_lastTermReason := m2, cs_lastTermExitCode := atoi m1\<rparr>) s, current, spec)
              | _ \<Rightarrow> st)))"

definition status_line :: "diagnosticSignals \<times> bool \<times> string \<Rightarrow> string \<Rightarrow> diagnosticSignals \<times> bool \<times> string" where
  "status_line st line =
     (case st of (s, current, spec) \<Rightarrow>
        case FindStringSubmatch reContainerStatus line of
          Some (_ # m1 # m2 # m3 # _) \<Rightarrow>
            (s\<lparr>sg_containerStates := sg_containerStates s @
                [no_container\<lparr>cs_name := m1, cs_ready := (m2 = ''true''), cs_restartCount := atoi m3\<rparr>]\<rparr>, True, spec)
        | _ \<Rightarrow> current_line st line)"

definition description_line :: "diagnosticSignals \<times> bool \<times> string \<Rightarrow> string \<Rightarrow> diagnosticSignals \<times> bool \<times> string" where
  "description_line st line =
     (case st of (s, current, spec) \<Rightarrow>
        case FindStringSubmatch rePodPhase line of
          Some (_ # m1 # _) \<Rightarrow> (s\<lparr>sg_podPhase := m1\<rparr>, current, spec)
        | _ \<Rightarrow>
          (case FindStringSubmatch reContainerSection line of
             Some (_ # m1 # _) \<Rightarrow> (s, current, m1)
           | _ \<Rightarrow>
             (case FindStringSubmatch reContainerImage line of
                Some (_ # m1 # _) \<Rightarrow>
                  if spec \<noteq> []
                  then (s\<lparr>sg_containerStates := map (set_image spec m1) (sg_containerStates s)\<rparr>, current, spec)
                  else status_line st line
              | _ \<Rightarrow> status_line st line)))"

definition parsePodDescription :: "string \<Rightarrow> diagnosticSignals \<Rightarrow> diagnosticSignals" where
  "parsePodDescription content s = fst (foldl description_line (s, False, []) (lines_of content))"

section \<open>Pod events\<close>

definition reEvent :: re where
  "reEvent = re_seq [Re_Bol, re_plus re_space, re_plus re_nonspace, re_plus re_space,
     Re_Cap (re_alt [re_lit ''Warning'', re_lit ''Normal'']), re_plus re_space, Re_Cap (re_plus re_word), re_lit '':'',
     re_plus re_space, Re_Cap (Re_Star True re_any), Re_Eol]"

definition event_line :: "diagnosticSignals \<Rightarrow> string \<Rightarrow> diagnosticSignals" where
  "event_line s line =
     (case FindStringSubmatch reEvent line of
        Some (_ # m1 # m2 # m3 # _) \<Rightarrow>
          s\<lparr>sg_eventMessages := sg_eventMessages s @ [\<lparr>ev_eventType = m1, ev_reason = m2, ev_message = m3\<rparr>]\<rparr>
      | _ \<Rightarrow> s)"

definition parsePodEvents :: "string \<Rightarrow> diagnosticSignals \<Rightarrow> diagnosticSignals" where
  "parsePodEvents content s = foldl event_line s (lines_of content)"

section \<open>Pod logs\<close>

definition logErrorPatterns :: "(string \<times> re) list" where
  "logErrorPatterns = [
     (''oom'', re_alt [re_ilit ''OOMKilled'', re_ilit ''OutOfMemory'', re_ilit ''cannot allocate memory'']),
     (''probe-failure'', re_seq [re_alt [re_ilit ''Readiness'', re_ilit ''Liveness'', re_ilit ''Startup''], re_ilit '' probe failed'']),
     (''python-traceback'', re_seq [Re_Bol, re_lit ''Traceback (most recent call last):'']),
     (''python-exception'', re_seq [Re_Bol, Re_Star True re_word, re_alt [re_lit ''Error'', re_lit ''Exception''], re_lit '':'']),
     (''java-exception'', re_lit ''Exception in thread''),
     (''java-caused-by'', re_seq [Re_Bol, re_lit ''Caused by:'']),
     (''java-oom'', re_lit ''java.lang.OutOfMemoryError''),
     (''java-stacktrace'', re_seq [Re_Bol, re_plus re_space, re_lit ''at'', re_plus re_space,
        re_plus (Re_Set (\<lambda>c. is_word_char c \<or> c = CHR ''.'' \<or> c = CHR ''$'')), re_lit ''('',
        re_plus (Re_Set (\<lambda>c. is_word_char c \<or> c = CHR ''.'')), re_lit '':'', re_plus re_digit, re_lit '')'']),
     (''go-panic'', re_seq [Re_Bol, re_lit ''panic:'']),
     (''go-fatal'', re_seq [Re_Bol, re_lit ''fatal error:'']),
     (''go-goroutine'', re_seq [Re_Bol, re_lit ''goroutine '', re_plus re_digit, re_lit '' [running]:'']),
     (''node-unhandled'', re_lit ''UnhandledPromiseRejection''),
     (''node-error'', re_seq [Re_Bol, re_alt [re_lit ''Type'', re_lit ''Reference'', re_lit ''Syntax'', re_lit ''Range''], re_lit ''Error:'']),
     (''dotnet-exception'', re_alt [re_seq [re_lit ''System.'', re_plus re_word, re_lit ''Exception''], re_lit ''Unhandled exception'']),
     (''rust-panic'', re_seq [re_lit (''thread '' @ [CHR 0x27]), Re_Star True re_any, re_lit ([CHR 0x27] @ '' panicked at'')]),
     (''ruby-error'', re_alt [re_lit ''RuntimeError'', re_lit ''NoMethodError'', re_lit ''ArgumentError'', re_lit ''LoadError'']),
     (''connection-refused'', re_alt [re_ilit ''connection refused'', re_ilit ''ECONNREFUSED'']),
     (''connection-reset'', re_alt [re_ilit ''connection reset'', re_ilit ''ECONNRESET'']),
     (''timeout'', re_alt [re_ilit ''timeout exceeded'',
        re_seq [re_ilit ''dial tcp'', Re_Star True re_any, re_ilit ''timeout''], re_ilit ''context deadline exceeded'']),
     (''dns-failure'', re_alt [re_ilit ''no such host'', re_ilit ''Name or service not known'', re_ilit ''NXDOMAIN'']),
     (''tls-error'', re_alt [re_ilit ''tls handshake'',
        re_seq [re_ilit ''certificate '', re_alt [re_ilit ''expired'', re_ilit ''not valid'', re_ilit ''unknown'']]]),
     (''permission-denied'', re_alt [re_ilit ''permission denied'', re_ilit ''EACCES'', re_ilit ''403 Forbidden'', re_ilit ''Unauthorized'']),
     (''auth-failure'', re_alt [re_ilit ''authentication failed'', re_ilit ''invalid credentials'', re_ilit ''token expired'']),
     (''no-such-file'', re_alt [re_ilit ''No such file or directory'', re_ilit ''ENOENT'']),
     (''disk-full'', re_alt [re_ilit ''no space left on device'', re_ilit ''ENOSPC'']),
     (''read-only-fs'', re_alt [re_ilit ''read-only file system'', re_ilit ''EROFS'']),
     (''segfault'', re_alt [re_ilit ''segmentation fault'', re_ilit ''SIGSEGV'', re_ilit ''SIGABRT'', re_ilit ''signal: killed'']),
     (''command-not-found'', re_alt [re_ilit ''command not found'', re_ilit ''exec format error'']),
     (''db-connection'', re_seq [re_ilit ''could not connect to '',
        re_alt [re_ilit ''database'', re_ilit ''server'', re_ilit ''postgres'', re_ilit ''mysql'', re_ilit ''redis'', re_ilit ''mongo'']]),
     (''db-error'', re_alt [re_ilit ''deadlock'', re_ilit ''duplicate key'', re_ilit ''constraint violation'',
        re_seq [re_ilit ''table '', Re_Star True re_any, re_ilit ('' doesn'' @ [CHR 0x27] @ ''t exist'')]]),
     (''level-fatal'', re_seq [Re_Bol, Re_Star True re_any, Re_Wordb, re_ilit ''FATAL'', Re_Wordb]),
     (''level-critical'', re_seq [Re_Bol, Re_Star True re_any, Re_Wordb, re_ilit ''CRITICAL'', Re_Wordb]),
     (''level-error'', re_seq [Re_Bol, Re_Star True re_any, Re_Wordb, re_ilit ''ERROR'', Re_Wordb])]"

definition containerBlockHeader :: re where
  "containerBlockHeader = re_seq [Re_Bol, re_lit ''--- '', re_opt (re_lit ''Init ''), re_lit ''Container:'']"

text \<open>The slice expression panics out of range; the bounds it is called with are always in range.\<close>

definition extractContextWindow :: "string list \<Rightarrow> int \<Rightarrow> int \<Rightarrow> int \<Rightarrow> string option" where
  "extractContextWindow lines matchIdx before aft =
     (let start0 = matchIdx - before;
          start = (if start0 < 0 then 0 else start0);
          end0 = matchIdx + aft + 1;
          end1 = (if end0 > int (length lines) then int (length lines) else end0);
          end2 = (if end1 - start > 5 then start + 5 else end1)
      in if start \<le> end2 \<and> end2 \<le> int (length lines)
         then Some (join [CHR 0x0A] (take (nat (end2 - start)) (drop (nat start) lines)))
         else None)"

fun first_pattern :: "(string \<times> re) list \<Rightarrow> string \<Rightarrow> string option" where
  "first_pattern [] line = None"
| "first_pattern ((name, pat) # ps) line = (if MatchString pat line then Some name else first_pattern ps line)"

definition maxMatches :: int where "maxMatches = 10"

text \<open>The loop over the lines from index \<open>i\<close> on; \<open>None\<close> is a panic of the slice expression.\<close>

fun log_lines :: "string list \<Rightarrow> string list \<Rightarrow> int \<Rightarrow> int \<Rightarrow> logErrorSignal list \<Rightarrow> logErrorSignal list option" where
  "log_lines all [] i matched errs = Some errs"
| "log_lines all (line # rest) i matched errs =
     (if matched \<ge> maxMatches then Some errs
      else if MatchString containerBlockHeader line then log_lines all rest (i + 1) matched errs
      else let trimmed = trim_space line in
        if trimmed = [] \<or> trimmed = ''(no logs)'' then log_lines all rest (i + 1) matched errs
        else case first_pattern logErrorPatterns line of
            None \<Rightarrow> log_lines all rest (i + 1) matched errs
          | Some name \<Rightarrow>
              (case extractContextWindow all i 3 1 of
                 None \<Rightarrow> None
               | Some snippet \<Rightarrow>
                   log_lines all rest (i + 1) (matched + 1) (errs @ [\<lparr>le_pattern = name, le_snippet = snippet\<rparr>])))"

definition parsePodLogs :: "string \<Rightarrow> diagnosticSignals \<Rightarrow> diagnosticSignals option" where
  "parsePodLogs content s =
     (let lines = lines_of content in
      case log_lines lines lines 0 0 (sg_logErrors s) of
        None \<Rightarrow> None
      | Some errs \<Rightarrow> Some (s\<lparr>sg_logErrors := errs\<rparr>))"

section \<open>Owner chain, ReplicaSet, PVC and node\<close>

definition reDeploymentOwner :: re where
  "reDeploymentOwner = re_seq [re_lit ''Deployment/'', Re_Cap (re_plus re_nonspace)]"

definition reReplicaCounts :: re where
  "reReplicaCounts = re_seq [re_lit ''Replicas:'', re_plus re_space, Re_Cap (re_plus re_digit), re_plus re_space,
     re_lit ''desired,'', re_plus re_space, Re_Cap (re_plus re_digit), re_plus re_space, re_lit ''ready,'', re_plus re_space,
     Re_Cap (re_plus re_digit), re_plus re_space, re_lit ''available'']"

definition set_replicas :: "string \<Rightarrow> string \<Rightarrow> string \<Rightarrow> diagnosticSignals \<Rightarrow> diagnosticSignals" where
  "set_replicas m1 m2 m3 s =
     s\<lparr>sg_desiredReplicas := atoi m1, sg_readyReplicas := atoi m2, sg_availableReplicas := atoi m3\<rparr>"

definition owner_line :: "diagnosticSignals \<Rightarrow> string \<Rightarrow> diagnosticSignals" where
  "owner_line s line =
     (let s1 = (case FindStringSubmatch reDeploymentOwner line of
            Some (_ # m1 # _) \<Rightarrow> s\<lparr>sg_deploymentName := m1\<rparr> | _ \<Rightarrow> s)
      in case FindStringSubmatch reReplicaCounts line of
           Some (_ # m1 # m2 # m3 # _) \<Rightarrow> set_replicas m1 m2 m3 s1 | _ \<Rightarrow> s1)"

definition parseOwnerChain :: "string \<Rightarrow> diagnosticSignals \<Rightarrow> diagnosticSignals" where
  "parseOwnerChain content s = foldl owner_line s (lines_of content)"

definition reDeploymentLine :: re where
  "reDeploymentLine = re_seq [Re_Bol, re_lit ''Deployment:'', re_plus re_space, re_plus re_nonspace, re_lit ''/'',
     Re_Cap (re_plus re_nonspace)]"

definition reDesiredReadyAvail :: re where
  "reDesiredReadyAvail = re_seq [re_lit ''Desired:'', re_plus re_space, Re_Cap (re_plus re_digit), re_lit '','',
     re_plus re_space, re_lit ''Ready:'', re_plus re_space, Re_Cap (re_plus re_digit), re_lit '','', re_plus re_space,
     re_lit ''Available:'', re_plus re_space, Re_Cap (re_plus re_digit)]"

definition reCondition :: re where
  "reCondition = re_seq [re_lit ''Condition'', re_plus re_space, Re_Cap (re_plus re_word), re_lit '':'', re_plus re_space,
     re_plus re_word, re_plus re_space, re_lit ''(Reason:'', re_plus re_space, Re_Cap (re_plus re_word), re_lit '')'']"

definition replicaset_line :: "diagnosticSignals \<Rightarrow> string \<Rightarrow> diagnosticSignals" where
  "replicaset_line s line =
     (let s1 = (case FindStringSubmatch reDeploymentLine line of
            Some (_ # m1 # _) \<Rightarrow> if sg_deploymentName s = [] then s\<lparr>sg_deploymentName := m1\<rparr> else s | _ \<Rightarrow> s);
          s2 = (case FindStringSubmatch reDesiredReadyAvail line of
            Some (_ # m1 # m2 # m3 # _) \<Rightarrow> set_replicas m1 m2 m3 s1 | _ \<Rightarrow> s1)
      in case FindStringSubmatch reCondition line of
           Some (_ # m1 # m2 # _) \<Rightarrow> s2\<lparr>sg_rolloutCondition := m2\<rparr> | _ \<Rightarrow> s2)"

definition parseReplicaSetStatus :: "string \<Rightarrow> diagnosticSignals \<Rightarrow> diagnosticSignals" where
  "parseReplicaSetStatus content s = foldl replicaset_line s (lines_of content)"

definition rePVCPhase :: re where
  "rePVCPhase = re_seq [Re_Bol, re_lit ''Phase:'', re_plus re_space, Re_Cap (re_plus re_nonspace)]"

definition reStorageClass :: re where
  "reStorageClass = re_seq [Re_Bol, re_lit ''StorageClass:'', re_plus re_space, Re_Cap (re_plus re_nonspace)]"

definition pvc_line :: "diagnosticSignals \<Rightarrow> string \<Rightarrow> diagnosticSignals" where
  "pvc_line s line =
     (let s1 = (case FindStringSubmatch rePVCPhase line of Some (_ # m1 # _) \<Rightarrow> s\<lparr>sg_pvcPhase := m1\<rparr> | _ \<Rightarrow> s)
      in case FindStringSubmatch reStorageClass line of Some (_ # m1 # _) \<Rightarrow> s1\<lparr>sg_storageClass := m1\<rparr> | _ \<Rightarrow> s1)"

definition parsePVCStatus :: "string \<Rightarrow> diagnosticSignals \<Rightarrow> diagnosticSignals" where
  "parsePVCStatus content s = foldl pvc_line s (lines_of content)"

definition reNodeCondition :: re where
  "reNodeCondition = re_seq [Re_Bol, re_plus re_space, Re_Cap (re_plus re_word), re_lit '':'', re_plus re_space,
     Re_Cap (re_alt [re_lit ''True'', re_lit ''False'', re_lit ''Unknown''])]"

definition node_line :: "diagnosticSignals \<Rightarrow> string \<Rightarrow> diagnosticSignals" where
  "node_line s line =
     (case FindStringSubmatch reNodeCondition line of
        Some (_ # m1 # m2 # _) \<Rightarrow>
          if m1 = ''Ready'' then (if m2 \<noteq> ''True'' then s\<lparr>sg_nodeNotReady := True\<rparr> else s)
          else if m1 = ''MemoryPressure'' then (if m2 = ''True'' then s\<lparr>sg_memoryPressure := True\<rparr> else s)
          else if m1 = ''DiskPressure'' then (if m2 = ''True'' then s\<lparr>sg_diskPressure := True\<rparr> else s)
          else s
      | _ \<Rightarrow> s)"

definition parseNodeConditions :: "string \<Rightarrow> diagnosticSignals \<Rightarrow> diagnosticSignals" where
  "parseNodeConditions content s = foldl node_line s (lines_of content)"

definition parse_section :: "DiagnosticSection \<Rightarrow> diagnosticSignals \<Rightarrow> diagnosticSignals option" where
  "parse_section sec s =
     (if sec_Error sec \<noteq> [] \<and> sec_Content sec = [] then Some s
      else if sec_Title sec = ''Pod Description'' then Some (parsePodDescription (sec_Content sec) s)
      else if sec_Title sec = ''Pod Events'' then Some (parsePodEvents (sec_Content sec) s)
      else if sec_Title sec = ''Pod Logs'' then parsePodLogs (sec_Content sec) s
      else if sec_Title sec = ''Owner Chain'' then Some (parseOwnerChain (sec_Content sec) s)
      else if sec_Title sec = ''ReplicaSet Status'' then Some (parseReplicaSetStatus (sec_Content sec) s)
      else if sec_Title sec = ''PVC Status'' then Some (parsePVCStatus (sec_Content sec) s)
      else if sec_Title sec = ''Node Conditions'' then Some (parseNodeConditions (sec_Content sec) s)
      else Some s)"

fun extract_loop :: "DiagnosticSection list \<Rightarrow> diagnosticSignals \<Rightarrow> diagnosticSignals option" where
  "extract_loop [] s = Some s"
| "extract_loop (sec # secs) s = (case parse_section sec s of None \<Rightarrow> None | Some s' \<Rightarrow> extract_loop secs s')"

definition extractSignals :: "DiagnosticBundle \<Rightarrow> diagnosticSignals option" where
  "extractSignals bundle = extract_loop (db_Sections bundle) no_signals"

fun first_nonempty :: "string list \<Rightarrow> string" where
  "first_nonempty [] = []"
| "first_nonempty (line # lines) =
     (let trimmed = trim_space line in
      if trimmed \<noteq> [] \<and> \<not> MatchString containerBlockHeader trimmed then trimmed else first_nonempty lines)"

definition firstNonEmptyLine :: "string \<Rightarrow> string" where
  "firstNonEmptyLine text = first_nonempty (lines_of text)"

section \<open>The log scanner\<close>

definition window :: "string list \<Rightarrow> nat \<Rightarrow> string list" where
  "window lines i = take (min (i + 2) (length lines) - (i - 3)) (drop (i - 3) lines)"

lemma window_length: "length (window lines i) \<le> 5"
  by (simp add: window_def)

lemma window_has_match: "i < length lines \<Longrightarrow> lines ! i \<in> set (window lines i)"
proof -
  assume "i < length lines"
  then have "window lines i ! (i - (i - 3)) = lines ! i" "i - (i - 3) < length (window lines i)"
    by (auto simp: window_def)
  then show ?thesis by (metis nth_mem)
qed

lemma extractContextWindow_total:
  assumes "i < length lines"
  shows "extractContextWindow lines (int i) 3 1 = Some (join nl (window lines i))"
proof -
  define lo hi where "lo = i - 3" and "hi = min (i + 2) (length lines)"
  have a: "(if int i - 3 < 0 then 0 else int i - 3) = int lo" by (auto simp: lo_def)
  have b: "(if int i + 1 + 1 > int (length lines) then int (length lines) else int i + 1 + 1) = int hi"
    by (auto simp: hi_def)
  have c: "(if int hi - int lo > 5 then int lo + 5 else int hi) = int hi" "lo \<le> hi" "hi \<le> length lines"
    using assms by (auto simp: lo_def hi_def)
  have d: "nat (int hi - int lo) = hi - lo" by auto
  have w: "window lines i = take (hi - lo) (drop lo lines)" by (simp only: window_def lo_def hi_def)
  show ?thesis
    unfolding extractContextWindow_def Let_def a b c(1) using c(2,3)
    by (simp add: d w nl_def)
qed

definition scanned :: "string \<Rightarrow> bool" where
  "scanned line \<longleftrightarrow> \<not> MatchString containerBlockHeader line \<and> trim_space line \<noteq> [] \<and> trim_space line \<noteq> ''(no logs)''"

text \<open>The error signal of the line at index \<open>i\<close>, if it is scanned and has a pattern.\<close>

definition line_signal :: "string list \<Rightarrow> nat \<Rightarrow> logErrorSignal option" where
  "line_signal lines i =
     (if scanned (lines ! i)
      then map_option (\<lambda>name. \<lparr>le_pattern = name, le_snippet = join nl (window lines i)\<rparr>)
             (first_pattern logErrorPatterns (lines ! i))
      else None)"

lemma log_lines_spec:
  assumes "i \<le> length lines" "k \<le> 10"
  shows "log_lines lines (drop i lines) (int i) (int k) errs =
    Some (errs @ take (10 - k) (List.map_filter (line_signal lines) [i..<length lines]))"
  using assms
proof (induction "length lines - i" arbitrary: i k errs)
  case 0
  then show ?case by (simp add: map_filter_simps)
next
  case (Suc n)
  then have i: "i < length lines" and n: "n = length lines - Suc i" by auto
  have d: "drop i lines = lines ! i # drop (Suc i) lines" using i by (simp add: Cons_nth_drop_Suc)
  have u: "[i..<length lines] = i # [Suc i..<length lines]" using i by (simp add: upt_conv_Cons)
  have IH: "k' \<le> 10 \<Longrightarrow> log_lines lines (drop (Suc i) lines) (int (Suc i)) (int k') errs' =
    Some (errs' @ take (10 - k') (List.map_filter (line_signal lines) [Suc i..<length lines]))" for k' errs'
    using Suc.hyps(1) [OF n] i by simp
  show ?case
  proof (cases "k = 10")
    case True
    then show ?thesis by (simp add: d maxMatches_def)
  next
    case False
    then have k: "k < 10" "Suc k \<le> 10" "10 - k = Suc (10 - Suc k)" using Suc.prems by auto
    show ?thesis
      unfolding d u
      using k IH [of k errs] IH [OF k(2), of "errs @ [s]" for s] i
      by (auto simp: maxMatches_def Let_def line_signal_def scanned_def map_filter_simps
          extractContextWindow_total add.commute split: option.splits)
  qed
qed

lemma parsePodLogs_spec:
  "parsePodLogs content s = Some (s\<lparr>sg_logErrors := sg_logErrors s @
     take 10 (List.map_filter (line_signal (lines_of content)) [0..<length (lines_of content)])\<rparr>)"
  using log_lines_spec [of 0 "lines_of content" 0 "sg_logErrors s"] by (simp add: parsePodLogs_def Let_def)

lemma extract_loop_total: "\<exists>s'. extract_loop secs s = Some s'"
  by (induction secs arbitrary: s) (auto simp: parse_section_def parsePodLogs_spec split: option.split)

section \<open>Log patterns\<close>

lemma re_seq_simps [simp]:
  "re_matches (re_seq []) p u r \<longleftrightarrow> u = []"
  "re_matches (re_seq (a # as)) p u r \<longleftrightarrow> re_matches (Re_Seq a (re_seq as)) p u r"
  by (auto simp: re_seq_def)

lemma re_seq_set: "re_matches (Re_Seq (Re_Set P) b) p u r \<longleftrightarrow> (\<exists>c v. u = c # v \<and> P c \<and> re_matches b (Some c) v r)"
  by (auto simp: Cons_eq_append_conv) (metis after.simps append_Cons append_Nil)

lemma re_lit_matches [simp]: "re_matches (re_lit w) p u r \<longleftrightarrow> u = w"
proof -
  have "re_matches (re_seq (map (\<lambda>c. Re_Set (\<lambda>d. d = c)) w)) p u r \<longleftrightarrow> u = w" for p u
    by (induction w arbitrary: p u) (auto simp: re_seq_set simp del: re_matches_simps)
  then show ?thesis by (simp add: re_lit_def)
qed

lemma re_ilit_matches [simp]: "re_matches (re_ilit w) p u r \<longleftrightarrow> map lower_char u = map lower_char w"
proof -
  have "re_matches (re_seq (map (\<lambda>c. Re_Set (\<lambda>d. lower_char d = lower_char c)) w)) p u r \<longleftrightarrow>
      map lower_char u = map lower_char w" for p u
    by (induction w arbitrary: p u) (auto simp: map_eq_Cons_conv re_seq_set simp del: re_matches_simps)
  then show ?thesis by (simp add: re_ilit_def)
qed

lemma re_star_set_matches [simp]: "re_matches (Re_Star g (Re_Set P)) p u r \<longleftrightarrow> list_all P u"
proof (induction u arbitrary: p)
  case Nil
  then show ?case by (simp add: star0)
next
  case (Cons c u)
  have "re_matches (Re_Star g (Re_Set P)) p (c # u) r \<longleftrightarrow> P c \<and> re_matches (Re_Star g (Re_Set P)) (Some c) u r"
  proof
    assume "re_matches (Re_Star g (Re_Set P)) p (c # u) r"
    then show "P c \<and> re_matches (Re_Star g (Re_Set P)) (Some c) u r" by (subst (asm) star_unfold) auto
  next
    assume "P c \<and> re_matches (Re_Star g (Re_Set P)) (Some c) u r"
    then show "re_matches (Re_Star g (Re_Set P)) p (c # u) r"
      using starS [of "Re_Set P" p "[c]" u r g] by simp
  qed
  then show ?case using Cons.IH by simp
qed

lemma match_litI: "s = x @ w @ r \<Longrightarrow> MatchString (re_lit w) s"
  by (auto simp: MatchString_iff)

abbreviation pattern_of :: "string \<Rightarrow> re" where
  "pattern_of name \<equiv> the (map_of logErrorPatterns name)"

lemma java_oom_is_oom:
  assumes "MatchString (pattern_of ''java-oom'') line"
  shows "MatchString (pattern_of ''oom'') line"
proof -
  from assms obtain x r where "line = x @ ''java.lang.OutOfMemoryError'' @ r"
    by (auto simp: MatchString_iff logErrorPatterns_def)
  then have "line = (x @ ''java.lang.'') @ ''OutOfMemory'' @ (''Error'' @ r)" by simp
  moreover have "re_matches (pattern_of ''oom'') p ''OutOfMemory'' r" for p r
    by (simp add: logErrorPatterns_def)
  ultimately show ?thesis unfolding MatchString_iff by blast
qed

lemma node_error_is_python:
  assumes "MatchString (pattern_of ''node-error'') line"
  shows "MatchString (pattern_of ''python-exception'') line"
proof -
  from assms obtain x u r where l: "line = x @ u @ r" and m: "re_matches (pattern_of ''node-error'') (after None x) u r"
    unfolding MatchString_iff by blast
  then obtain k where k: "k \<in> {''Type'', ''Reference'', ''Syntax'', ''Range''}" "u = k @ ''Error:''" and x: "after None x = None"
    by (auto simp: logErrorPatterns_def)
  have "list_all is_word_char k" using k by (auto simp: is_word_char_def is_digit_char_def lower_char_def)
  then have "re_matches (pattern_of ''python-exception'') (after None x) (k @ ''Error'' @ '':'') r"
    using x by (simp add: logErrorPatterns_def) (rule exI [of _ k], rule exI [of _ "''Error:''"], simp add: exI [of _ "''Error''"])
  moreover have "line = x @ (k @ ''Error'' @ '':'') @ r" using l k by simp
  ultimately show ?thesis by (subst MatchString_iff) blast
qed

text \<open>
  Two log patterns are dead: every line that matches \<open>java-oom\<close> matches the earlier \<open>oom\<close>, and every
  line that matches \<open>node-error\<close> matches the earlier \<open>python-exception\<close>, so no log error is ever
  labelled with either name.
\<close>

theorem shadowed_log_patterns:
  "first_pattern logErrorPatterns line \<noteq> Some ''java-oom'' \<and> first_pattern logErrorPatterns line \<noteq> Some ''node-error''"
  using java_oom_is_oom [of line] node_error_is_python [of line]
  by (auto simp: logErrorPatterns_def split: if_splits)

section \<open>Images\<close>

definition is_status_line :: "string \<Rightarrow> bool" where
  "is_status_line line = MatchString reContainerStatus line"

definition is_image_line :: "string \<Rightarrow> bool" where
  "is_image_line line = MatchString reContainerImage line"

lemma description_line_before:
  "sg_containerStates s = [] \<Longrightarrow> \<not> is_status_line line \<Longrightarrow>
   \<exists>s' spec'. description_line (s, False, spec) line = (s', False, spec') \<and> sg_containerStates s' = []"
  by (auto simp: description_line_def status_line_def current_line_def is_status_line_def MatchString_def
      split: option.split list.split)

lemma description_before:
  "sg_containerStates s = [] \<Longrightarrow> (\<And>l. l \<in> set lines \<Longrightarrow> \<not> is_status_line l) \<Longrightarrow>
   \<exists>s' spec'. foldl description_line (s, False, spec) lines = (s', False, spec') \<and> sg_containerStates s' = []"
proof (induction lines arbitrary: s spec)
  case (Cons l lines)
  then show ?case using description_line_before [of s l spec] by fastforce
qed simp

definition no_images :: "diagnosticSignals \<times> bool \<times> string \<Rightarrow> bool" where
  "no_images st = list_all (\<lambda>c. cs_image c = []) (sg_containerStates (fst st))"

lemma update_last_images:
  "no_images (s, cur, spec) \<Longrightarrow> (\<And>c. cs_image (f c) = cs_image c) \<Longrightarrow> no_images (update_last f s, cur', spec')"
  by (cases "sg_containerStates s" rule: rev_cases) (auto simp: no_images_def update_last_def)

lemma description_line_after:
  assumes "no_images st" "\<not> is_image_line line"
  shows "no_images (description_line st line)"
proof -
  obtain s cur spec where st: "st = (s, cur, spec)" by (cases st)
  have cur: "no_images (current_line st line)"
    using assms(1) unfolding st current_line_def
    by (auto intro!: update_last_images split: option.split list.split)
  then have "no_images (status_line st line)"
    using assms(1) unfolding st status_line_def
    by (auto simp: no_images_def no_container_def split: option.split list.split)
  then show ?thesis
    using assms unfolding st description_line_def is_image_line_def MatchString_def
    by (auto simp: no_images_def split: option.split list.split)
qed

lemma description_after:
  "no_images st \<Longrightarrow> (\<And>l. l \<in> set lines \<Longrightarrow> \<not> is_image_line l) \<Longrightarrow> no_images (foldl description_line st lines)"
  by (induction lines arbitrary: st) (simp_all add: description_line_after)

text \<open>
  A pod description that lists the container specifications (with their images) before the container
  statuses, as \<open>pod_describe.go\<close> writes it, gives no container an image: the parser attaches an image only
  to a container whose status it has already seen.
\<close>

theorem images_lost_when_specs_first:
  assumes "lines_of content = specs @ statuses" "sg_containerStates s = []"
    "\<forall>l \<in> set specs. \<not> is_status_line l" "\<forall>l \<in> set statuses. \<not> is_image_line l"
  shows "\<forall>c \<in> set (sg_containerStates (parsePodDescription content s)). cs_image c = []"
proof -
  obtain s' spec where d: "foldl description_line (s, False, []) specs = (s', False, spec)" "sg_containerStates s' = []"
    using description_before [OF assms(2), of specs] assms(3) by blast
  then have "no_images (foldl description_line (s, False, []) (specs @ statuses))"
    using description_after [of "(s', False, spec)" statuses] assms(4) by (simp add: no_images_def)
  then show ?thesis by (simp add: parsePodDescription_def assms(1) no_images_def list_all_iff)
qed

lemma split_char_join:
  "ws \<noteq> [] \<Longrightarrow> (\<And>w. w \<in> set ws \<Longrightarrow> sep \<notin> set w) \<Longrightarrow> split_char sep (join [sep] ws) = ws"
  by (induction "[sep]" ws rule: join.induct) (auto simp: split_char_no_sep split_char_append)

text \<open>
  C6. The log scanner is the specification: it appends, in the order of the lines, the signals of the
  first ten lines that are scanned (not a container header, not blank) and match a pattern, each labelled
  with the first pattern of the table that matches, with a snippet of at most five lines that contains the
  matching line. It never panics.
\<close>

theorem log_scanner_spec:
  "parsePodLogs content s = Some (s\<lparr>sg_logErrors := sg_logErrors s @
     take 10 (List.map_filter (line_signal (lines_of content)) [0..<length (lines_of content)])\<rparr>) \<and>
   (\<forall>i < length (lines_of content). length (window (lines_of content) i) \<le> 5 \<and>
      lines_of content ! i \<in> set (window (lines_of content) i))"
  by (simp add: parsePodLogs_spec window_length window_has_match)

text \<open>
  The error line that the crash-loop rule quotes as the last error is the first line of the context
  window, up to three lines before the line that matched, whenever that line is neither blank nor a container header.
\<close>

theorem error_line_is_first_of_window:
  assumes "i < length (lines_of content)" "trim_space (lines_of content ! (i - 3)) \<noteq> []"
    "\<not> MatchString containerBlockHeader (trim_space (lines_of content ! (i - 3)))"
    "line_signal (lines_of content) i = Some le"
  shows "firstNonEmptyLine (le_snippet le) = trim_space (lines_of content ! (i - 3))"
proof -
  let ?ls = "lines_of content"
  have le: "le_snippet le = join nl (window ?ls i)"
    using assms(4) by (auto simp: line_signal_def split: if_splits option.splits)
  have ne: "window ?ls i \<noteq> []" using assms(1) by (auto simp: window_def)
  have "CHR 0x0A \<notin> set w" if "w \<in> set (window ?ls i)" for w
    using that set_take_subset set_drop_subset unfolding window_def lines_of_def
    by (metis in_mono sep_not_in_split_char)
  then have "lines_of (join nl (window ?ls i)) = window ?ls i"
    using split_char_join [OF ne] by (simp add: lines_of_def nl_def)
  moreover have "window ?ls i = ?ls ! (i - 3) # take (min (i + 2) (length ?ls) - (i - 3) - 1) (drop (Suc (i - 3)) ?ls)"
  proof -
    have "drop (i - 3) ?ls = ?ls ! (i - 3) # drop (Suc (i - 3)) ?ls" using assms(1) by (simp add: Cons_nth_drop_Suc)
    moreover have "0 < min (i + 2) (length ?ls) - (i - 3)" using assms(1) by auto
    ultimately show ?thesis unfolding window_def by (simp only: take_Cons') (simp add: min_def)
  qed
  ultimately have l: "lines_of (join nl (window ?ls i)) =
      ?ls ! (i - 3) # take (min (i + 2) (length ?ls) - (i - 3) - 1) (drop (Suc (i - 3)) ?ls)" by (rule trans)
  show ?thesis using assms(2,3) unfolding firstNonEmptyLine_def le l by (simp add: Let_def)
qed

text \<open>A container whose log says that it was killed.\<close>

definition ex_log :: string where
  "ex_log = ''(no logs)'' @ nl @ ''OOMKilled''"

definition ex_description :: string where
  "ex_description = ''Container: app'' @ nl @ ''  Image: repo/app:1'' @ nl @ ''  app: ready=false, restartCount=7''"

lemma ex_log_lines: "lines_of ex_log = [''(no logs)'', ''OOMKilled'']"
  by (simp add: lines_of_def ex_log_def nl_def)

lemma ex_trim: "trim_space ''(no logs)'' = ''(no logs)''" "trim_space ''OOMKilled'' = ''OOMKilled''"
  by code_simp+

lemma ex_oom: "first_pattern logErrorPatterns ''OOMKilled'' = Some ''oom''"
  by (subst logErrorPatterns_def, subst first_pattern.simps) (simp add: re_eval)

lemma ex_headers: "\<not> MatchString containerBlockHeader ''OOMKilled''" "\<not> MatchString containerBlockHeader ''(no logs)''"
  by (simp_all add: containerBlockHeader_def re_eval)

lemma ex_signals: "line_signal (lines_of ex_log) 0 = None"
  "line_signal (lines_of ex_log) 1 = Some \<lparr>le_pattern = ''oom'', le_snippet = ex_log\<rparr>"
  unfolding ex_log_lines by (simp_all add: line_signal_def scanned_def ex_trim ex_oom ex_headers window_def ex_log_def nl_def)

theorem log_scanner_spec_witness:
  "parsePodLogs ex_log no_signals = Some (no_signals\<lparr>sg_logErrors := [\<lparr>le_pattern = ''oom'', le_snippet = ex_log\<rparr>]\<rparr>) \<and>
   lines_of ex_log ! 1 \<in> set (window (lines_of ex_log) 1)"
proof -
  have "[0..<length (lines_of ex_log)] = [0, 1]" by (simp add: ex_log_lines upt_rec)
  then have m: "take 10 (List.map_filter (line_signal (lines_of ex_log)) [0..<length (lines_of ex_log)]) =
      [\<lparr>le_pattern = ''oom'', le_snippet = ex_log\<rparr>]"
    by (simp only: map_filter_simps ex_signals option.case) simp
  have "1 < length (lines_of ex_log)" by (simp add: ex_log_lines)
  then show ?thesis using log_scanner_spec [of ex_log no_signals] unfolding m by (auto simp: no_signals_def)
qed

theorem error_line_is_first_of_window_witness: "firstNonEmptyLine ex_log = ''(no logs)''"
  using error_line_is_first_of_window [of 1 ex_log, OF _ _ _ ex_signals(2)]
  by (simp add: ex_log_lines ex_trim ex_headers)

theorem images_lost_when_specs_first_witness:
  "set (map cs_image (sg_containerStates (parsePodDescription ex_description no_signals))) \<subseteq> {[]}"
proof -
  let ?specs = "[''Container: app'', ''  Image: repo/app:1'']"
  let ?statuses = "[''  app: ready=false, restartCount=7'']"
  have l: "lines_of ex_description = ?specs @ ?statuses" by (simp add: lines_of_def ex_description_def nl_def)
  have s: "\<forall>l \<in> set ?specs. \<not> is_status_line l" "\<forall>l \<in> set ?statuses. \<not> is_image_line l"
    by (simp_all add: is_status_line_def is_image_line_def reContainerStatus_def reContainerImage_def re_eval)
  have "sg_containerStates no_signals = []" by (simp add: no_signals_def)
  from images_lost_when_specs_first [OF l this s] show ?thesis by auto
qed

end
