(* ===== verification/Response.thy ===== *)
theory Response
  imports Analyzers Go_Regex
begin

text \<open>
  The validation of a language model's answer (\<open>internal/analyzer/response.go\<close>): the answer is
  parsed as JSON, then the contents of a markdown code fence, and otherwise a fallback report is
  built. The JSON decoder is the parameter \<open>unmarshal\<close> (a decoding error is \<open>None\<close>); a number
  that JSON can write is a finite float.
\<close>

definition faultEventID :: "DiagnosticBundle \<Rightarrow> string" where
  "faultEventID b =
     (case db_SuperEvent b of
        Some se \<Rightarrow> se_ID se
      | None \<Rightarrow> (case db_FaultEvent b of Some fe \<Rightarrow> fe_ID fe | None \<Rightarrow> []))"

definition originalSeverity :: "DiagnosticBundle \<Rightarrow> Severity" where
  "originalSeverity b =
     (case db_SuperEvent b of
        Some se \<Rightarrow> se_Severity se
      | None \<Rightarrow> (case db_FaultEvent b of Some fe \<Rightarrow> fe_Severity fe | None \<Rightarrow> SeverityWarning))"

record llmResourceRef =
  lr_Kind :: string
  lr_Namespace :: string
  lr_Name :: string

record llmResponse =
  llm_RootCause :: string
  llm_Severity :: string
  llm_Category :: string
  llm_Systemic :: bool
  llm_BlastRadius :: string
  llm_Remediation :: "string list option"
  llm_RelatedResources :: "llmResourceRef list"
  llm_Confidence :: float64

datatype response_error = JSONUnmarshal | MissingRootCause

definition fence :: string where
  "fence = [CHR 0x60, CHR 0x60, CHR 0x60]"

text \<open>
  The fence, optionally followed by \<open>json\<close>, white space, an optional newline, the captured text from
  an opening to a closing brace (as short as possible, over any bytes), white space, an optional
  newline and the closing fence.
\<close>

definition codeFenceRegex :: re where
  "codeFenceRegex = re_seq [re_lit fence, re_opt (re_lit ''json''), Re_Star True re_space, re_opt (re_lit [CHR 0x0A]),
     Re_Cap (re_seq [re_lit ''{'', Re_Star False (Re_Set (\<lambda>c. True)), re_lit ''}'']),
     Re_Star True re_space, re_opt (re_lit [CHR 0x0A]), re_lit fence]"

definition extractJSONFromCodeFence :: "string \<Rightarrow> string" where
  "extractJSONFromCodeFence text =
     (case FindStringSubmatch codeFenceRegex text of
        Some (_ # m # _) \<Rightarrow> trim_space m
      | _ \<Rightarrow> [])"

fun related_refs :: "llmResourceRef list \<Rightarrow> ResourceRef list" where
  "related_refs [] = []"
| "related_refs (rr # rrs) =
     (if lr_Kind rr \<noteq> [] \<and> lr_Name rr \<noteq> []
      then \<lparr>ref_Kind = lr_Kind rr, ref_Namespace = lr_Namespace rr, ref_Name = lr_Name rr, ref_UID = []\<rparr> # related_refs rrs
      else related_refs rrs)"

definition parseLLMJSON ::
    "(string \<Rightarrow> llmResponse option) \<Rightarrow> gotime \<Rightarrow> string \<Rightarrow> DiagnosticBundle \<Rightarrow> string \<Rightarrow> TokenUsage \<Rightarrow>
     response_error + RCAReport" where
  "parseLLMJSON unmarshal now jsonText bundle backend tokens =
     (case unmarshal jsonText of
        None \<Rightarrow> Inl JSONUnmarshal
      | Some resp \<Rightarrow>
          if llm_RootCause resp = [] then Inl MissingRootCause
          else
            let severity = (if IsValid (llm_Severity resp) then llm_Severity resp else originalSeverity bundle);
                category = (if List.member ValidCategories (llm_Category resp) then llm_Category resp else ''unknown'');
                confidence = (if llm_Confidence resp < 0 then 0 else llm_Confidence resp);
                confidence' = (if confidence > 1 then 1 else confidence)
            in Inr \<lparr>rca_FaultEventID = faultEventID bundle, rca_Timestamp = now,
                 rca_RootCause = llm_RootCause resp, rca_Severity = severity, rca_Category = category,
                 rca_Systemic = llm_Systemic resp, rca_BlastRadius = llm_BlastRadius resp,
                 rca_Remediation = (case llm_Remediation resp of None \<Rightarrow> [] | Some rs \<Rightarrow> rs),
                 rca_RelatedResources = related_refs (llm_RelatedResources resp),
                 rca_Confidence = confidence', rca_RawAnalysis = [], rca_DiagnosticBundle = bundle,
                 rca_AnalyzerBackend = backend, rca_TokensUsed = tokens\<rparr>)"

definition buildFallbackReport :: "gotime \<Rightarrow> string \<Rightarrow> DiagnosticBundle \<Rightarrow> string \<Rightarrow> TokenUsage \<Rightarrow> RCAReport" where
  "buildFallbackReport now rawResponse bundle backend tokens =
     \<lparr>rca_FaultEventID = faultEventID bundle, rca_Timestamp = now,
      rca_RootCause = ''Automated analysis failed '' @ [CHR 0xE2, CHR 0x80, CHR 0x94] @ '' raw diagnostics attached'',
      rca_Severity = originalSeverity bundle, rca_Category = ''unknown'', rca_Systemic = False,
      rca_BlastRadius = [], rca_Remediation = [], rca_RelatedResources = [], rca_Confidence = 0,
      rca_RawAnalysis = rawResponse, rca_DiagnosticBundle = bundle, rca_AnalyzerBackend = backend,
      rca_TokensUsed = tokens\<rparr>"

definition ParseLLMResponse ::
    "(string \<Rightarrow> llmResponse option) \<Rightarrow> gotime \<Rightarrow> string \<Rightarrow> DiagnosticBundle \<Rightarrow> string \<Rightarrow> TokenUsage \<Rightarrow> RCAReport" where
  "ParseLLMResponse unmarshal now rawResponse bundle backend tokens =
     (let trimmed = trim_space rawResponse in
      case parseLLMJSON unmarshal now trimmed bundle backend tokens of
        Inr report \<Rightarrow> report\<lparr>rca_RawAnalysis := rawResponse\<rparr>
      | Inl _ \<Rightarrow>
          (let extracted = extractJSONFromCodeFence trimmed in
           case (if extracted \<noteq> [] then parseLLMJSON unmarshal now extracted bundle backend tokens else Inl JSONUnmarshal) of
             Inr report \<Rightarrow> report\<lparr>rca_RawAnalysis := rawResponse\<rparr>
           | Inl _ \<Rightarrow> buildFallbackReport now rawResponse bundle backend tokens))"

section \<open>Every report is sane\<close>

definition bundle_severity_ok :: "DiagnosticBundle \<Rightarrow> bool" where
  "bundle_severity_ok b \<longleftrightarrow> IsValid (originalSeverity b)"

definition sane_report :: "DiagnosticBundle \<Rightarrow> RCAReport \<Rightarrow> bool" where
  "sane_report b r \<longleftrightarrow> rca_FaultEventID r = bundle_id b \<and> rca_DiagnosticBundle r = b \<and>
     IsValid (rca_Severity r) \<and> rca_Category r \<in> set ValidCategories \<and>
     0 \<le> rca_Confidence r \<and> rca_Confidence r \<le> 1 \<and> rca_RootCause r \<noteq> []"

lemma faultEventID_bundle [simp]: "faultEventID b = bundle_id b"
  by (simp add: faultEventID_def bundle_id_def)

lemma unknown_valid [simp]: "''unknown'' \<in> set ValidCategories"
  by (simp add: ValidCategories_def)

lemma related_refs_named: "r \<in> set (related_refs rrs) \<Longrightarrow> ref_Kind r \<noteq> [] \<and> ref_Name r \<noteq> []"
  by (induction rrs) (auto split: if_splits)

lemma parseLLMJSON_sane:
  assumes "bundle_severity_ok b" "parseLLMJSON um now t b backend tokens = Inr r"
  shows "sane_report b r \<and> rca_AnalyzerBackend r = backend \<and> rca_TokensUsed r = tokens \<and>
    (\<forall>x \<in> set (rca_RelatedResources r). ref_Kind x \<noteq> [] \<and> ref_Name x \<noteq> [])"
  using assms
  by (auto simp: parseLLMJSON_def sane_report_def bundle_severity_ok_def Let_def related_refs_named
      split: option.splits if_splits)

lemma fallback_sane:
  assumes "bundle_severity_ok b"
  shows "sane_report b (buildFallbackReport now raw b backend tokens)"
  using assms by (simp add: buildFallbackReport_def sane_report_def bundle_severity_ok_def)

lemma ParseLLMResponse_cases:
  obtains (parsed) t r where "parseLLMJSON um now t b backend tokens = Inr r"
      "ParseLLMResponse um now raw b backend tokens = r\<lparr>rca_RawAnalysis := raw\<rparr>"
    | (fallback) "ParseLLMResponse um now raw b backend tokens = buildFallbackReport now raw b backend tokens"
proof (cases "parseLLMJSON um now (trim_space raw) b backend tokens")
  case (Inr r)
  then show ?thesis by (intro parsed) (auto simp: ParseLLMResponse_def Let_def)
next
  case (Inl e)
  let ?x = "extractJSONFromCodeFence (trim_space raw)"
  let ?second = "if ?x \<noteq> [] then parseLLMJSON um now ?x b backend tokens else Inl JSONUnmarshal"
  show ?thesis
  proof (cases ?second)
    case Inl2: (Inl e2)
    then show ?thesis using Inl by (intro fallback) (simp only: ParseLLMResponse_def Let_def sum.case)
  next
    case (Inr r)
    then have "parseLLMJSON um now ?x b backend tokens = Inr r" by (auto split: if_splits)
    then show ?thesis by (rule parsed) (simp only: ParseLLMResponse_def Let_def sum.case Inl Inr)
  qed
qed

text \<open>
  C7. Whatever text a language model returns and however the JSON in it decodes, the report is
  about the analyzed bundle, names a root cause, has a valid severity, a known category and a
  confidence between 0 and 1, refers only to named resources, and carries the whole answer, the
  backend and the token usage.
\<close>

theorem llm_report_sane:
  assumes "IsValid (originalSeverity b)"
  shows "sane_report b (ParseLLMResponse um now raw b backend tokens) \<and>
    rca_RawAnalysis (ParseLLMResponse um now raw b backend tokens) = raw \<and>
    rca_AnalyzerBackend (ParseLLMResponse um now raw b backend tokens) = backend \<and>
    rca_TokensUsed (ParseLLMResponse um now raw b backend tokens) = tokens \<and>
    (\<forall>x \<in> set (rca_RelatedResources (ParseLLMResponse um now raw b backend tokens)). ref_Kind x \<noteq> [] \<and> ref_Name x \<noteq> [])"
proof -
  have ok: "bundle_severity_ok b" using assms by (simp add: bundle_severity_ok_def)
  show ?thesis
  proof (cases rule: ParseLLMResponse_cases [of um now b backend tokens raw])
    case (parsed t r)
    then show ?thesis using parseLLMJSON_sane [OF ok parsed(1)] by (simp add: sane_report_def)
  next
    case fallback
    then show ?thesis using fallback_sane [OF ok] by (simp add: buildFallbackReport_def)
  qed
qed

definition ex_answer :: llmResponse where
  "ex_answer = \<lparr>llm_RootCause = ''disk'', llm_Severity = ''fatal'', llm_Category = ''magic'', llm_Systemic = True,
     llm_BlastRadius = [], llm_Remediation = None,
     llm_RelatedResources = [\<lparr>lr_Kind = [], lr_Namespace = [], lr_Name = ''x''\<rparr>], llm_Confidence = 7\<rparr>"

theorem llm_report_sane_witness:
  "sane_report (NewDiagnosticBundle 0 None [])
     (ParseLLMResponse (\<lambda>t. if t = ''{x}'' then Some ex_answer else None) 0 '' {x} '' (NewDiagnosticBundle 0 None [])
        ''claude'' \<lparr>tok_Input = 1, tok_Output = 2\<rparr>)"
  using llm_report_sane [of "NewDiagnosticBundle 0 None []"]
  by (simp add: NewDiagnosticBundle_def originalSeverity_def)

end
