(* ===== verification/Rules_Analyzer.thy ===== *)
theory Rules_Analyzer
  imports Rules_Signals Response
begin

text \<open>
  The rules of the rules-based analyzer (\<open>internal/analyzer/rules.go\<close>), the chain in which they are tried, the
  evidence text and \<open>Analyze\<close>, an instance of the interface \<open>analyzer\<close>. The lemmas show that the analyzer is
  total, that its reports are sane and that the first applicable rule decides.
\<close>

section \<open>Helpers\<close>

definition dash :: string where "dash = [CHR 0xE2, CHR 0x80, CHR 0x94]"

definition hasCrashLoop :: "diagnosticSignals \<Rightarrow> bool" where
  "hasCrashLoop s = list_ex (\<lambda>c. cs_stateReason c = ''CrashLoopBackOff'') (sg_containerStates s)"

definition lastExitCode :: "containerSignal \<Rightarrow> goint" where
  "lastExitCode c = (if cs_exitCode c \<noteq> 0 then cs_exitCode c else cs_lastTermExitCode c)"

definition resourceName :: "DiagnosticBundle \<Rightarrow> string" where
  "resourceName b =
     (case db_SuperEvent b of
        Some se \<Rightarrow> ref_Name (se_PrimaryResource se)
      | None \<Rightarrow> (case db_FaultEvent b of Some fe \<Rightarrow> ref_Name (fe_Resource fe) | None \<Rightarrow> []))"

definition isSuperEventSystemic :: "DiagnosticBundle \<Rightarrow> bool" where
  "isSuperEventSystemic b = (db_SuperEvent b \<noteq> None)"

definition blastRadius :: "DiagnosticBundle \<Rightarrow> string" where
  "blastRadius b =
     (case db_SuperEvent b of
        Some se \<Rightarrow> show_int (int (length (se_FaultEvents se))) @ '' resources affected''
      | None \<Rightarrow> [])"

fun related_loop :: "FaultEvent list \<Rightarrow> string list \<Rightarrow> ResourceRef list" where
  "related_loop [] seen = []"
| "related_loop (fe # fes) seen =
     (let r = fe_Resource fe; key = ref_Kind r @ ''/'' @ ref_Namespace r @ ''/'' @ ref_Name r in
      if List.member seen key then related_loop fes seen else r # related_loop fes (key # seen))"

definition bundleRelatedResources :: "DiagnosticBundle \<Rightarrow> ResourceRef list" where
  "bundleRelatedResources b =
     (case db_SuperEvent b of Some se \<Rightarrow> related_loop (se_FaultEvents se) [] | None \<Rightarrow> [])"

definition truncate :: "string \<Rightarrow> nat \<Rightarrow> string" where
  "truncate s maxLen = (if length s \<le> maxLen then s else take (maxLen - 3) s @ ''...'')"

definition logPatternCategory :: "string \<Rightarrow> string" where
  "logPatternCategory pattern =
     (if List.member [''connection-refused'', ''connection-reset'', ''timeout'', ''dns-failure'', ''tls-error'', ''db-connection''] pattern
        then ''networking''
      else if List.member [''permission-denied'', ''auth-failure'', ''no-such-file'', ''command-not-found'', ''read-only-fs''] pattern
        then ''configuration''
      else if pattern = ''disk-full'' then ''resources''
      else if List.member [''oom'', ''java-oom''] pattern then ''resources''
      else ''application'')"

definition crashLoopRemediation :: "string \<Rightarrow> string \<Rightarrow> string list" where
  "crashLoopRemediation pattern containerName =
     (''Check container logs: kubectl logs <pod> -c '' @ containerName @ '' --previous'') #
     (if List.member [''connection-refused'', ''connection-reset'', ''timeout'', ''dns-failure'', ''tls-error'', ''db-connection''] pattern
        then [''Verify the target service/database is running and reachable'',
              ''Check network policies and service endpoints'']
      else if List.member [''permission-denied'', ''auth-failure''] pattern
        then [''Verify service account permissions and RBAC roles'', ''Check mounted secrets and credentials'']
      else if List.member [''no-such-file'', ''command-not-found''] pattern
        then [''Verify the container image contains the expected binaries and files'',
              ''Check volume mounts and configmap references'']
      else if List.member [''oom'', ''java-oom''] pattern
        then [''Increase the memory limit for the container'',
              ''Profile the application'' @ [CHR 0x27] @ ''s memory usage'']
      else [''Review the application error and fix the underlying issue'',
            ''Check environment variables and configuration''])"

definition container_evidence :: "containerSignal \<Rightarrow> string" where
  "container_evidence c = ''  '' @ cs_name c @ '': state='' @ cs_stateType c @ '' reason='' @ cs_stateReason c @
     '' exitCode='' @ show_int (cs_exitCode c) @ '' restarts='' @ show_int (cs_restartCount c) @
     (if cs_lastTermReason c \<noteq> []
      then '' lastTerm='' @ cs_lastTermReason c @ ''('' @ show_int (cs_lastTermExitCode c) @ '')'' else []) @ nl"

definition event_evidence :: "eventSignal \<Rightarrow> string" where
  "event_evidence e = ''  ['' @ ev_eventType e @ ''] '' @ ev_reason e @ '': '' @ truncate (ev_message e) 200 @ nl"

definition log_evidence :: "logErrorSignal \<Rightarrow> string" where
  "log_evidence l = ''  Pattern: '' @ le_pattern l @ nl @ ''  ---'' @ nl @
     concat (map (\<lambda>line. ''  '' @ line @ nl) (lines_of (le_snippet l))) @ ''  ---'' @ nl"

definition buildEvidence :: "string \<Rightarrow> diagnosticSignals \<Rightarrow> string" where
  "buildEvidence ruleName s = ''Rule: '' @ ruleName @ nl @
     (if sg_podPhase s \<noteq> [] then ''Pod Phase: '' @ sg_podPhase s @ nl else []) @
     (if length (sg_containerStates s) > 0
      then nl @ ''Container States:'' @ nl @ concat (map container_evidence (sg_containerStates s)) else []) @
     (if length (sg_eventMessages s) > 0
      then nl @ ''Kubernetes Events:'' @ nl @ concat (map event_evidence (sg_eventMessages s)) else []) @
     (if length (sg_logErrors s) > 0
      then nl @ ''Log Error Patterns:'' @ nl @ concat (map log_evidence (sg_logErrors s)) else []) @
     (if sg_deploymentName s \<noteq> []
      then nl @ ''Deployment: '' @ sg_deploymentName s @ '' (desired='' @ show_int (sg_desiredReplicas s) @ '', ready='' @
           show_int (sg_readyReplicas s) @ '', available='' @ show_int (sg_availableReplicas s) @ '')'' @ nl @
           (if sg_rolloutCondition s \<noteq> [] then ''  Condition: '' @ sg_rolloutCondition s @ nl else [])
      else []) @
     (if sg_pvcPhase s \<noteq> []
      then nl @ ''PVC Phase: '' @ sg_pvcPhase s @
           (if sg_storageClass s \<noteq> [] then '' (StorageClass: '' @ sg_storageClass s @ '')'' else []) @ nl
      else []) @
     (if sg_nodeNotReady s \<or> sg_memoryPressure s \<or> sg_diskPressure s
      then nl @ ''Node Conditions:'' @ (if sg_nodeNotReady s then '' NotReady'' else []) @
           (if sg_memoryPressure s then '' MemoryPressure'' else []) @
           (if sg_diskPressure s then '' DiskPressure'' else []) @ nl
      else [])"

section \<open>The rules\<close>

text \<open>The fields that all reports of the package fill in the same way.\<close>

definition rules_report ::
    "gotime \<Rightarrow> DiagnosticBundle \<Rightarrow> diagnosticSignals \<Rightarrow> string \<Rightarrow> string \<Rightarrow> Severity \<Rightarrow> string \<Rightarrow> bool \<Rightarrow> string \<Rightarrow>
     string list \<Rightarrow> rat \<Rightarrow> RCAReport" where
  "rules_report now b s ruleName rootCause severity category systemic blast remediation confidence =
     \<lparr>rca_FaultEventID = faultEventID b, rca_Timestamp = now, rca_RootCause = rootCause,
      rca_Severity = severity, rca_Category = category, rca_Systemic = systemic, rca_BlastRadius = blast,
      rca_Remediation = remediation, rca_RelatedResources = bundleRelatedResources b,
      rca_Confidence = f64 confidence, rca_RawAnalysis = buildEvidence ruleName s, rca_DiagnosticBundle = b,
      rca_AnalyzerBackend = ''rules'', rca_TokensUsed = \<lparr>tok_Input = 0, tok_Output = 0\<rparr>\<rparr>"

type_synonym ruleFunc = "gotime \<Rightarrow> DiagnosticBundle \<Rightarrow> diagnosticSignals \<Rightarrow> RCAReport option"

definition ruleOOMKilled :: ruleFunc where
  "ruleOOMKilled now b s =
     (case List.find (\<lambda>c. cs_stateReason c = ''OOMKilled'' \<or> cs_lastTermReason c = ''OOMKilled'' \<or>
          (cs_exitCode c = 137 \<or> cs_lastTermExitCode c = 137) \<and>
          (cs_stateReason c = ''OOMKilled'' \<or> cs_lastTermReason c = ''OOMKilled'')) (sg_containerStates s) of
        None \<Rightarrow> None
      | Some c \<Rightarrow> Some (rules_report now b s ''OOMKilled''
          (''Container '' @ go_quote (cs_name c) @ '' was OOM-killed (exit code 137)'' @
           (if cs_restartCount c > 0 then ''; '' @ show_int (cs_restartCount c) @ '' restarts'' else []))
          SeverityCritical ''resources'' (isSuperEventSystemic b) (blastRadius b)
          [''Increase the memory limit for container '' @ go_quote (cs_name c),
           ''Profile the application'' @ [CHR 0x27] @ ''s memory usage to identify leaks or unbounded caches'',
           ''Consider setting memory requests equal to limits to avoid node-level overcommit''] (9/10)))"

definition ruleNodeNotReady :: ruleFunc where
  "ruleNodeNotReady now b s =
     (if \<not> sg_nodeNotReady s then None
      else Some (rules_report now b s ''NodeNotReady''
          (''Node is not ready '' @ dash @ '' kubelet or container runtime may be unhealthy'')
          SeverityCritical ''node'' True ''All pods scheduled on this node may be affected''
          [''Check kubelet logs on the affected node: journalctl -u kubelet'',
           ''Verify container runtime (containerd/CRI-O) is running'',
           ''Check node resource usage (disk, memory, PIDs)'',
           ''If node is unreachable, consider cordoning and draining it''] (85/100)))"

definition ruleNodePressure :: ruleFunc where
  "ruleNodePressure now b s =
     (if \<not> sg_memoryPressure s \<and> \<not> sg_diskPressure s then None
      else Some (rules_report now b s ''NodePressure''
          (''Node under pressure: '' @ join '', '' ((if sg_memoryPressure s then [''MemoryPressure''] else []) @
             (if sg_diskPressure s then [''DiskPressure''] else [])))
          SeverityWarning ''node'' True ''Pods on this node may be evicted''
          [''Investigate resource consumption on the node'',
           ''Clean up unused images and containers: crictl rmi --prune'',
           ''Consider adding more nodes to distribute workload''] (8/10)))"

definition detected_by :: "DiagnosticBundle \<Rightarrow> string \<Rightarrow> bool" where
  "detected_by b name = (case db_FaultEvent b of None \<Rightarrow> False | Some fe \<Rightarrow> fe_DetectorName fe = name)"

definition rulePVCStuckPending :: ruleFunc where
  "rulePVCStuckPending now b s =
     (if \<not> (sg_pvcPhase s = ''Pending'' \<or> detected_by b ''PVCStuckBinding'') then None
      else Some (rules_report now b s ''PVCStuckPending''
          (''PersistentVolumeClaim stuck in Pending state'' @
           (if sg_storageClass s \<noteq> [] then '' '' @ dash @ '' StorageClass '' @ go_quote (sg_storageClass s) @
              '' may not exist or has no provisioner'' else []))
          SeverityWarning ''storage'' (isSuperEventSystemic b) (blastRadius b)
          [''Verify the StorageClass exists: kubectl get storageclass'',
           ''Check if a dynamic provisioner is running for the storage class'',
           ''Ensure there is available capacity in the storage backend'',
           ''For static provisioning, create a matching PersistentVolume''] (85/100)))"

definition rulePodStuckPending :: ruleFunc where
  "rulePodStuckPending now b s =
     (if \<not> (sg_podPhase s = ''Pending'' \<or> detected_by b ''PodStuckPending'') then None
      else Some (rules_report now b s ''PodStuckPending''
          (''Pod '' @ go_quote (resourceName b) @ '' stuck in Pending state'' @
           (case List.find (\<lambda>e. ev_reason e = ''FailedScheduling'') (sg_eventMessages s) of
              None \<Rightarrow> [] | Some e \<Rightarrow> '': '' @ truncate (ev_message e) 150))
          SeverityWarning ''scheduling'' (isSuperEventSystemic b) (blastRadius b)
          [''Check node resource availability: kubectl describe nodes'',
           ''Review pod resource requests and node selectors/affinities'',
           ''Look for taints or topology constraints restricting placement'',
           ''Consider scaling up the cluster if all nodes are at capacity''] (8/10)))"

definition ruleSchedulingFailed :: ruleFunc where
  "ruleSchedulingFailed now b s =
     (let failMsg = (case List.find (\<lambda>e. ev_reason e = ''FailedScheduling'') (sg_eventMessages s) of
           None \<Rightarrow> [] | Some e \<Rightarrow> ev_message e) in
      if failMsg = [] then None
      else Some (rules_report now b s ''SchedulingFailed'' (''Pod scheduling failed: '' @ truncate failMsg 200)
          SeverityWarning ''scheduling'' (isSuperEventSystemic b) (blastRadius b)
          [''Check node resource availability: kubectl describe nodes'',
           ''Review pod resource requests and limits'',
           ''Check for taints, affinity rules, or topology constraints that may restrict placement'',
           ''Consider scaling up the cluster or reducing resource requests''] (8/10)))"

definition ruleImagePullError :: ruleFunc where
  "ruleImagePullError now b s =
     (case List.find (\<lambda>c. cs_stateReason c = ''ImagePullBackOff'' \<or> cs_stateReason c = ''ErrImagePull'' \<or>
          cs_stateReason c = ''ErrImageNeverPull'') (sg_containerStates s) of
        None \<Rightarrow> None
      | Some c \<Rightarrow> Some (rules_report now b s ''ImagePullError''
          (''Container '' @ go_quote (cs_name c) @ '' failed to pull image'' @
           (if cs_image c \<noteq> [] then '' '' @ go_quote (cs_image c) else []))
          SeverityWarning ''configuration'' False (blastRadius b)
          [''Verify the image name and tag are correct'',
           ''Check image pull secrets: kubectl get secret -o yaml'',
           ''Test pulling the image manually: docker pull <image>'',
           ''If using a private registry, ensure credentials are configured''] (8/10)))"

fun contains :: "string \<Rightarrow> string \<Rightarrow> bool" where
  "contains [] sub = (sub = [])"
| "contains (c # cs) sub = (has_prefix (c # cs) sub \<or> contains cs sub)"

definition ruleProbeFailure :: ruleFunc where
  "ruleProbeFailure now b s =
     (let probeMsg = (case List.find (\<lambda>e. ev_reason e = ''Unhealthy'') (sg_eventMessages s) of
           None \<Rightarrow> [] | Some e \<Rightarrow> ev_message e) in
      if probeMsg = [] then None
      else
        let msgLower = map lower_char probeMsg;
            probeType = (if contains msgLower ''readiness'' then ''Readiness''
                         else if contains msgLower ''liveness'' then ''Liveness''
                         else if contains msgLower ''startup'' then ''Startup'' else ''Health'')
        in Some (rules_report now b s ''ProbeFailure'' (probeType @ '' probe failing: '' @ truncate probeMsg 200)
          SeverityWarning ''application'' False (blastRadius b)
          [''Check if the application'' @ [CHR 0x27] @ ''s health endpoint is responding correctly'',
           ''Review probe configuration (initialDelaySeconds, periodSeconds, failureThreshold)'',
           ''Check application logs for startup errors or dependency issues''] (75/100)))"

definition crashed_container :: "diagnosticSignals \<Rightarrow> containerSignal" where
  "crashed_container s =
     (case List.find (\<lambda>c. cs_stateReason c = ''CrashLoopBackOff'' \<or> cs_stateType c = ''Terminated'') (sg_containerStates s) of
        None \<Rightarrow> no_container | Some c \<Rightarrow> c)"

definition ruleCrashLoopWithLogs :: ruleFunc where
  "ruleCrashLoopWithLogs now b s =
     (case sg_logErrors s of
        [] \<Rightarrow> None
      | le # _ \<Rightarrow>
          if \<not> hasCrashLoop s then None
          else
            let errorLine = firstNonEmptyLine (le_snippet le); c = crashed_container s
            in Some (rules_report now b s ''CrashLoopWithLogs''
              (''Container '' @ go_quote (cs_name c) @ '' in CrashLoopBackOff (exit code '' @ show_int (lastExitCode c) @ '')'' @
               (if errorLine \<noteq> [] then ''. Last error: '' @ truncate errorLine 200 else []))
              (originalSeverity b) (logPatternCategory (le_pattern le)) (isSuperEventSystemic b) (blastRadius b)
              (crashLoopRemediation (le_pattern le) (cs_name c)) (7/10)))"

definition ruleDeploymentRollout :: ruleFunc where
  "ruleDeploymentRollout now b s =
     (let isRolloutIssue = (sg_rolloutCondition s = ''MinimumReplicasUnavailable'' \<or>
            sg_deploymentName s \<noteq> [] \<and> sg_desiredReplicas s > 0 \<and> sg_readyReplicas s < sg_desiredReplicas s \<or>
            (case db_SuperEvent b of None \<Rightarrow> False | Some se \<Rightarrow> se_CorrelationRule se = ''DeploymentRollout'')) in
      if \<not> isRolloutIssue then None
      else
        let name = (if sg_deploymentName s = [] then resourceName b else sg_deploymentName s)
        in Some (rules_report now b s ''DeploymentRollout''
          (''Deployment '' @ go_quote name @ '' rollout failing: '' @ show_int (sg_readyReplicas s) @ ''/'' @
           show_int (sg_desiredReplicas s) @ '' replicas ready'')
          (originalSeverity b) ''application'' True
          (''Deployment '' @ go_quote name @ '' '' @ dash @ '' '' @
           show_int (wrap64 (sg_desiredReplicas s - sg_readyReplicas s)) @ '' replicas affected'')
          [''Check pod status: kubectl get pods -l app='' @ name,
           ''Review container logs for the failing pods'',
           ''Rollback if needed: kubectl rollout undo deployment/'' @ name,
           ''Verify image tag, environment variables, and resource limits''] (7/10)))"

definition ruleJobDeadlineExceeded :: ruleFunc where
  "ruleJobDeadlineExceeded now b s =
     (if \<not> detected_by b ''JobDeadlineExceeded'' then None
      else Some (rules_report now b s ''JobDeadlineExceeded''
          (''Job '' @ go_quote (resourceName b) @ '' exceeded its activeDeadlineSeconds'')
          SeverityWarning ''application'' False (blastRadius b)
          [''Increase the job'' @ [CHR 0x27] @ ''s activeDeadlineSeconds if the workload legitimately needs more time'',
           ''Optimize the job'' @ [CHR 0x27] @ ''s runtime or reduce data volume'',
           ''Check job pod logs for errors that may have caused slow execution''] (7/10)))"

definition rulePodFailed :: ruleFunc where
  "rulePodFailed now b s =
     (if \<not> (sg_podPhase s = ''Failed'' \<or> detected_by b ''PodFailed'') then None
      else Some (rules_report now b s ''PodFailed''
          (''Pod '' @ go_quote (resourceName b) @ '' entered Failed state'' @
           (case List.find (\<lambda>c. cs_stateType c = ''Terminated'' \<and> cs_exitCode c \<noteq> 0) (sg_containerStates s) of
              None \<Rightarrow> []
            | Some c \<Rightarrow> '' (container '' @ go_quote (cs_name c) @ '' exited with code '' @ show_int (cs_exitCode c) @ '')''))
          (originalSeverity b) ''application'' (isSuperEventSystemic b) (blastRadius b)
          [''Check container logs for error details'', ''Review pod events for failure reasons''] (65/100)))"

definition ruleGenericCrashLoop :: ruleFunc where
  "ruleGenericCrashLoop now b s =
     (if \<not> hasCrashLoop s then None
      else let c = crashed_container s in
        Some (rules_report now b s ''GenericCrashLoop''
          (''Container '' @ go_quote (cs_name c) @ '' in CrashLoopBackOff (exit code '' @ show_int (lastExitCode c) @ '', '' @
           show_int (cs_restartCount c) @ '' restarts)'')
          (originalSeverity b) ''application'' (isSuperEventSystemic b) (blastRadius b)
          [''Check container logs: kubectl logs <pod> -c '' @ cs_name c @ '' --previous'',
           ''Review the container'' @ [CHR 0x27] @ ''s command/entrypoint and environment variables'',
           ''Verify dependencies (databases, services) are reachable''] (5/10)))"

definition ruleGenericFromLogs :: ruleFunc where
  "ruleGenericFromLogs now b s =
     (case sg_logErrors s of
        [] \<Rightarrow> None
      | le # _ \<Rightarrow>
          let errorLine = firstNonEmptyLine (le_snippet le) in
          Some (rules_report now b s ''GenericFromLogs''
            (''Application error detected in logs'' @ (if errorLine \<noteq> [] then '': '' @ truncate errorLine 200 else []))
            (originalSeverity b) (logPatternCategory (le_pattern le)) (isSuperEventSystemic b) (blastRadius b)
            [''Review application logs for the full error context'',
             ''Check application configuration and dependencies''] (5/10)))"

definition fallback_cause :: "DiagnosticBundle \<Rightarrow> string" where
  "fallback_cause b =
     (case db_SuperEvent b of
        Some se \<Rightarrow> ''Correlated fault ('' @ se_CorrelationRule se @ '') involving '' @
          show_int (int (length (se_FaultEvents se))) @ '' events''
      | None \<Rightarrow>
          (case db_FaultEvent b of
             Some fe \<Rightarrow> ''Fault detected by '' @ fe_DetectorName fe @ '': '' @ truncate (fe_Description fe) 200
           | None \<Rightarrow> ''Fault detected''))"

definition ruleFallback :: ruleFunc where
  "ruleFallback now b s = Some (rules_report now b s ''Fallback'' (fallback_cause b)
     (originalSeverity b) ''unknown'' (isSuperEventSystemic b) (blastRadius b)
     [''Review the attached diagnostic data for details''] (3/10))"

definition rulesChain :: "ruleFunc list" where
  "rulesChain = [ruleOOMKilled, ruleNodeNotReady, ruleNodePressure, rulePVCStuckPending, ruleSchedulingFailed,
     ruleImagePullError, rulePodStuckPending, ruleProbeFailure, ruleCrashLoopWithLogs, ruleDeploymentRollout,
     ruleJobDeadlineExceeded, rulePodFailed, ruleGenericCrashLoop, ruleGenericFromLogs, ruleFallback]"

fun apply_chain :: "ruleFunc list \<Rightarrow> ruleFunc" where
  "apply_chain [] now b s = None"
| "apply_chain (rule # rules) now b s =
     (case rule now b s of Some report \<Rightarrow> Some report | None \<Rightarrow> apply_chain rules now b s)"

text \<open>
  \<open>Analyze\<close>: \<open>rd\<close> is the context's error, if any, and the clock. The panic of the log parser would be
  a result of its own; it is proved not to occur.
\<close>

definition rules_matched :: "gotime \<Rightarrow> DiagnosticBundle \<Rightarrow> diagnosticSignals \<Rightarrow> RCAReport" where
  "rules_matched now b s =
     (case apply_chain rulesChain now b s of Some report \<Rightarrow> report | None \<Rightarrow> the (ruleFallback now b s))"

definition RulesAnalyzer_Analyze :: "(unit, string option \<times> gotime) analyze" where
  "RulesAnalyzer_Analyze st rd b =
     (st, case fst rd of
            Some err \<Rightarrow> Inl (ContextError err)
          | None \<Rightarrow>
              if db_SuperEvent b = None \<and> db_FaultEvent b = None
              then Inl (BackendError ''rules: bundle has neither FaultEvent nor SuperEvent'')
              else case extractSignals b of
                  None \<Rightarrow> Inl (BackendError ''panic'')
                | Some s \<Rightarrow> Inr (rules_matched (snd rd) b s))"

section \<open>The rules\<close>

lemma f64_unit: "0 \<le> c \<Longrightarrow> c \<le> 1 \<Longrightarrow> 0 \<le> f64 c \<and> f64 c \<le> 1"
  using f64_le_int [of c 1] by (cases "c = 0") (auto intro: f64_nonneg)

lemma rules_report_sane:
  assumes "IsValid sev" "cat \<in> set ValidCategories" "0 \<le> c" "c \<le> 1" "cause \<noteq> []"
  shows "sane_report b (rules_report now b s name cause sev cat sys blast rem c)"
  using assms f64_unit [of c] by (simp add: sane_report_def rules_report_def)

lemma logPatternCategory_valid: "logPatternCategory p \<in> set ValidCategories"
  by (simp add: logPatternCategory_def ValidCategories_def)

lemma categories_valid: "set [''resources'', ''node'', ''storage'', ''scheduling'', ''configuration'', ''application'']
    \<subseteq> set ValidCategories"
  by (simp add: ValidCategories_def)

definition rule_sane :: "ruleFunc \<Rightarrow> bool" where
  "rule_sane rule \<longleftrightarrow> (\<forall>now b s r. IsValid (originalSeverity b) \<longrightarrow> rule now b s = Some r \<longrightarrow> sane_report b r)"

lemmas rule_defs = ruleOOMKilled_def ruleNodeNotReady_def ruleNodePressure_def rulePVCStuckPending_def
  ruleSchedulingFailed_def ruleImagePullError_def rulePodStuckPending_def ruleProbeFailure_def
  ruleCrashLoopWithLogs_def ruleDeploymentRollout_def ruleJobDeadlineExceeded_def rulePodFailed_def
  ruleGenericCrashLoop_def ruleGenericFromLogs_def ruleFallback_def

lemma fallback_cause_nonempty: "fallback_cause b \<noteq> []"
  by (simp add: fallback_cause_def split: option.split)

lemma rules_sane: "rule \<in> set rulesChain \<Longrightarrow> rule_sane rule"
  unfolding rule_sane_def rulesChain_def
  using categories_valid
  by (auto simp: rule_defs Let_def severities_valid logPatternCategory_valid fallback_cause_nonempty
      intro!: rules_report_sane split: option.splits list.splits if_splits)

lemma apply_chain_first:
  "apply_chain rules now b s = Some r \<longleftrightarrow>
     (\<exists>i < length rules. (rules ! i) now b s = Some r \<and> (\<forall>j < i. (rules ! j) now b s = None))"
proof (induction rules)
  case Nil
  then show ?case by simp
next
  case (Cons rule rules)
  then show ?case
    by (auto simp: Ex_less_Suc2 All_less_Suc2 split: option.split)
qed

lemma apply_chain_total: "\<exists>r. apply_chain rulesChain now b s = Some r"
  by (simp add: rulesChain_def ruleFallback_def split: option.split)

lemma Analyze_signals:
  assumes "db_SuperEvent b \<noteq> None \<or> db_FaultEvent b \<noteq> None"
  obtains s r where "extractSignals b = Some s" "apply_chain rulesChain now b s = Some r"
    "snd (RulesAnalyzer_Analyze st (None, now) b) = Inr r"
proof -
  obtain s where s: "extractSignals b = Some s" using extract_loop_total by (auto simp: extractSignals_def)
  obtain r where r: "apply_chain rulesChain now b s = Some r" using apply_chain_total by blast
  show ?thesis using that [OF s r] assms s r by (auto simp: RulesAnalyzer_Analyze_def rules_matched_def)
qed

lemma apply_chain_in: "apply_chain rules now b s = Some r \<Longrightarrow> \<exists>rule \<in> set rules. rule now b s = Some r"
  by (auto simp: apply_chain_first)

definition about_bundle_rule :: "ruleFunc \<Rightarrow> bool" where
  "about_bundle_rule rule \<longleftrightarrow> (\<forall>now b s r. rule now b s = Some r \<longrightarrow>
     rca_FaultEventID r = bundle_id b \<and> rca_DiagnosticBundle r = b \<and> rca_AnalyzerBackend r = ''rules'' \<and>
     rca_TokensUsed r = \<lparr>tok_Input = 0, tok_Output = 0\<rparr>)"

lemma rules_report_about [simp]:
  "rca_FaultEventID (rules_report now b s name cause sev cat sys blast rem c) = bundle_id b"
  "rca_DiagnosticBundle (rules_report now b s name cause sev cat sys blast rem c) = b"
  "rca_AnalyzerBackend (rules_report now b s name cause sev cat sys blast rem c) = ''rules''"
  "rca_TokensUsed (rules_report now b s name cause sev cat sys blast rem c) = \<lparr>tok_Input = 0, tok_Output = 0\<rparr>"
  by (simp_all add: rules_report_def)

lemma rules_about: "rule \<in> set rulesChain \<Longrightarrow> about_bundle_rule rule"
  unfolding about_bundle_rule_def rulesChain_def
  by (auto simp: rule_defs Let_def split: option.splits list.splits if_splits)

interpretation rules: analyzer RulesAnalyzer_Analyze
proof unfold_locales
  fix st rd b report
  assume "snd (RulesAnalyzer_Analyze st rd b) = Inr report"
  then obtain s where "report = rules_matched (snd rd) b s"
    by (auto simp: RulesAnalyzer_Analyze_def split: option.splits if_splits)
  then have "apply_chain rulesChain (snd rd) b s = Some report"
    using apply_chain_total [of "snd rd" b s] by (auto simp: rules_matched_def)
  from apply_chain_in [OF this] show "rca_FaultEventID report = bundle_id b \<and> rca_DiagnosticBundle report = b"
    using rules_about unfolding about_bundle_rule_def by blast
qed

text \<open>
  C5. On a live context the rules analyzer reports on every bundle that has an event: no gathered text,
  however malformed, makes it fail or panic. The report is about the bundle and has a valid severity, a
  known category, a confidence between 0 and 1 and a root cause; it used no tokens.
\<close>

theorem rules_analyzer_total:
  assumes "db_SuperEvent b \<noteq> None \<or> db_FaultEvent b \<noteq> None" "IsValid (originalSeverity b)"
  shows "\<exists>r. snd (RulesAnalyzer_Analyze st (None, now) b) = Inr r \<and> sane_report b r \<and>
    rca_AnalyzerBackend r = ''rules'' \<and> rca_TokensUsed r = \<lparr>tok_Input = 0, tok_Output = 0\<rparr>"
proof (rule Analyze_signals [OF assms(1), of now st])
  fix s r assume r: "apply_chain rulesChain now b s = Some r" "snd (RulesAnalyzer_Analyze st (None, now) b) = Inr r"
  then obtain rule where "rule \<in> set rulesChain" "rule now b s = Some r" using apply_chain_in by blast
  then show ?thesis using rules_sane rules_about assms(2) r(2) unfolding rule_sane_def about_bundle_rule_def by blast
qed

text \<open>
  The report is the one of the first rule of the chain that applies to the signals: every rule
  before it declines.
\<close>

theorem rules_first_match:
  assumes "db_SuperEvent b \<noteq> None \<or> db_FaultEvent b \<noteq> None"
  shows "snd (RulesAnalyzer_Analyze st (None, now) b) = Inr r \<longleftrightarrow>
    (\<exists>s. extractSignals b = Some s \<and>
      (\<exists>i < length rulesChain. (rulesChain ! i) now b s = Some r \<and> (\<forall>j < i. (rulesChain ! j) now b s = None)))"
proof (rule Analyze_signals [OF assms, of now st])
  fix s r' assume "extractSignals b = Some s" "apply_chain rulesChain now b s = Some r'"
    "snd (RulesAnalyzer_Analyze st (None, now) b) = Inr r'"
  then show ?thesis by (auto simp flip: apply_chain_first)
qed
definition ex_crash_event :: FaultEvent where
  "ex_crash_event = \<lparr>fe_ID = ''f1'', fe_DetectorName = ''PodCrashLoop'', fe_Severity = SeverityInfo, fe_Timestamp = 0,
     fe_Resource = \<lparr>ref_Kind = ''Pod'', ref_Namespace = ''ns'', ref_Name = ''p'', ref_UID = []\<rparr>,
     fe_Description = [], fe_Labels = [], fe_Annotations = []\<rparr>"

definition ex_crash :: DiagnosticBundle where
  "ex_crash = NewDiagnosticBundle 0 (Some ex_crash_event)
     [\<lparr>sec_GathererName = [], sec_Title = ''Node Conditions'', sec_Content = ''  Ready: False'', sec_Format = [], sec_Error = []\<rparr>]"

theorem rules_analyzer_total_witness:
  "\<exists>r. snd (RulesAnalyzer_Analyze () (None, 5) ex_crash) = Inr r \<and> sane_report ex_crash r"
  using rules_analyzer_total [of ex_crash "()" 5]
  by (auto simp: ex_crash_def ex_crash_event_def NewDiagnosticBundle_def originalSeverity_def IsValid_def ValidSeverities_def)

lemma ex_crash_signals: "extractSignals ex_crash = Some (no_signals\<lparr>sg_nodeNotReady := True\<rparr>)"
  by (simp add: ex_crash_def extractSignals_def NewDiagnosticBundle_def parse_section_def parseNodeConditions_def
      node_line_def lines_of_def reNodeCondition_def re_eval no_signals_def)

theorem rules_first_match_witness:
  "\<exists>r. snd (RulesAnalyzer_Analyze () (None, 5) ex_crash) = Inr r \<and> rca_Category r = ''node''"
proof -
  let ?s = "no_signals\<lparr>sg_nodeNotReady := True\<rparr>"
  obtain r where r: "ruleNodeNotReady 5 ex_crash ?s = Some r" "rca_Category r = ''node''"
    by (simp add: ruleNodeNotReady_def no_signals_def rules_report_def)
  have "ruleOOMKilled 5 ex_crash ?s = None" by (simp add: ruleOOMKilled_def no_signals_def)
  with r have "\<exists>i < length rulesChain. (rulesChain ! i) 5 ex_crash ?s = Some r \<and> (\<forall>j < i. (rulesChain ! j) 5 ex_crash ?s = None)"
    by (intro exI [of _ 1]) (simp add: rulesChain_def)
  then show ?thesis
    using rules_first_match [of ex_crash "()" 5 r] ex_crash_signals r(2)
    by (auto simp: ex_crash_def NewDiagnosticBundle_def)
qed

end
