(* ===== verification/Registries.thy ===== *)
theory Registries
  imports Gatherers
begin

text \<open>
  The three registries (\<open>detector/registry.go\<close>, \<open>gatherer/registry.go\<close>, \<open>sink/registry.go\<close>): a map from
  names to registered objects behind a read-write lock, so every operation is atomic. A nil object is
  \<open>None\<close>. The locale \<open>registry\<close> states what a user of a registry relies on; each of the three is
  an interpretation.
\<close>

section \<open>The map of a registry\<close>

datatype registry_error =
    RegistryNil
  | RegistryEmptyName
  | RegistryDuplicate string
  | RegistryMissing string
  | RegistryNilFactory string
  | RegistryNoFactory string
  | RegistryCreate string string

definition reg_register ::
    "('a \<Rightarrow> string) \<Rightarrow> (string \<times> 'a) list \<Rightarrow> 'a option \<Rightarrow> registry_error + (string \<times> 'a) list" where
  "reg_register name m obj =
     (case obj of
        None \<Rightarrow> Inl RegistryNil
      | Some a \<Rightarrow>
          if name a = [] then Inl RegistryEmptyName
          else if has_key m (name a) then Inl (RegistryDuplicate (name a))
          else Inr (map_put (name a) a m))"

definition reg_unregister :: "(string \<times> 'a) list \<Rightarrow> string \<Rightarrow> registry_error + (string \<times> 'a) list" where
  "reg_unregister m name = (if \<not> has_key m name then Inl (RegistryMissing name) else Inr (map_delete name m))"

section \<open>The gatherer registry\<close>

record GathererRegistry =
  gr_gatherers :: "(string \<times> Gatherer) list"

definition NewGathererRegistry :: GathererRegistry where
  "NewGathererRegistry = \<lparr>gr_gatherers = []\<rparr>"

definition GathererRegistry_Register :: "GathererRegistry \<Rightarrow> Gatherer option \<Rightarrow> registry_error + GathererRegistry" where
  "GathererRegistry_Register r g =
     map_sum id (\<lambda>m. r\<lparr>gr_gatherers := m\<rparr>) (reg_register g_Name (gr_gatherers r) g)"

definition GathererRegistry_Get :: "GathererRegistry \<Rightarrow> string \<Rightarrow> Gatherer option" where
  "GathererRegistry_Get r name = map_of (gr_gatherers r) name"

definition GathererRegistry_All :: "(string list \<Rightarrow> string list) \<Rightarrow> GathererRegistry \<Rightarrow> Gatherer list" where
  "GathererRegistry_All ord r = map snd (range_map ord (gr_gatherers r))"

definition GathererRegistry_Count :: "GathererRegistry \<Rightarrow> nat" where
  "GathererRegistry_Count r = length (gr_gatherers r)"

definition GathererRegistry_Names :: "(string list \<Rightarrow> string list) \<Rightarrow> GathererRegistry \<Rightarrow> string list" where
  "GathererRegistry_Names ord r = map fst (range_map ord (gr_gatherers r))"

definition GathererRegistry_Unregister :: "GathererRegistry \<Rightarrow> string \<Rightarrow> registry_error + GathererRegistry" where
  "GathererRegistry_Unregister r name =
     map_sum id (\<lambda>m. r\<lparr>gr_gatherers := m\<rparr>) (reg_unregister (gr_gatherers r) name)"

section \<open>The detector registry\<close>

text \<open>A detector is what the registry sees of the interface \<open>Detector\<close>; a factory gets the callback.\<close>

record Detector =
  dt_Name :: string
  dt_Severity :: Severity
  dt_IsLeaderOnly :: bool

record 'cb DetectorRegistry =
  dr_detectors :: "(string \<times> Detector) list"
  dr_factories :: "(string \<times> ('cb \<Rightarrow> string + Detector option)) list"

definition NewDetectorRegistry :: "'cb DetectorRegistry" where
  "NewDetectorRegistry = \<lparr>dr_detectors = [], dr_factories = []\<rparr>"

definition DetectorRegistry_Register :: "'cb DetectorRegistry \<Rightarrow> Detector option \<Rightarrow> registry_error + 'cb DetectorRegistry" where
  "DetectorRegistry_Register r d =
     map_sum id (\<lambda>m. r\<lparr>dr_detectors := m\<rparr>) (reg_register dt_Name (dr_detectors r) d)"

definition DetectorRegistry_Get :: "'cb DetectorRegistry \<Rightarrow> string \<Rightarrow> Detector option" where
  "DetectorRegistry_Get r name = map_of (dr_detectors r) name"

definition DetectorRegistry_All :: "(string list \<Rightarrow> string list) \<Rightarrow> 'cb DetectorRegistry \<Rightarrow> Detector list" where
  "DetectorRegistry_All ord r = map snd (range_map ord (dr_detectors r))"

definition DetectorRegistry_Count :: "'cb DetectorRegistry \<Rightarrow> nat" where
  "DetectorRegistry_Count r = length (dr_detectors r)"

definition DetectorRegistry_Names :: "(string list \<Rightarrow> string list) \<Rightarrow> 'cb DetectorRegistry \<Rightarrow> string list" where
  "DetectorRegistry_Names ord r = map fst (range_map ord (dr_detectors r))"

definition DetectorRegistry_Unregister :: "'cb DetectorRegistry \<Rightarrow> string \<Rightarrow> registry_error + 'cb DetectorRegistry" where
  "DetectorRegistry_Unregister r name =
     map_sum id (\<lambda>m. r\<lparr>dr_detectors := m\<rparr>) (reg_unregister (dr_detectors r) name)"

definition RegisterFactory ::
    "'cb DetectorRegistry \<Rightarrow> string \<Rightarrow> ('cb \<Rightarrow> string + Detector option) option \<Rightarrow> registry_error + 'cb DetectorRegistry" where
  "RegisterFactory r name factory =
     (if name = [] then Inl RegistryEmptyName
      else case factory of
          None \<Rightarrow> Inl (RegistryNilFactory name)
        | Some f \<Rightarrow>
            if has_key (dr_factories r) name then Inl (RegistryDuplicate name)
            else Inr (r\<lparr>dr_factories := map_put name f (dr_factories r)\<rparr>))"

text \<open>
  \<open>CreateFromFactory\<close> releases the lock between the lookup and the registration; \<open>r2\<close> is the registry
  when \<open>Register\<close> takes the lock again.
\<close>

definition CreateFromFactory ::
    "'cb DetectorRegistry \<Rightarrow> 'cb DetectorRegistry \<Rightarrow> string \<Rightarrow> 'cb \<Rightarrow>
     registry_error + Detector option \<times> 'cb DetectorRegistry" where
  "CreateFromFactory r r2 name callback =
     (case map_of (dr_factories r) name of
        None \<Rightarrow> Inl (RegistryNoFactory name)
      | Some factory \<Rightarrow>
          (case factory callback of
             Inl err \<Rightarrow> Inl (RegistryCreate name err)
           | Inr d \<Rightarrow> map_sum id (Pair d) (DetectorRegistry_Register r2 d)))"

definition GetFactory :: "'cb DetectorRegistry \<Rightarrow> string \<Rightarrow> ('cb \<Rightarrow> string + Detector option) option" where
  "GetFactory r name = map_of (dr_factories r) name"

definition FactoryNames :: "(string list \<Rightarrow> string list) \<Rightarrow> 'cb DetectorRegistry \<Rightarrow> string list" where
  "FactoryNames ord r = map fst (range_map ord (dr_factories r))"

section \<open>What a registry promises\<close>

text \<open>
  A user registers and unregisters objects by name and looks them up. \<open>content\<close> is the map that a
  registry stands for.
\<close>

locale registry =
  fixes new :: 'r
    and name :: "'a \<Rightarrow> string"
    and register :: "'r \<Rightarrow> 'a option \<Rightarrow> registry_error + 'r"
    and unregister :: "'r \<Rightarrow> string \<Rightarrow> registry_error + 'r"
    and lookup :: "'r \<Rightarrow> string \<Rightarrow> 'a option"
  assumes new_empty: "lookup new n = None"
    and register_ok: "register r (Some a) = Inr r' \<Longrightarrow>
          name a \<noteq> [] \<and> lookup r (name a) = None \<and> lookup r' n = (if n = name a then Some a else lookup r n)"
    and register_total: "name a \<noteq> [] \<Longrightarrow> lookup r (name a) = None \<Longrightarrow> \<exists>r'. register r (Some a) = Inr r'"
    and register_nil: "register r None = Inl RegistryNil"
    and unregister_ok: "unregister r k = Inr r' \<Longrightarrow> lookup r k \<noteq> None \<and> lookup r' n = (if n = k then None else lookup r n)"
    and unregister_total: "lookup r k \<noteq> None \<Longrightarrow> \<exists>r'. unregister r k = Inr r'"
begin

text \<open>A call is a registration or an unregistration; a call that fails leaves the registry alone.\<close>

definition call :: "'r \<Rightarrow> 'a option + string \<Rightarrow> 'r" where
  "call r c = (case (case c of Inl obj \<Rightarrow> register r obj | Inr k \<Rightarrow> unregister r k) of Inl _ \<Rightarrow> r | Inr r' \<Rightarrow> r')"

lemma call_lookup:
  assumes "lookup (call r c) n = Some a"
  shows "lookup r n = Some a \<or> name a = n \<and> n \<noteq> []"
proof (cases c)
  case (Inl obj)
  show ?thesis
  proof (cases obj)
    case None
    then show ?thesis using assms Inl by (simp add: call_def register_nil)
  next
    case (Some b)
    show ?thesis
    proof (cases "register r (Some b)")
      case (Inr r')
      then show ?thesis using assms \<open>c = Inl obj\<close> Some register_ok [OF Inr, of n]
        by (auto simp: call_def split: if_splits)
    qed (use assms \<open>c = Inl obj\<close> Some in \<open>simp add: call_def\<close>)
  qed
next
  case k: (Inr k)
  show ?thesis
  proof (cases "unregister r k")
    case (Inr r')
    then show ?thesis using assms k unregister_ok [OF Inr, of n] by (auto simp: call_def split: if_splits)
  qed (use assms k in \<open>simp add: call_def\<close>)
qed

lemma registered_under_own_name:
  "lookup (foldl call new cs) n = Some a \<Longrightarrow> name a = n \<and> n \<noteq> []"
proof -
  have "\<forall>n a. lookup (foldl call new cs) n = Some a \<longrightarrow> name a = n \<and> n \<noteq> []"
    by (rule foldl_invariant) (auto simp: new_empty dest: call_lookup)
  then show "lookup (foldl call new cs) n = Some a \<Longrightarrow> name a = n \<and> n \<noteq> []" by blast
qed

lemma register_then_get: "register r (Some a) = Inr r' \<Longrightarrow> lookup r' (name a) = Some a"
  using register_ok [of r a r' "name a"] by simp

lemma unregister_undoes:
  assumes "register r (Some a) = Inr r'"
  shows "\<exists>r''. unregister r' (name a) = Inr r'' \<and> (\<forall>n. lookup r'' n = lookup r n)"
proof -
  obtain r'' where u: "unregister r' (name a) = Inr r''"
    using unregister_total [of r' "name a"] register_then_get [OF assms] by auto
  moreover have "lookup r'' n = lookup r n" for n
    using unregister_ok [OF u, of n] register_ok [OF assms, of n] by (cases "n = name a") auto
  ultimately show ?thesis by blast
qed

end

lemmas reg_defs = reg_register_def reg_unregister_def

interpretation greg: registry NewGathererRegistry g_Name GathererRegistry_Register
    GathererRegistry_Unregister GathererRegistry_Get
  by unfold_locales
    (auto simp: NewGathererRegistry_def GathererRegistry_Register_def GathererRegistry_Unregister_def
      GathererRegistry_Get_def reg_defs split: if_splits)

interpretation dreg: registry NewDetectorRegistry dt_Name DetectorRegistry_Register
    DetectorRegistry_Unregister DetectorRegistry_Get
  by unfold_locales
    (auto simp: NewDetectorRegistry_def DetectorRegistry_Register_def DetectorRegistry_Unregister_def
      DetectorRegistry_Get_def reg_defs split: if_splits)

end
