(* ===== verification/Sinks.thy ===== *)
theory Sinks
  imports Registries Glob Analyzers
begin

text \<open>
  Delivery of reports (\<open>internal/sink\<close>): retries, the allow-list against server-side request forgery, the
  registry with its fan-out, and what each sink sends. A remote call is a function of the number of the
  attempt; the JSON encoder, the URL parser and the parser of IP addresses are parameters.
\<close>

section \<open>Severities and retries\<close>

definition AcceptsSeverity :: "Severity list \<Rightarrow> Severity \<Rightarrow> bool" where
  "AcceptsSeverity flt severity = (if length flt = 0 then True else list_ex (\<lambda>f. f = severity) flt)"

record retryConfig =
  rt_maxAttempts :: goint
  rt_baseDelay :: duration
  rt_multiplier :: float64

definition defaultRetryConfig :: retryConfig where
  "defaultRetryConfig = \<lparr>rt_maxAttempts = 3, rt_baseDelay = 1 * second, rt_multiplier = 5\<rparr>"

datatype delivery_error =
    NilReport
  | CancelledBefore nat string
  | CancelledInBackoff string
  | DeliveryFailed goint "string option"

text \<open>
  What the world answers: the context's error before an attempt, the outcome of an attempt (\<open>None\<close> is
  success) and the context's error if it is cancelled in the pause after an attempt.
\<close>

record attempt_env =
  at_ctx :: "nat \<Rightarrow> string option"
  at_call :: "nat \<Rightarrow> string option"
  at_pause :: "nat \<Rightarrow> string option"

definition backoff_delay :: "retryConfig \<Rightarrow> nat \<Rightarrow> duration" where
  "backoff_delay cfg n = \<lfloor>f64 (f64 (of_int (rt_baseDelay cfg)) * f64 (rt_multiplier cfg ^ n))\<rfloor>"

text \<open>The result is the attempts made, the pauses and the error. The first argument counts the attempts left.\<close>

fun retry_loop :: "nat \<Rightarrow> retryConfig \<Rightarrow> attempt_env \<Rightarrow> nat \<Rightarrow> string option \<Rightarrow>
    nat list \<times> duration list \<times> delivery_error option" where
  "retry_loop 0 cfg env n lastErr = ([], [], Some (DeliveryFailed (rt_maxAttempts cfg) lastErr))"
| "retry_loop (Suc left) cfg env n lastErr =
     (case at_ctx env n of
        Some err \<Rightarrow> ([], [], Some (CancelledBefore (n + 1) err))
      | None \<Rightarrow>
          (case at_call env n of
             None \<Rightarrow> ([n], [], None)
           | Some err \<Rightarrow>
               if int n < rt_maxAttempts cfg - 1
               then (case at_pause env n of
                   Some c \<Rightarrow> ([n], [], Some (CancelledInBackoff c))
                 | None \<Rightarrow>
                     (case retry_loop left cfg env (n + 1) (Some err) of
                        (as, ds, r) \<Rightarrow> (n # as, backoff_delay cfg n # ds, r)))
               else (case retry_loop left cfg env (n + 1) (Some err) of (as, ds, r) \<Rightarrow> (n # as, ds, r))))"

definition deliverWithRetry :: "retryConfig \<Rightarrow> attempt_env \<Rightarrow> nat list \<times> duration list \<times> delivery_error option" where
  "deliverWithRetry cfg env = retry_loop (nat (rt_maxAttempts cfg)) cfg env 0 None"

section \<open>The allow-list\<close>

datatype ssrf_error =
    AllowedDomainsEmpty
  | EmptyDomainPattern
  | InvalidDomainPattern string
  | InvalidURL
  | SchemeNotHTTPS string
  | NoHostname
  | IPLiteral
  | BlockedHostname string
  | NotAllowed string
  | UnknownSinkType string

record SSRFValidator =
  sv_allowedDomains :: "string list"

fun pattern_check :: "string list \<Rightarrow> ssrf_error option" where
  "pattern_check [] = None"
| "pattern_check (p # ps) =
     (if p = [] then Some EmptyDomainPattern
      else if glob_parse (length p) p = None then Some (InvalidDomainPattern p)
      else pattern_check ps)"

definition NewSSRFValidator :: "string list \<Rightarrow> ssrf_error + SSRFValidator" where
  "NewSSRFValidator domains =
     (if length domains = 0 then Inl AllowedDomainsEmpty
      else case pattern_check domains of
          Some e \<Rightarrow> Inl e
        | None \<Rightarrow> Inr \<lparr>sv_allowedDomains = domains\<rparr>)"

definition blockedNames :: "string list" where
  "blockedNames = [''localhost'', ''localhost.localdomain'', ''ip6-localhost'', ''ip6-loopback'']"

definition metadataHosts :: "string list" where
  "metadataHosts = [''metadata.google.internal'', ''metadata.google'', ''metadata.azure.com'']"

definition isBlockedHostname :: "string \<Rightarrow> bool" where
  "isBlockedHostname hostname =
     (let lower = map lower_char hostname in
      if list_ex (\<lambda>b. lower = b) blockedNames then True
      else if list_ex (\<lambda>m. lower = m) metadataHosts then True
      else False)"

text \<open>The parts of a parsed URL that the code reads: the scheme and the host name without a port.\<close>

record parsed_url =
  u_Scheme :: string
  u_Hostname :: string

definition ValidateURL ::
    "(string \<Rightarrow> parsed_url option) \<Rightarrow> (string \<Rightarrow> bool) \<Rightarrow> SSRFValidator \<Rightarrow> string \<Rightarrow> ssrf_error option" where
  "ValidateURL url_parse is_ip v rawURL =
     (case url_parse rawURL of
        None \<Rightarrow> Some InvalidURL
      | Some parsed \<Rightarrow>
          if u_Scheme parsed \<noteq> ''https'' then Some (SchemeNotHTTPS (u_Scheme parsed))
          else let hostname = u_Hostname parsed in
            if hostname = [] then Some NoHostname
            else if is_ip hostname then Some IPLiteral
            else if isBlockedHostname hostname then Some (BlockedHostname hostname)
            else if list_ex (\<lambda>p. glob_match p hostname) (sv_allowedDomains v) then None
            else Some (NotAllowed hostname))"

definition builtInDomains :: "(string \<times> string list) list" where
  "builtInDomains = [(''slack'', [''hooks.slack.com'']), (''pagerduty'', [''events.pagerduty.com''])]"

definition ValidateBuiltInURL :: "(string \<Rightarrow> parsed_url option) \<Rightarrow> string \<Rightarrow> string \<Rightarrow> ssrf_error option" where
  "ValidateBuiltInURL url_parse sinkType rawURL =
     (case map_of builtInDomains sinkType of
        None \<Rightarrow> Some (UnknownSinkType sinkType)
      | Some domains \<Rightarrow>
          (case url_parse rawURL of
             None \<Rightarrow> Some InvalidURL
           | Some parsed \<Rightarrow>
               if u_Scheme parsed \<noteq> ''https'' then Some (SchemeNotHTTPS (u_Scheme parsed))
               else let hostname = u_Hostname parsed in
                 if list_ex (\<lambda>a. hostname = a) domains then None else Some (NotAllowed hostname)))"

section \<open>HTTP delivery\<close>

text \<open>
  A request and the world's answer: whether the request can be built, and an error or a status code
  for an attempt. A redirect is an error of the client (\<open>noRedirectHTTPClient\<close>), so it is part of \<open>h_do\<close>.
\<close>

record http_request =
  rq_Method :: string
  rq_URL :: string
  rq_Headers :: "(string \<times> string) list"
  rq_Body :: string

record http_env =
  h_new :: "http_request \<Rightarrow> string option"
  h_do :: "nat \<Rightarrow> http_request \<Rightarrow> string + goint"

definition http_attempt :: "http_env \<Rightarrow> string + http_request \<Rightarrow> nat \<Rightarrow> string option" where
  "http_attempt h req n =
     (case req of
        Inl err \<Rightarrow> Some err
      | Inr rq \<Rightarrow>
          (case h_new h rq of
             Some err \<Rightarrow> Some err
           | None \<Rightarrow>
               (case h_do h n rq of
                  Inl err \<Rightarrow> Some err
                | Inr status \<Rightarrow> if status < 200 \<or> 300 \<le> status then Some ''unexpected status'' else None)))"

text \<open>\<open>http.Header.Set\<close> writes a header under its canonical name.\<close>

definition upper_char :: "char \<Rightarrow> char" where
  "upper_char c = (let n = (of_char c :: nat) in if 97 \<le> n \<and> n \<le> 122 then char_of (n - 32) else c)"

definition token_char :: "char \<Rightarrow> bool" where
  "token_char c \<longleftrightarrow> (let n = (of_char c :: nat) in 48 \<le> n \<and> n \<le> 57 \<or> 65 \<le> n \<and> n \<le> 90 \<or> 97 \<le> n \<and> n \<le> 122 \<or>
     List.member [33, 35, 36, 37, 38, 39, 42, 43, 45, 46, 94, 95, 96, 124, 126] n)"

fun canonical_loop :: "bool \<Rightarrow> string \<Rightarrow> string" where
  "canonical_loop upper [] = []"
| "canonical_loop upper (c # cs) =
     (if upper then upper_char c else lower_char c) # canonical_loop (c = CHR ''-'') cs"

definition canonical_header :: "string \<Rightarrow> string" where
  "canonical_header k = (if list_all token_char k then canonical_loop True k else k)"

definition set_header :: "(string \<times> string) list \<Rightarrow> string \<times> string \<Rightarrow> (string \<times> string) list" where
  "set_header hs kv = map_put (canonical_header (fst kv)) (snd kv) hs"

definition content_type :: string where
  "content_type = ''Content-Type''"

definition json_type :: string where
  "json_type = ''application/json''"

section \<open>The sinks that post to a webhook\<close>

record ctx_env =
  cx_err :: "nat \<Rightarrow> string option"
  cx_pause :: "nat \<Rightarrow> string option"

text \<open>All \<open>Deliver\<close> methods refuse a nil report and otherwise retry one attempt.\<close>

definition deliver_report :: "retryConfig \<Rightarrow> ctx_env \<Rightarrow> (RCAReport \<Rightarrow> nat \<Rightarrow> string option) \<Rightarrow> RCAReport option \<Rightarrow>
    nat list \<times> duration list \<times> delivery_error option" where
  "deliver_report cfg cx attempt report =
     (case report of
        None \<Rightarrow> ([], [], Some NilReport)
      | Some r \<Rightarrow> deliverWithRetry cfg \<lparr>at_ctx = cx_err cx, at_call = attempt r, at_pause = cx_pause cx\<rparr>)"

datatype sink_error =
    SinkNilLogger
  | SinkEmptyURL
  | SinkEmptyName
  | SinkURL ssrf_error
  | SinkMethod string
  | SinkTemplate
  | SinkEmptyRoutingKey
  | SinkEmptyBucket
  | SinkEmptyRegion
  | SinkAWSConfig string
  | SinkNilClientset

record WebhookConfig =
  whc_URL :: string
  whc_Headers :: "(string \<times> string) list option"
  whc_SeverityFilter :: "Severity list"
  whc_AllowedDomains :: "string list"

record WebhookSink =
  wh_url :: string
  wh_headers :: "(string \<times> string) list"
  wh_severityFilter :: "Severity list"
  wh_retryCfg :: retryConfig

definition NewWebhookSink ::
    "(string \<Rightarrow> parsed_url option) \<Rightarrow> (string \<Rightarrow> bool) \<Rightarrow> WebhookConfig \<Rightarrow> bool \<Rightarrow> sink_error + WebhookSink" where
  "NewWebhookSink url_parse is_ip cfg logger =
     (if \<not> logger then Inl SinkNilLogger
      else if whc_URL cfg = [] then Inl SinkEmptyURL
      else case (if length (whc_AllowedDomains cfg) > 0
                 then (case NewSSRFValidator (whc_AllowedDomains cfg) of
                         Inl e \<Rightarrow> Some e
                       | Inr v \<Rightarrow> ValidateURL url_parse is_ip v (whc_URL cfg))
                 else None) of
          Some e \<Rightarrow> Inl (SinkURL e)
        | None \<Rightarrow> Inr \<lparr>wh_url = whc_URL cfg,
            wh_headers = (case whc_Headers cfg of None \<Rightarrow> [] | Some hs \<Rightarrow> hs),
            wh_severityFilter = whc_SeverityFilter cfg, wh_retryCfg = defaultRetryConfig\<rparr>)"

definition webhook_request :: "(RCAReport \<Rightarrow> string + string) \<Rightarrow> WebhookSink \<Rightarrow> RCAReport \<Rightarrow> string + http_request" where
  "webhook_request marshal s report =
     map_sum id (\<lambda>body. \<lparr>rq_Method = ''POST'', rq_URL = wh_url s,
        rq_Headers = foldl set_header (set_header [] (content_type, json_type)) (wh_headers s), rq_Body = body\<rparr>)
       (marshal report)"

definition WebhookSink_Deliver :: "(RCAReport \<Rightarrow> string + string) \<Rightarrow> http_env \<Rightarrow> ctx_env \<Rightarrow> WebhookSink \<Rightarrow>
    RCAReport option \<Rightarrow> nat list \<times> duration list \<times> delivery_error option" where
  "WebhookSink_Deliver marshal h cx s report =
     deliver_report (wh_retryCfg s) cx (\<lambda>r. http_attempt h (webhook_request marshal s r)) report"

section \<open>Custom webhooks\<close>

record templateResource =
  tr_Kind :: string
  tr_Namespace :: string
  tr_Name :: string

record templateData =
  td_FaultEventID :: string
  td_RootCause :: string
  td_Severity :: string
  td_Category :: string
  td_Systemic :: bool
  td_BlastRadius :: string
  td_Remediation :: "string list"
  td_Confidence :: float64
  td_Resource :: templateResource

text \<open>A parsed template renders some data, fails or exceeds \<open>templateTimeout\<close>.\<close>

datatype template_run = Rendered string | TemplateError string | TemplateTimeout

record CustomWebhookConfig =
  cwc_Name :: string
  cwc_URL :: string
  cwc_Method :: string
  cwc_Headers :: "(string \<times> string) list option"
  cwc_BodyTemplate :: string
  cwc_SeverityFilter :: "Severity list"
  cwc_SSRFValidator :: "SSRFValidator option"

record CustomWebhookSink =
  cw_name :: string
  cw_url :: string
  cw_method :: string
  cw_headers :: "(string \<times> string) list"
  cw_bodyTemplate :: "(templateData \<Rightarrow> template_run) option"
  cw_severityFilter :: "Severity list"
  cw_retryCfg :: retryConfig

definition NewCustomWebhookSink ::
    "(string \<Rightarrow> parsed_url option) \<Rightarrow> (string \<Rightarrow> bool) \<Rightarrow> (string \<Rightarrow> (templateData \<Rightarrow> template_run) option) \<Rightarrow>
     CustomWebhookConfig \<Rightarrow> bool \<Rightarrow> sink_error + CustomWebhookSink" where
  "NewCustomWebhookSink url_parse is_ip template_parse cfg logger =
     (if \<not> logger then Inl SinkNilLogger
      else if cwc_Name cfg = [] then Inl SinkEmptyName
      else if cwc_URL cfg = [] then Inl SinkEmptyURL
      else case (case cwc_SSRFValidator cfg of None \<Rightarrow> None | Some v \<Rightarrow> ValidateURL url_parse is_ip v (cwc_URL cfg)) of
          Some e \<Rightarrow> Inl (SinkURL e)
        | None \<Rightarrow>
            (let method = map upper_char (if cwc_Method cfg = [] then ''POST'' else cwc_Method cfg) in
             if method \<noteq> ''POST'' \<and> method \<noteq> ''PUT'' \<and> method \<noteq> ''PATCH'' then Inl (SinkMethod method)
             else
               let sink = (\<lambda>tmpl. \<lparr>cw_name = ''custom-webhook:'' @ cwc_Name cfg, cw_url = cwc_URL cfg, cw_method = method,
                     cw_headers = (case cwc_Headers cfg of None \<Rightarrow> [] | Some hs \<Rightarrow> hs), cw_bodyTemplate = tmpl,
                     cw_severityFilter = cwc_SeverityFilter cfg, cw_retryCfg = defaultRetryConfig\<rparr>)
               in if cwc_BodyTemplate cfg \<noteq> []
                  then (case template_parse (cwc_BodyTemplate cfg) of
                          None \<Rightarrow> Inl SinkTemplate
                        | Some tmpl \<Rightarrow> Inr (sink (Some tmpl)))
                  else Inr (sink None)))"

definition template_ref :: "ResourceRef \<Rightarrow> templateResource" where
  "template_ref r = \<lparr>tr_Kind = ref_Kind r, tr_Namespace = ref_Namespace r, tr_Name = ref_Name r\<rparr>"

definition extractResource :: "RCAReport \<Rightarrow> templateResource" where
  "extractResource report =
     (case db_SuperEvent (rca_DiagnosticBundle report) of
        Some se \<Rightarrow> template_ref (se_PrimaryResource se)
      | None \<Rightarrow>
          (case db_FaultEvent (rca_DiagnosticBundle report) of
             Some fe \<Rightarrow> template_ref (fe_Resource fe)
           | None \<Rightarrow> \<lparr>tr_Kind = [], tr_Namespace = [], tr_Name = []\<rparr>))"

definition renderBody :: "(RCAReport \<Rightarrow> string + string) \<Rightarrow> CustomWebhookSink \<Rightarrow> RCAReport \<Rightarrow> string + string" where
  "renderBody marshal s report =
     (case cw_bodyTemplate s of
        None \<Rightarrow> marshal report
      | Some tmpl \<Rightarrow>
          (case tmpl \<lparr>td_FaultEventID = rca_FaultEventID report, td_RootCause = rca_RootCause report,
               td_Severity = rca_Severity report, td_Category = rca_Category report,
               td_Systemic = rca_Systemic report, td_BlastRadius = rca_BlastRadius report,
               td_Remediation = rca_Remediation report, td_Confidence = rca_Confidence report,
               td_Resource = extractResource report\<rparr> of
             Rendered body \<Rightarrow> Inr body
           | TemplateError err \<Rightarrow> Inl err
           | TemplateTimeout \<Rightarrow> Inl ''template execution timed out''))"

definition custom_request :: "(RCAReport \<Rightarrow> string + string) \<Rightarrow> CustomWebhookSink \<Rightarrow> RCAReport \<Rightarrow> string + http_request" where
  "custom_request marshal s report =
     map_sum id (\<lambda>body.
         let hs = foldl set_header [] (cw_headers s)
         in \<lparr>rq_Method = cw_method s, rq_URL = cw_url s,
              rq_Headers = (if map_get hs [] content_type = [] then set_header hs (content_type, json_type) else hs),
              rq_Body = body\<rparr>)
       (renderBody marshal s report)"

definition CustomWebhookSink_Deliver :: "(RCAReport \<Rightarrow> string + string) \<Rightarrow> http_env \<Rightarrow> ctx_env \<Rightarrow> CustomWebhookSink \<Rightarrow>
    RCAReport option \<Rightarrow> nat list \<times> duration list \<times> delivery_error option" where
  "CustomWebhookSink_Deliver marshal h cx s report =
     deliver_report (cw_retryCfg s) cx (\<lambda>r. http_attempt h (custom_request marshal s r)) report"

section \<open>Slack and PagerDuty\<close>

text \<open>The verbs \<open>%.0f\<close> and \<open>%.2f\<close> of a finite float that is not negative, and \<open>%t\<close>.\<close>

definition show_fixed :: "nat \<Rightarrow> float64 \<Rightarrow> string" where
  "show_fixed prec x =
     (let n = nat (round_half_even (x * 10 ^ prec)) in
      if prec = 0 then show_nat n
      else show_nat (n div 10 ^ prec) @ ''.'' @ pad_left prec (show_nat (n mod 10 ^ prec)))"

definition show_bool :: "bool \<Rightarrow> string" where
  "show_bool b = (if b then ''true'' else ''false'')"

definition percent :: "float64 \<Rightarrow> string" where
  "percent c = show_fixed 0 (f64 (c * 100)) @ [CHR ''%'']"

definition severityColor :: "Severity \<Rightarrow> string" where
  "severityColor s =
     (if s = SeverityCritical then ''#FF0000''
      else if s = SeverityWarning then ''#FFA500''
      else if s = SeverityInfo then ''#36A64F''
      else ''#808080'')"

definition resourceSummary :: "RCAReport \<Rightarrow> string" where
  "resourceSummary report =
     (case db_SuperEvent (rca_DiagnosticBundle report) of
        Some se \<Rightarrow> ref_String (se_PrimaryResource se)
      | None \<Rightarrow>
          (case db_FaultEvent (rca_DiagnosticBundle report) of
             Some fe \<Rightarrow> ref_String (fe_Resource fe)
           | None \<Rightarrow> ''unknown''))"

record slackField =
  sf_Title :: string
  sf_Value :: string
  sf_Short :: bool

record slackAttachment =
  sa_Color :: string
  sa_Fallback :: string
  sa_Title :: string
  sa_Text :: string
  sa_Fields :: "slackField list"

record slackPayload =
  sp_Channel :: string
  sp_Attachments :: "slackAttachment list"

record SlackSink =
  sl_webhookURL :: string
  sl_channel :: string
  sl_severityFilter :: "Severity list"
  sl_retryCfg :: retryConfig

definition NewSlackSink ::
    "(string \<Rightarrow> parsed_url option) \<Rightarrow> string \<Rightarrow> string \<Rightarrow> Severity list \<Rightarrow> bool \<Rightarrow> sink_error + SlackSink" where
  "NewSlackSink url_parse webhookURL channel severityFilter logger =
     (if \<not> logger then Inl SinkNilLogger
      else if webhookURL = [] then Inl SinkEmptyURL
      else case ValidateBuiltInURL url_parse ''slack'' webhookURL of
          Some e \<Rightarrow> Inl (SinkURL e)
        | None \<Rightarrow> Inr \<lparr>sl_webhookURL = webhookURL, sl_channel = channel, sl_severityFilter = severityFilter,
            sl_retryCfg = defaultRetryConfig\<rparr>)"

definition slack_payload :: "SlackSink \<Rightarrow> RCAReport \<Rightarrow> slackPayload" where
  "slack_payload s report =
     (let resource = resourceSummary report;
          remediation0 = join [CHR 0x0A] (rca_Remediation report);
          remediation = (if remediation0 = [] then ''No remediation steps provided.'' else remediation0)
      in \<lparr>sp_Channel = sl_channel s, sp_Attachments =
           [\<lparr>sa_Color = severityColor (rca_Severity report),
             sa_Fallback = ''['' @ rca_Severity report @ ''] '' @ resource @ '': '' @ rca_RootCause report,
             sa_Title = ''K8s Wormsign: '' @ rca_RootCause report,
             sa_Text = ''*Resource:* '' @ resource,
             sa_Fields =
               [\<lparr>sf_Title = ''Severity'', sf_Value = rca_Severity report, sf_Short = True\<rparr>,
                \<lparr>sf_Title = ''Category'', sf_Value = rca_Category report, sf_Short = True\<rparr>,
                \<lparr>sf_Title = ''Systemic'', sf_Value = show_bool (rca_Systemic report), sf_Short = True\<rparr>,
                \<lparr>sf_Title = ''Confidence'', sf_Value = percent (rca_Confidence report), sf_Short = True\<rparr>,
                \<lparr>sf_Title = ''Blast Radius'', sf_Value = rca_BlastRadius report, sf_Short = False\<rparr>,
                \<lparr>sf_Title = ''Remediation'', sf_Value = remediation, sf_Short = False\<rparr>]\<rparr>]\<rparr>)"

definition post_json :: "string \<Rightarrow> string \<Rightarrow> http_request" where
  "post_json url body = \<lparr>rq_Method = ''POST'', rq_URL = url, rq_Headers = [(content_type, json_type)], rq_Body = body\<rparr>"

definition SlackSink_Deliver :: "(slackPayload \<Rightarrow> string + string) \<Rightarrow> http_env \<Rightarrow> ctx_env \<Rightarrow> SlackSink \<Rightarrow>
    RCAReport option \<Rightarrow> nat list \<times> duration list \<times> delivery_error option" where
  "SlackSink_Deliver marshal h cx s report =
     deliver_report (sl_retryCfg s) cx
       (\<lambda>r. http_attempt h (map_sum id (post_json (sl_webhookURL s)) (marshal (slack_payload s r)))) report"

record pdDetails =
  pd_Summary :: string
  pd_Source :: string
  pd_Severity :: string
  pd_Component :: string
  pd_Class :: string
  pd_CustomDetails :: "(string \<times> string) list"

record pdPayload =
  pp_RoutingKey :: string
  pp_EventAction :: string
  pp_DedupKey :: string
  pp_Payload :: pdDetails

record PagerDutySink =
  pds_routingKey :: string
  pds_severityFilter :: "Severity list"
  pds_retryCfg :: retryConfig
  pds_eventsURL :: string

definition pagerDutyEventsV2 :: string where
  "pagerDutyEventsV2 = ''https://events.pagerduty.com/v2/enqueue''"

definition NewPagerDutySink :: "string \<Rightarrow> Severity list \<Rightarrow> bool \<Rightarrow> sink_error + PagerDutySink" where
  "NewPagerDutySink routingKey severityFilter logger =
     (if \<not> logger then Inl SinkNilLogger
      else if routingKey = [] then Inl SinkEmptyRoutingKey
      else Inr \<lparr>pds_routingKey = routingKey, pds_severityFilter = severityFilter,
        pds_retryCfg = defaultRetryConfig, pds_eventsURL = pagerDutyEventsV2\<rparr>)"

definition em_dash :: string where
  "em_dash = [CHR 0xE2, CHR 0x80, CHR 0x94]"

definition pd_payload :: "PagerDutySink \<Rightarrow> RCAReport \<Rightarrow> pdPayload" where
  "pd_payload s report =
     (let resource = resourceSummary report in
      \<lparr>pp_RoutingKey = pds_routingKey s, pp_EventAction = ''trigger'', pp_DedupKey = rca_FaultEventID report,
       pp_Payload = \<lparr>pd_Summary = ''K8s Wormsign: '' @ resource @ '' '' @ em_dash @ '' '' @ rca_RootCause report,
         pd_Source = ''wormsign'', pd_Severity = rca_Severity report, pd_Component = resource,
         pd_Class = rca_Category report,
         pd_CustomDetails = [(''root_cause'', rca_RootCause report), (''category'', rca_Category report),
           (''blast_radius'', rca_BlastRadius report), (''confidence'', percent (rca_Confidence report)),
           (''systemic'', show_bool (rca_Systemic report)), (''analyzer'', rca_AnalyzerBackend report),
           (''fault_event_id'', rca_FaultEventID report)]\<rparr>\<rparr>)"

definition PagerDutySink_Deliver :: "(pdPayload \<Rightarrow> string + string) \<Rightarrow> http_env \<Rightarrow> ctx_env \<Rightarrow> PagerDutySink \<Rightarrow>
    RCAReport option \<Rightarrow> nat list \<times> duration list \<times> delivery_error option" where
  "PagerDutySink_Deliver marshal h cx s report =
     deliver_report (pds_retryCfg s) cx
       (\<lambda>r. http_attempt h (map_sum id (post_json (pds_eventsURL s)) (marshal (pd_payload s r)))) report"

section \<open>S3, Kubernetes events and the log\<close>

record S3Sink =
  s3_bucket :: string
  s3_prefix :: string
  s3_retryCfg :: retryConfig

definition NewS3Sink :: "string option \<Rightarrow> string \<Rightarrow> string \<Rightarrow> string \<Rightarrow> bool \<Rightarrow> sink_error + S3Sink" where
  "NewS3Sink aws_error bucket region pfx logger =
     (if bucket = [] then Inl SinkEmptyBucket
      else if region = [] then Inl SinkEmptyRegion
      else if \<not> logger then Inl SinkNilLogger
      else case aws_error of
          Some err \<Rightarrow> Inl (SinkAWSConfig err)
        | None \<Rightarrow> Inr \<lparr>s3_bucket = bucket, s3_prefix = pfx, s3_retryCfg = defaultRetryConfig\<rparr>)"

text \<open>The zero value of \<open>time.Time\<close>: the first of January of the year 1.\<close>

definition zero_time :: gotime where
  "zero_time = - 62135596800 * second"

definition date_path :: "gotime \<Rightarrow> string" where
  "date_path t = (case civil_date (t div (24 * hour)) of (y, m, d) \<Rightarrow>
     pad_int 4 y @ ''/'' @ pad_int 2 m @ ''/'' @ pad_int 2 d)"

definition objectKey :: "gotime \<Rightarrow> S3Sink \<Rightarrow> RCAReport \<Rightarrow> string" where
  "objectKey now s report =
     (let ts = (if rca_Timestamp report = zero_time then now else rca_Timestamp report)
      in s3_prefix s @ date_path ts @ ''/'' @ rca_FaultEventID report @ ''.json'')"

text \<open>\<open>put n key body\<close> is the answer of \<open>PutObject\<close> to attempt \<open>n\<close>; \<open>now n\<close> the clock then.\<close>

definition S3Sink_Deliver :: "(RCAReport \<Rightarrow> string + string) \<Rightarrow> (nat \<Rightarrow> gotime) \<Rightarrow>
    (nat \<Rightarrow> string \<Rightarrow> string \<Rightarrow> string \<Rightarrow> string option) \<Rightarrow> ctx_env \<Rightarrow> S3Sink \<Rightarrow> RCAReport option \<Rightarrow>
    nat list \<times> duration list \<times> delivery_error option" where
  "S3Sink_Deliver marshal now put cx s report =
     deliver_report (s3_retryCfg s) cx
       (\<lambda>r n. case marshal r of
           Inl err \<Rightarrow> Some err
         | Inr data \<Rightarrow> put n (s3_bucket s) (objectKey (now n) s r) data) report"

definition maxEventMessageLen :: nat where
  "maxEventMessageLen = 1024"

definition truncateMessage :: "string \<Rightarrow> string" where
  "truncateMessage msg = (if length msg \<le> maxEventMessageLen then msg else take (maxEventMessageLen - 3) msg @ ''...'')"

definition detectorName :: "RCAReport \<Rightarrow> string" where
  "detectorName report =
     (case db_FaultEvent (rca_DiagnosticBundle report) of
        Some fe \<Rightarrow> fe_DetectorName fe
      | None \<Rightarrow>
          (case db_SuperEvent (rca_DiagnosticBundle report) of
             Some se \<Rightarrow> se_CorrelationRule se
           | None \<Rightarrow> ''unknown''))"

fun target_loop :: "FaultEvent list \<Rightarrow> string list \<Rightarrow> ResourceRef list" where
  "target_loop [] seen = []"
| "target_loop (fe # fes) seen =
     (let key = ref_String (fe_Resource fe) in
      if List.member seen key then target_loop fes seen else fe_Resource fe # target_loop fes (key # seen))"

definition targetResources :: "RCAReport \<Rightarrow> ResourceRef list" where
  "targetResources report =
     (case db_SuperEvent (rca_DiagnosticBundle report) of
        Some se \<Rightarrow> se_PrimaryResource se # target_loop (se_FaultEvents se) [ref_String (se_PrimaryResource se)]
      | None \<Rightarrow>
          (case db_FaultEvent (rca_DiagnosticBundle report) of
             Some fe \<Rightarrow> [fe_Resource fe]
           | None \<Rightarrow> []))"

record k8s_event =
  ke_Namespace :: string
  ke_Labels :: "(string \<times> string) list"
  ke_Annotations :: "(string \<times> string) list"
  ke_InvolvedObject :: "string \<times> string \<times> string"
  ke_Message :: string
  ke_Type :: string
  ke_Timestamp :: gotime
  ke_ReportingInstance :: string

record KubernetesEventSink =
  kes_severityFilter :: "Severity list"
  kes_retryCfg :: retryConfig
  kes_instanceName :: string

definition NewKubernetesEventSink :: "bool \<Rightarrow> Severity list \<Rightarrow> bool \<Rightarrow> string \<Rightarrow> sink_error + KubernetesEventSink" where
  "NewKubernetesEventSink clientset severityFilter logger hostname =
     (if \<not> clientset then Inl SinkNilClientset
      else if \<not> logger then Inl SinkNilLogger
      else Inr \<lparr>kes_severityFilter = severityFilter, kes_retryCfg = defaultRetryConfig,
        kes_instanceName = (if hostname = [] then ''wormsign'' else hostname)\<rparr>)"

definition build_event :: "gotime \<Rightarrow> KubernetesEventSink \<Rightarrow> ResourceRef \<Rightarrow> RCAReport \<Rightarrow> k8s_event" where
  "build_event now s ref report =
     \<lparr>ke_Namespace = (if ref_Namespace ref = [] then ''default'' else ref_Namespace ref),
      ke_Labels = [(''wormsign.io/category'', rca_Category report), (''wormsign.io/severity'', rca_Severity report),
        (''wormsign.io/detector'', detectorName report), (''wormsign.io/systemic'', show_bool (rca_Systemic report))],
      ke_Annotations = [(''wormsign.io/fault-event-id'', rca_FaultEventID report),
        (''wormsign.io/confidence'', show_fixed 2 (rca_Confidence report)),
        (''wormsign.io/analyzer'', rca_AnalyzerBackend report),
        (''wormsign.io/remediation'', join [CHR 0x0A] (rca_Remediation report))],
      ke_InvolvedObject = (ref_Kind ref, ref_Namespace ref, ref_Name ref),
      ke_Message = truncateMessage (if rca_BlastRadius report \<noteq> []
        then ''['' @ rca_Category report @ ''] '' @ rca_RootCause report @ '' '' @ em_dash @ '' '' @ rca_BlastRadius report
        else ''['' @ rca_Category report @ ''] '' @ rca_RootCause report),
      ke_Type = (if rca_Severity report = SeverityInfo then ''Normal'' else ''Warning''),
      ke_Timestamp = now, ke_ReportingInstance = kes_instanceName s\<rparr>"

text \<open>
  \<open>create i n event\<close> is the API server's answer to attempt \<open>n\<close> for the \<open>i\<close>-th target. The result is
  the attempts made per target and the targets that failed.
\<close>

fun event_loop :: "(nat \<Rightarrow> nat \<Rightarrow> k8s_event \<Rightarrow> string option) \<Rightarrow> (nat \<Rightarrow> ctx_env) \<Rightarrow> (nat \<Rightarrow> nat \<Rightarrow> gotime) \<Rightarrow>
    KubernetesEventSink \<Rightarrow> RCAReport \<Rightarrow> nat \<Rightarrow> ResourceRef list \<Rightarrow> (ResourceRef \<times> delivery_error option) list" where
  "event_loop create cx now s report i [] = []"
| "event_loop create cx now s report i (ref # refs) =
     (case deliver_report (kes_retryCfg s) (cx i)
         (\<lambda>r n. create i n (build_event (now i n) s ref r)) (Some report) of
        (as, ds, err) \<Rightarrow> (ref, err) # event_loop create cx now s report (i + 1) refs)"

datatype event_delivery = EventNilReport | EventsFailed "(ResourceRef \<times> delivery_error) list" nat

definition KubernetesEventSink_Deliver :: "(nat \<Rightarrow> nat \<Rightarrow> k8s_event \<Rightarrow> string option) \<Rightarrow> (nat \<Rightarrow> ctx_env) \<Rightarrow>
    (nat \<Rightarrow> nat \<Rightarrow> gotime) \<Rightarrow> KubernetesEventSink \<Rightarrow> RCAReport option \<Rightarrow> event_delivery option" where
  "KubernetesEventSink_Deliver create cx now s report =
     (case report of
        None \<Rightarrow> Some EventNilReport
      | Some r \<Rightarrow>
          (let refs = targetResources r in
           if length refs = 0 then None
           else
             let errs = List.map_filter (\<lambda>(ref, err). map_option (Pair ref) err) (event_loop create cx now s r 0 refs)
             in if length errs > 0 then Some (EventsFailed errs (length refs)) else None))"

definition NewLogSink :: "bool \<Rightarrow> sink_error + unit" where
  "NewLogSink logger = (if \<not> logger then Inl SinkNilLogger else Inr ())"

definition formatRelatedResources :: "ResourceRef list \<Rightarrow> string list" where
  "formatRelatedResources refs = map ref_String refs"

record log_line =
  ll_FaultEventID :: string
  ll_RootCause :: string
  ll_Severity :: string
  ll_Category :: string
  ll_Systemic :: bool
  ll_BlastRadius :: string
  ll_Remediation :: "string list"
  ll_RelatedResources :: "string list"
  ll_Confidence :: float64
  ll_AnalyzerBackend :: string
  ll_Tokens :: "goint \<times> goint"

definition LogSink_Deliver :: "RCAReport option \<Rightarrow> log_line list \<times> delivery_error option" where
  "LogSink_Deliver report =
     (case report of
        None \<Rightarrow> ([], Some NilReport)
      | Some r \<Rightarrow>
          ([\<lparr>ll_FaultEventID = rca_FaultEventID r, ll_RootCause = rca_RootCause r, ll_Severity = rca_Severity r,
             ll_Category = rca_Category r, ll_Systemic = rca_Systemic r, ll_BlastRadius = rca_BlastRadius r,
             ll_Remediation = rca_Remediation r, ll_RelatedResources = formatRelatedResources (rca_RelatedResources r),
             ll_Confidence = rca_Confidence r, ll_AnalyzerBackend = rca_AnalyzerBackend r,
             ll_Tokens = (tok_Input (rca_TokensUsed r), tok_Output (rca_TokensUsed r))\<rparr>], None))"

section \<open>The sink registry\<close>

text \<open>A sink is its name, its filter and its \<open>Deliver\<close> method, whose error is the result.\<close>

record Sink =
  sk_Name :: string
  sk_SeverityFilter :: "Severity list"
  sk_Deliver :: "RCAReport option \<Rightarrow> string option"

record SinkRegistry =
  sr_sinks :: "(string \<times> Sink) list"

definition NewSinkRegistry :: SinkRegistry where
  "NewSinkRegistry = \<lparr>sr_sinks = []\<rparr>"

definition SinkRegistry_Register :: "SinkRegistry \<Rightarrow> Sink option \<Rightarrow> registry_error + SinkRegistry" where
  "SinkRegistry_Register r s = map_sum id (\<lambda>m. r\<lparr>sr_sinks := m\<rparr>) (reg_register sk_Name (sr_sinks r) s)"

definition SinkRegistry_Unregister :: "SinkRegistry \<Rightarrow> string \<Rightarrow> registry_error + SinkRegistry" where
  "SinkRegistry_Unregister r name = map_sum id (\<lambda>m. r\<lparr>sr_sinks := m\<rparr>) (reg_unregister (sr_sinks r) name)"

definition SinkRegistry_Get :: "SinkRegistry \<Rightarrow> string \<Rightarrow> Sink option" where
  "SinkRegistry_Get r name = map_of (sr_sinks r) name"

definition SinkRegistry_All :: "(string list \<Rightarrow> string list) \<Rightarrow> SinkRegistry \<Rightarrow> Sink list" where
  "SinkRegistry_All ord r = map snd (range_map ord (sr_sinks r))"

definition SinkRegistry_Count :: "SinkRegistry \<Rightarrow> nat" where
  "SinkRegistry_Count r = length (sr_sinks r)"

definition SinkRegistry_Names :: "(string list \<Rightarrow> string list) \<Rightarrow> SinkRegistry \<Rightarrow> string list" where
  "SinkRegistry_Names ord r = map fst (range_map ord (sr_sinks r))"

text \<open>The number of failures and the delivery metrics: the sink's name and the outcome.\<close>

fun deliver_all_loop :: "RCAReport \<Rightarrow> Sink list \<Rightarrow> nat \<times> (string \<times> string) list" where
  "deliver_all_loop report [] = (0, [])"
| "deliver_all_loop report (s # sinks) =
     (if \<not> AcceptsSeverity (sk_SeverityFilter s) (rca_Severity report) then deliver_all_loop report sinks
      else case deliver_all_loop report sinks of
          (failures, ms) \<Rightarrow>
            (case sk_Deliver s (Some report) of
               Some err \<Rightarrow> (failures + 1, (sk_Name s, ''failure'') # ms)
             | None \<Rightarrow> (failures, (sk_Name s, ''success'') # ms)))"

definition DeliverAll :: "(string list \<Rightarrow> string list) \<Rightarrow> SinkRegistry \<Rightarrow> RCAReport option \<Rightarrow> nat \<times> (string \<times> string) list" where
  "DeliverAll ord r report =
     (case report of None \<Rightarrow> (0, []) | Some rep \<Rightarrow> deliver_all_loop rep (SinkRegistry_All ord r))"

interpretation sreg: registry NewSinkRegistry sk_Name SinkRegistry_Register SinkRegistry_Unregister SinkRegistry_Get
  by unfold_locales
    (auto simp: NewSinkRegistry_def SinkRegistry_Register_def SinkRegistry_Unregister_def
      SinkRegistry_Get_def reg_defs split: if_splits)

section \<open>Retries\<close>

lemma f64_small_int: "0 \<le> k \<Longrightarrow> k < 2 ^ 53 \<Longrightarrow> f64 (of_int k) = of_int k"
  by (rule f64_int)

lemma default_delays: "backoff_delay defaultRetryConfig 0 = second" "backoff_delay defaultRetryConfig (Suc 0) = 5 * second"
  using f64_int [of 1000000000] f64_int [of 1] f64_int [of 5] f64_int [of 5000000000]
  by (simp_all add: backoff_delay_def defaultRetryConfig_def second_def)


section \<open>The allow-list\<close>

lemma ValidateURL_None:
  "ValidateURL url_parse is_ip v url = None \<longleftrightarrow>
     (\<exists>u. url_parse url = Some u \<and> u_Scheme u = ''https'' \<and> u_Hostname u \<noteq> [] \<and> \<not> is_ip (u_Hostname u) \<and>
        \<not> isBlockedHostname (u_Hostname u) \<and> (\<exists>p \<in> set (sv_allowedDomains v). glob_match p (u_Hostname u)))"
  by (auto simp: ValidateURL_def Let_def list_ex_iff split: option.split)

lemma NewSSRFValidator_domains: "NewSSRFValidator ds = Inr v \<Longrightarrow> sv_allowedDomains v = ds"
  by (auto simp: NewSSRFValidator_def split: if_splits option.splits)

text \<open>
  C25. A webhook sink that was built with a list of allowed domains only ever requests an \<open>https\<close> URL whose
  host name is not an address, is not blocked and matches a pattern of the list.
\<close>

theorem webhook_requests_allowed:
  assumes "NewWebhookSink url_parse is_ip cfg True = Inr s" "whc_AllowedDomains cfg \<noteq> []"
    "webhook_request marshal s report = Inr rq"
  shows "\<exists>u. url_parse (rq_URL rq) = Some u \<and> u_Scheme u = ''https'' \<and> u_Hostname u \<noteq> [] \<and>
    \<not> is_ip (u_Hostname u) \<and> \<not> isBlockedHostname (u_Hostname u) \<and>
    (\<exists>p \<in> set (whc_AllowedDomains cfg). glob_match p (u_Hostname u))"
proof -
  from assms(1,2) obtain v where v: "NewSSRFValidator (whc_AllowedDomains cfg) = Inr v"
    and "ValidateURL url_parse is_ip v (whc_URL cfg) = None" and s: "wh_url s = whc_URL cfg"
    by (auto simp: NewWebhookSink_def split: if_splits sum.splits option.splits)
  moreover have "rq_URL rq = wh_url s" using assms(3)
    by (cases "marshal report") (auto simp: webhook_request_def)
  ultimately show ?thesis using NewSSRFValidator_domains [OF v] ValidateURL_None by metis
qed


section \<open>Targets of events\<close>

lemma target_loop_keys:
  "distinct (map ref_String (target_loop fes seen)) \<and> set (map ref_String (target_loop fes seen)) \<inter> set seen = {} \<and>
   set (map ref_String (target_loop fes seen)) \<union> set seen = (\<lambda>fe. ref_String (fe_Resource fe)) ` set fes \<union> set seen"
proof (induction fes arbitrary: seen)
  case (Cons fe fes)
  let ?k = "ref_String (fe_Resource fe)"
  show ?case using Cons [of seen] Cons [of "?k # seen"]
    by (cases "?k \<in> set seen") (auto simp: Let_def)
qed simp

text \<open>
  The events of a report about a super-event go to the primary resource and to the resource of every
  member, once each, and no event message is longer than 1024 bytes.
\<close>

theorem event_targets:
  assumes "db_SuperEvent (rca_DiagnosticBundle report) = Some se"
  shows "distinct (map ref_String (targetResources report)) \<and>
    set (map ref_String (targetResources report)) =
      insert (ref_String (se_PrimaryResource se)) ((\<lambda>fe. ref_String (fe_Resource fe)) ` set (se_FaultEvents se)) \<and>
    length (ke_Message (build_event now s ref report)) \<le> 1024"
  using target_loop_keys [of "se_FaultEvents se" "[ref_String (se_PrimaryResource se)]"] assms
  by (auto simp: targetResources_def build_event_def truncateMessage_def maxEventMessageLen_def)

section \<open>Fan-out\<close>

definition sink_outcome :: "RCAReport \<Rightarrow> Sink \<Rightarrow> string \<times> string" where
  "sink_outcome report s = (sk_Name s, if sk_Deliver s (Some report) = None then ''success'' else ''failure'')"

lemma deliver_all_loop_spec:
  "deliver_all_loop report sinks =
     (let ss = filter (\<lambda>s. AcceptsSeverity (sk_SeverityFilter s) (rca_Severity report)) sinks
      in (length (filter (\<lambda>s. sk_Deliver s (Some report) \<noteq> None) ss), map (sink_outcome report) ss))"
  by (induction sinks) (auto simp: Let_def sink_outcome_def split: option.split)

text \<open>
  \<open>DeliverAll\<close> hands a report to every registered sink that accepts its severity, once each and whatever
  the others do, counts the failures and records one outcome per sink, for every iteration order.
\<close>

theorem deliver_all_isolates:
  assumes "permuting ord" "distinct (map fst (sr_sinks r))"
  shows "case DeliverAll ord r (Some report) of (failures, ms) \<Rightarrow>
    mset ms = image_mset (sink_outcome report)
      (filter_mset (\<lambda>s. AcceptsSeverity (sk_SeverityFilter s) (rca_Severity report)) (mset (map snd (sr_sinks r)))) \<and>
    failures = length (filter (\<lambda>m. snd m = ''failure'') ms)"
proof -
  have d: "distinct (range_map ord (sr_sinks r))" "distinct (sr_sinks r)"
    using assms range_map_distinct [OF assms] by (auto simp: distinct_map)
  have "mset (range_map ord (sr_sinks r)) = mset (sr_sinks r)"
    using range_map_keys(2) [OF assms] set_eq_iff_mset_eq_distinct [OF d] by blast
  then have m: "mset (SinkRegistry_All ord r) = mset (map snd (sr_sinks r))"
    unfolding SinkRegistry_All_def by (metis mset_map)
  have f: "snd (sink_outcome report s) = ''failure'' \<longleftrightarrow> sk_Deliver s (Some report) \<noteq> None" for s
    by (simp add: sink_outcome_def)
  show ?thesis
    unfolding m [symmetric]
    by (simp add: DeliverAll_def deliver_all_loop_spec Let_def filter_map comp_def f del: not_None_eq)
qed

section \<open>Examples\<close>

definition ex_attempts :: attempt_env where
  "ex_attempts = \<lparr>at_ctx = (\<lambda>n. None), at_call = (\<lambda>n. if n = 1 then None else Some ''503''), at_pause = (\<lambda>n. None)\<rparr>"


definition ex_url :: "string \<Rightarrow> parsed_url option" where
  "ex_url s = (if has_prefix s ''https://'' then Some \<lparr>u_Scheme = ''https'', u_Hostname = drop 8 s\<rparr> else None)"

definition ex_webhook :: WebhookConfig where
  "ex_webhook = \<lparr>whc_URL = ''https://a.example.com'', whc_Headers = None, whc_SeverityFilter = [],
     whc_AllowedDomains = [''*.example.com'']\<rparr>"

lemma ex_webhook_sink:
  "NewWebhookSink ex_url (\<lambda>h. False) ex_webhook True = Inr \<lparr>wh_url = ''https://a.example.com'', wh_headers = [],
     wh_severityFilter = [], wh_retryCfg = defaultRetryConfig\<rparr>"
proof -
  have g: "glob_match ''*.example.com'' ''a.example.com''" "glob_parse (length ''*.example.com'') ''*.example.com'' \<noteq> None"
    "\<not> isBlockedHostname ''a.example.com''" "ex_url ''https://a.example.com'' = Some \<lparr>u_Scheme = ''https'', u_Hostname = ''a.example.com''\<rparr>"
    by code_simp+
  show ?thesis using g by (simp add: NewWebhookSink_def ex_webhook_def NewSSRFValidator_def ValidateURL_def)
qed

definition ex_report :: RCAReport where
  "ex_report = \<lparr>rca_FaultEventID = ''f'', rca_Timestamp = 0, rca_RootCause = ''x'', rca_Severity = SeverityWarning,
     rca_Category = ''unknown'', rca_Systemic = False, rca_BlastRadius = [], rca_Remediation = [],
     rca_RelatedResources = [], rca_Confidence = 0, rca_RawAnalysis = [],
     rca_DiagnosticBundle = NewSuperEventDiagnosticBundle 0 (Some \<lparr>se_ID = ''s'', se_CorrelationRule = ''NodeCascade'',
        se_PrimaryResource = \<lparr>ref_Kind = ''Node'', ref_Namespace = [], ref_Name = ''n'', ref_UID = []\<rparr>,
        se_FaultEvents = [], se_Timestamp = 0, se_Severity = SeverityWarning\<rparr>) [],
     rca_AnalyzerBackend = ''rules'', rca_TokensUsed = \<lparr>tok_Input = 0, tok_Output = 0\<rparr>\<rparr>"

theorem webhook_requests_allowed_witness:
  "\<exists>u. ex_url ''https://a.example.com'' = Some u \<and> glob_match ''*.example.com'' (u_Hostname u)"
  using webhook_requests_allowed [OF ex_webhook_sink, of "\<lambda>r. Inr ''body''" ex_report]
  by (auto simp: ex_webhook_def webhook_request_def)


theorem event_targets_witness: "map ref_String (targetResources ex_report) = [''Node/n'']"
proof -
  have "distinct (map ref_String (targetResources ex_report)) \<and>
      set (map ref_String (targetResources ex_report)) = {''Node/n''}"
    using event_targets [of ex_report] by (simp add: ex_report_def NewSuperEventDiagnosticBundle_def ref_String_def)
  then show ?thesis
    by (cases "map ref_String (targetResources ex_report)"; cases "tl (map ref_String (targetResources ex_report))") auto
qed

definition ex_sinks :: SinkRegistry where
  "ex_sinks = \<lparr>sr_sinks =
     [(''a'', \<lparr>sk_Name = ''a'', sk_SeverityFilter = [SeverityCritical], sk_Deliver = (\<lambda>r. None)\<rparr>),
      (''b'', \<lparr>sk_Name = ''b'', sk_SeverityFilter = [], sk_Deliver = (\<lambda>r. Some ''down'')\<rparr>)]\<rparr>"

theorem deliver_all_isolates_witness: "mset (snd (DeliverAll rev ex_sinks (Some ex_report))) = {#(''b'', ''failure'')#}"
proof -
  have "permuting rev" "distinct (map fst (sr_sinks ex_sinks))" by (simp_all add: permuting_def ex_sinks_def)
  from deliver_all_isolates [OF this, of ex_report] show ?thesis
    by (simp add: case_prod_beta' ex_sinks_def ex_report_def AcceptsSeverity_def sink_outcome_def
        SeverityCritical_def SeverityWarning_def)
qed

end
