(* ===== verification/Config.thy ===== *)
theory Config
  imports Go_Prelude
begin

text \<open>
  The configuration (\<open>internal/config/config.go\<close>, \<open>defaults.go\<close>, \<open>validate.go\<close>, \<open>load.go\<close>): the structs of
  the YAML file, the defaults that fill in zero values and the validation at startup. A nil slice is
  \<open>None\<close>. Reading and decoding the file is a parameter; so is the regular-expression compiler, of which
  only the success matters here. Temperatures are finite floats.
\<close>

section \<open>The structs\<close>

record ResourceRequirements =
  rr_CPU :: string
  rr_Memory :: string

record ResourcesConfig =
  rs_Requests :: ResourceRequirements
  rs_Limits :: ResourceRequirements

record LeaderElectionConfig =
  le_Enabled :: bool
  le_LeaseDuration :: duration
  le_RenewDeadline :: duration
  le_RetryPeriod :: duration

record LoggingConfig =
  lg_Level :: string
  lg_Format :: string

record FiltersConfig =
  fc_ExcludeNamespaces :: "string list option"
  fc_ExcludeNamespaceSelector :: "labels option option"

record PodStuckPendingDetectorConfig =
  dsp_Enabled :: bool
  dsp_Threshold :: duration
  dsp_Cooldown :: duration

record PodCrashLoopDetectorConfig =
  dcl_Enabled :: bool
  dcl_Threshold :: goint
  dcl_Cooldown :: duration

record PodFailedDetectorConfig =
  dpf_Enabled :: bool
  dpf_IgnoreExitCodes :: "goint list option"
  dpf_Cooldown :: duration

record NodeNotReadyDetectorConfig =
  dnr_Enabled :: bool
  dnr_Threshold :: duration
  dnr_Cooldown :: duration

record PVCStuckBindingDetectorConfig =
  dsb_Enabled :: bool
  dsb_Threshold :: duration
  dsb_Cooldown :: duration

record HighPodCountDetectorConfig =
  dhp_Enabled :: bool
  dhp_Threshold :: goint
  dhp_Cooldown :: duration

record JobDeadlineDetectorConfig =
  djd_Enabled :: bool
  djd_Cooldown :: duration

record DetectorsConfig =
  dc_PodStuckPending :: PodStuckPendingDetectorConfig
  dc_PodCrashLoop :: PodCrashLoopDetectorConfig
  dc_PodFailed :: PodFailedDetectorConfig
  dc_NodeNotReady :: NodeNotReadyDetectorConfig
  dc_PVCStuckBinding :: PVCStuckBindingDetectorConfig
  dc_HighPodCount :: HighPodCountDetectorConfig
  dc_JobDeadlineExceeded :: JobDeadlineDetectorConfig

record NodeCascadeRuleConfig =
  rnc_Enabled :: bool
  rnc_MinPodFailures :: goint

record DeploymentRolloutRuleConfig =
  rdr_Enabled :: bool
  rdr_MinPodFailures :: goint

record StorageCascadeRuleConfig =
  rsc_Enabled :: bool

record NamespaceStormRuleConfig =
  rns_Enabled :: bool
  rns_Threshold :: goint

record CorrelationRulesConfig =
  crc_NodeCascade :: NodeCascadeRuleConfig
  crc_DeploymentRollout :: DeploymentRolloutRuleConfig
  crc_StorageCascade :: StorageCascadeRuleConfig
  crc_NamespaceStorm :: NamespaceStormRuleConfig

record CorrelationConfig =
  ccf_Enabled :: bool
  ccf_WindowDuration :: duration
  ccf_Rules :: CorrelationRulesConfig

record PodLogsGathererConfig =
  gpl_Enabled :: bool
  gpl_TailLines :: goint
  gpl_IncludePrevious :: bool
  gpl_RedactPatterns :: "string list option"

record NodeConditionsGathererConfig =
  gnc_Enabled :: bool
  gnc_IncludeAllocatable :: bool

record GatherersConfig =
  gc_PodLogs :: PodLogsGathererConfig
  gc_KarpenterState :: bool
  gc_NodeConditions :: NodeConditionsGathererConfig
  gc_MaxAffectedResources :: goint

record RateLimitingConfig =
  rlm_DailyTokenBudget :: goint
  rlm_HourlyTokenBudget :: goint

record CircuitBreakerSettings =
  cbs_ConsecutiveFailures :: goint
  cbs_OpenDuration :: duration

record SecretKeyRef =
  skr_Name :: string
  skr_Key :: string

record LLMConfig =
  llc_Model :: string
  llc_APIKeySecret :: SecretKeyRef
  llc_MaxTokens :: goint
  llc_Temperature :: rat

record ClaudeBedrockConfig =
  cbc_Region :: string
  cbc_ModelID :: string

record AzureOpenAIConfig =
  aoc_Endpoint :: string
  aoc_DeploymentName :: string
  aoc_APIKeySecret :: SecretKeyRef

record AnalyzerConfig =
  ac_Backend :: string
  ac_SystemPromptOverride :: string
  ac_SystemPromptAppend :: string
  ac_RateLimiting :: RateLimitingConfig
  ac_CircuitBreaker :: CircuitBreakerSettings
  ac_Claude :: LLMConfig
  ac_ClaudeBedrock :: ClaudeBedrockConfig
  ac_OpenAI :: LLMConfig
  ac_AzureOpenAI :: AzureOpenAIConfig

record SlackSinkConfig =
  ssc_Enabled :: bool
  ssc_WebhookSecret :: SecretKeyRef
  ssc_Channel :: string
  ssc_SeverityFilter :: "string list option"
  ssc_TemplateOverride :: string

record PagerDutySinkConfig =
  psc_Enabled :: bool
  psc_RoutingKeySecret :: SecretKeyRef
  psc_SeverityFilter :: "string list option"

record S3SinkConfig =
  s3c_Enabled :: bool
  s3c_Bucket :: string
  s3c_Region :: string
  s3c_Prefix :: string

record WebhookSinkConfig =
  wsc_Enabled :: bool
  wsc_URL :: string
  wsc_Headers :: "(string \<times> string) list option"
  wsc_SeverityFilter :: "string list option"
  wsc_AllowedDomains :: "string list option"

record KubernetesEventSinkConfig =
  kec_Enabled :: bool
  kec_SeverityFilter :: "string list option"

record SinksConfig =
  sc_Slack :: SlackSinkConfig
  sc_PagerDuty :: PagerDutySinkConfig
  sc_S3 :: S3SinkConfig
  sc_Webhook :: WebhookSinkConfig
  sc_KubernetesEvent :: KubernetesEventSinkConfig

record WorkerCounts =
  wk_Gathering :: goint
  wk_Analysis :: goint
  wk_Sink :: goint

record MetricsConfig =
  mc_Enabled :: bool
  mc_Port :: goint
  mc_ServiceMonitor_Enabled :: bool
  mc_ServiceMonitor_Interval :: duration

record ControllerTuningConfig =
  ct_DetectorScanInterval :: duration
  ct_ShardReconcileInterval :: duration
  ct_InformerResyncPeriod :: duration

record Config =
  cfg_ReplicaCount :: goint
  cfg_Resources :: ResourcesConfig
  cfg_LeaderElection :: LeaderElectionConfig
  cfg_Logging :: LoggingConfig
  cfg_Filters :: FiltersConfig
  cfg_Detectors :: DetectorsConfig
  cfg_Correlation :: CorrelationConfig
  cfg_Gatherers :: GatherersConfig
  cfg_Analyzer :: AnalyzerConfig
  cfg_Sinks :: SinksConfig
  cfg_Workers :: WorkerCounts
  cfg_Metrics :: MetricsConfig
  cfg_HealthPort :: goint
  cfg_ControllerTuning :: ControllerTuningConfig

text \<open>The zero value of the struct, which decoding a file starts from.\<close>

definition zero_secret :: SecretKeyRef where
  "zero_secret = \<lparr>skr_Name = [], skr_Key = []\<rparr>"

definition zero_llm :: LLMConfig where
  "zero_llm = \<lparr>llc_Model = [], llc_APIKeySecret = zero_secret, llc_MaxTokens = 0, llc_Temperature = 0\<rparr>"

definition zero_config :: Config where
  "zero_config = \<lparr>cfg_ReplicaCount = 0,
     cfg_Resources = \<lparr>rs_Requests = \<lparr>rr_CPU = [], rr_Memory = []\<rparr>, rs_Limits = \<lparr>rr_CPU = [], rr_Memory = []\<rparr>\<rparr>,
     cfg_LeaderElection = \<lparr>le_Enabled = False, le_LeaseDuration = 0, le_RenewDeadline = 0, le_RetryPeriod = 0\<rparr>,
     cfg_Logging = \<lparr>lg_Level = [], lg_Format = []\<rparr>,
     cfg_Filters = \<lparr>fc_ExcludeNamespaces = None, fc_ExcludeNamespaceSelector = None\<rparr>,
     cfg_Detectors = \<lparr>
       dc_PodStuckPending = \<lparr>dsp_Enabled = False, dsp_Threshold = 0, dsp_Cooldown = 0\<rparr>,
       dc_PodCrashLoop = \<lparr>dcl_Enabled = False, dcl_Threshold = 0, dcl_Cooldown = 0\<rparr>,
       dc_PodFailed = \<lparr>dpf_Enabled = False, dpf_IgnoreExitCodes = None, dpf_Cooldown = 0\<rparr>,
       dc_NodeNotReady = \<lparr>dnr_Enabled = False, dnr_Threshold = 0, dnr_Cooldown = 0\<rparr>,
       dc_PVCStuckBinding = \<lparr>dsb_Enabled = False, dsb_Threshold = 0, dsb_Cooldown = 0\<rparr>,
       dc_HighPodCount = \<lparr>dhp_Enabled = False, dhp_Threshold = 0, dhp_Cooldown = 0\<rparr>,
       dc_JobDeadlineExceeded = \<lparr>djd_Enabled = False, djd_Cooldown = 0\<rparr>\<rparr>,
     cfg_Correlation = \<lparr>ccf_Enabled = False, ccf_WindowDuration = 0, ccf_Rules = \<lparr>
       crc_NodeCascade = \<lparr>rnc_Enabled = False, rnc_MinPodFailures = 0\<rparr>,
       crc_DeploymentRollout = \<lparr>rdr_Enabled = False, rdr_MinPodFailures = 0\<rparr>,
       crc_StorageCascade = \<lparr>rsc_Enabled = False\<rparr>,
       crc_NamespaceStorm = \<lparr>rns_Enabled = False, rns_Threshold = 0\<rparr>\<rparr>\<rparr>,
     cfg_Gatherers = \<lparr>
       gc_PodLogs = \<lparr>gpl_Enabled = False, gpl_TailLines = 0, gpl_IncludePrevious = False, gpl_RedactPatterns = None\<rparr>,
       gc_KarpenterState = False, gc_NodeConditions = \<lparr>gnc_Enabled = False, gnc_IncludeAllocatable = False\<rparr>,
       gc_MaxAffectedResources = 0\<rparr>,
     cfg_Analyzer = \<lparr>ac_Backend = [], ac_SystemPromptOverride = [], ac_SystemPromptAppend = [],
       ac_RateLimiting = \<lparr>rlm_DailyTokenBudget = 0, rlm_HourlyTokenBudget = 0\<rparr>,
       ac_CircuitBreaker = \<lparr>cbs_ConsecutiveFailures = 0, cbs_OpenDuration = 0\<rparr>,
       ac_Claude = zero_llm, ac_ClaudeBedrock = \<lparr>cbc_Region = [], cbc_ModelID = []\<rparr>, ac_OpenAI = zero_llm,
       ac_AzureOpenAI = \<lparr>aoc_Endpoint = [], aoc_DeploymentName = [], aoc_APIKeySecret = zero_secret\<rparr>\<rparr>,
     cfg_Sinks = \<lparr>
       sc_Slack = \<lparr>ssc_Enabled = False, ssc_WebhookSecret = zero_secret, ssc_Channel = [], ssc_SeverityFilter = None,
         ssc_TemplateOverride = []\<rparr>,
       sc_PagerDuty = \<lparr>psc_Enabled = False, psc_RoutingKeySecret = zero_secret, psc_SeverityFilter = None\<rparr>,
       sc_S3 = \<lparr>s3c_Enabled = False, s3c_Bucket = [], s3c_Region = [], s3c_Prefix = []\<rparr>,
       sc_Webhook = \<lparr>wsc_Enabled = False, wsc_URL = [], wsc_Headers = None, wsc_SeverityFilter = None,
         wsc_AllowedDomains = None\<rparr>,
       sc_KubernetesEvent = \<lparr>kec_Enabled = False, kec_SeverityFilter = None\<rparr>\<rparr>,
     cfg_Workers = \<lparr>wk_Gathering = 0, wk_Analysis = 0, wk_Sink = 0\<rparr>,
     cfg_Metrics = \<lparr>mc_Enabled = False, mc_Port = 0, mc_ServiceMonitor_Enabled = False, mc_ServiceMonitor_Interval = 0\<rparr>,
     cfg_HealthPort = 0,
     cfg_ControllerTuning = \<lparr>ct_DetectorScanInterval = 0, ct_ShardReconcileInterval = 0, ct_InformerResyncPeriod = 0\<rparr>\<rparr>"

section \<open>Defaults\<close>

definition api_key :: "string \<Rightarrow> SecretKeyRef" where
  "api_key key = \<lparr>skr_Name = ''wormsign-api-keys'', skr_Key = key\<rparr>"

definition sink_secret :: "string \<Rightarrow> SecretKeyRef" where
  "sink_secret key = \<lparr>skr_Name = ''wormsign-sink-secrets'', skr_Key = key\<rparr>"

definition Default :: Config where
  "Default = \<lparr>cfg_ReplicaCount = 1,
     cfg_Resources = \<lparr>rs_Requests = \<lparr>rr_CPU = ''100m'', rr_Memory = ''128Mi''\<rparr>,
       rs_Limits = \<lparr>rr_CPU = ''500m'', rr_Memory = ''512Mi''\<rparr>\<rparr>,
     cfg_LeaderElection = \<lparr>le_Enabled = True, le_LeaseDuration = 15 * second, le_RenewDeadline = 10 * second,
       le_RetryPeriod = 2 * second\<rparr>,
     cfg_Logging = \<lparr>lg_Level = ''info'', lg_Format = ''json''\<rparr>,
     cfg_Filters = \<lparr>fc_ExcludeNamespaces = Some [''kube-system'', ''kube-public'', ''kube-node-lease''],
       fc_ExcludeNamespaceSelector = None\<rparr>,
     cfg_Detectors = \<lparr>
       dc_PodStuckPending = \<lparr>dsp_Enabled = True, dsp_Threshold = 15 * minute, dsp_Cooldown = 30 * minute\<rparr>,
       dc_PodCrashLoop = \<lparr>dcl_Enabled = True, dcl_Threshold = 3, dcl_Cooldown = 30 * minute\<rparr>,
       dc_PodFailed = \<lparr>dpf_Enabled = True, dpf_IgnoreExitCodes = Some [0], dpf_Cooldown = 30 * minute\<rparr>,
       dc_NodeNotReady = \<lparr>dnr_Enabled = True, dnr_Threshold = 5 * minute, dnr_Cooldown = 30 * minute\<rparr>,
       dc_PVCStuckBinding = \<lparr>dsb_Enabled = False, dsb_Threshold = 10 * minute, dsb_Cooldown = 30 * minute\<rparr>,
       dc_HighPodCount = \<lparr>dhp_Enabled = False, dhp_Threshold = 200, dhp_Cooldown = 1 * hour\<rparr>,
       dc_JobDeadlineExceeded = \<lparr>djd_Enabled = False, djd_Cooldown = 30 * minute\<rparr>\<rparr>,
     cfg_Correlation = \<lparr>ccf_Enabled = True, ccf_WindowDuration = 2 * minute, ccf_Rules = \<lparr>
       crc_NodeCascade = \<lparr>rnc_Enabled = True, rnc_MinPodFailures = 2\<rparr>,
       crc_DeploymentRollout = \<lparr>rdr_Enabled = True, rdr_MinPodFailures = 3\<rparr>,
       crc_StorageCascade = \<lparr>rsc_Enabled = True\<rparr>,
       crc_NamespaceStorm = \<lparr>rns_Enabled = True, rns_Threshold = 20\<rparr>\<rparr>\<rparr>,
     cfg_Gatherers = \<lparr>
       gc_PodLogs = \<lparr>gpl_Enabled = True, gpl_TailLines = 100, gpl_IncludePrevious = True, gpl_RedactPatterns = None\<rparr>,
       gc_KarpenterState = True, gc_NodeConditions = \<lparr>gnc_Enabled = True, gnc_IncludeAllocatable = True\<rparr>,
       gc_MaxAffectedResources = 5\<rparr>,
     cfg_Analyzer = \<lparr>ac_Backend = ''claude'', ac_SystemPromptOverride = [], ac_SystemPromptAppend = [],
       ac_RateLimiting = \<lparr>rlm_DailyTokenBudget = 1000000, rlm_HourlyTokenBudget = 100000\<rparr>,
       ac_CircuitBreaker = \<lparr>cbs_ConsecutiveFailures = 5, cbs_OpenDuration = 10 * minute\<rparr>,
       ac_Claude = \<lparr>llc_Model = ''claude-sonnet-4-5-20250929'', llc_APIKeySecret = api_key ''anthropic-api-key'',
         llc_MaxTokens = 4096, llc_Temperature = 0\<rparr>,
       ac_ClaudeBedrock = \<lparr>cbc_Region = ''us-east-1'', cbc_ModelID = ''anthropic.claude-sonnet-4-5-20250929-v1:0''\<rparr>,
       ac_OpenAI = \<lparr>llc_Model = ''gpt-4o'', llc_APIKeySecret = api_key ''openai-api-key'',
         llc_MaxTokens = 4096, llc_Temperature = 0\<rparr>,
       ac_AzureOpenAI = \<lparr>aoc_Endpoint = [], aoc_DeploymentName = [], aoc_APIKeySecret = api_key ''azure-openai-key''\<rparr>\<rparr>,
     cfg_Sinks = \<lparr>
       sc_Slack = \<lparr>ssc_Enabled = False, ssc_WebhookSecret = sink_secret ''slack-webhook-url'', ssc_Channel = [],
         ssc_SeverityFilter = Some [''critical'', ''warning''], ssc_TemplateOverride = []\<rparr>,
       sc_PagerDuty = \<lparr>psc_Enabled = False, psc_RoutingKeySecret = sink_secret ''pagerduty-routing-key'',
         psc_SeverityFilter = Some [''critical'']\<rparr>,
       sc_S3 = \<lparr>s3c_Enabled = False, s3c_Bucket = [], s3c_Region = [], s3c_Prefix = ''wormsign/reports/''\<rparr>,
       sc_Webhook = \<lparr>wsc_Enabled = False, wsc_URL = [], wsc_Headers = None,
         wsc_SeverityFilter = Some [''critical'', ''warning'', ''info''], wsc_AllowedDomains = None\<rparr>,
       sc_KubernetesEvent = \<lparr>kec_Enabled = True, kec_SeverityFilter = Some [''critical'', ''warning'']\<rparr>\<rparr>,
     cfg_Workers = \<lparr>wk_Gathering = 5, wk_Analysis = 2, wk_Sink = 3\<rparr>,
     cfg_Metrics = \<lparr>mc_Enabled = True, mc_Port = 8080, mc_ServiceMonitor_Enabled = False,
       mc_ServiceMonitor_Interval = 30 * second\<rparr>,
     cfg_HealthPort = 8081,
     cfg_ControllerTuning = \<lparr>ct_DetectorScanInterval = 30 * second, ct_ShardReconcileInterval = 30 * second,
       ct_InformerResyncPeriod = 30 * minute\<rparr>\<rparr>"

text \<open>\<open>if x == 0 { x = d }\<close>, and the same for empty strings and nil slices.\<close>

definition or_zero :: "int \<Rightarrow> int \<Rightarrow> int" where
  "or_zero d x = (if x = 0 then d else x)"

definition or_empty :: "string \<Rightarrow> string \<Rightarrow> string" where
  "or_empty d x = (if x = [] then d else x)"

definition or_nil :: "'a option \<Rightarrow> 'a option \<Rightarrow> 'a option" where
  "or_nil d x = (case x of None \<Rightarrow> d | Some _ \<Rightarrow> x)"

definition default_resources :: "ResourceRequirements \<Rightarrow> ResourceRequirements \<Rightarrow> ResourceRequirements" where
  "default_resources d r = r\<lparr>rr_CPU := or_empty (rr_CPU d) (rr_CPU r), rr_Memory := or_empty (rr_Memory d) (rr_Memory r)\<rparr>"

definition default_leader :: "LeaderElectionConfig \<Rightarrow> LeaderElectionConfig \<Rightarrow> LeaderElectionConfig" where
  "default_leader d l =
     (let l1 = (if le_LeaseDuration l = 0
            then l\<lparr>le_LeaseDuration := le_LeaseDuration d,
                   le_RenewDeadline := or_zero (le_RenewDeadline d) (le_RenewDeadline l),
                   le_RetryPeriod := or_zero (le_RetryPeriod d) (le_RetryPeriod l)\<rparr>
            else l)
      in l1\<lparr>le_RenewDeadline := or_zero (le_RenewDeadline d) (le_RenewDeadline l1),
            le_RetryPeriod := or_zero (le_RetryPeriod d) (le_RetryPeriod l1)\<rparr>)"

definition applyDetectorDefaults :: "DetectorsConfig \<Rightarrow> DetectorsConfig \<Rightarrow> DetectorsConfig" where
  "applyDetectorDefaults c d =
     c\<lparr>dc_PodStuckPending := (dc_PodStuckPending c)
         \<lparr>dsp_Threshold := or_zero (dsp_Threshold (dc_PodStuckPending d)) (dsp_Threshold (dc_PodStuckPending c)),
          dsp_Cooldown := or_zero (dsp_Cooldown (dc_PodStuckPending d)) (dsp_Cooldown (dc_PodStuckPending c))\<rparr>,
       dc_PodCrashLoop := (dc_PodCrashLoop c)
         \<lparr>dcl_Threshold := or_zero (dcl_Threshold (dc_PodCrashLoop d)) (dcl_Threshold (dc_PodCrashLoop c)),
          dcl_Cooldown := or_zero (dcl_Cooldown (dc_PodCrashLoop d)) (dcl_Cooldown (dc_PodCrashLoop c))\<rparr>,
       dc_PodFailed := (dc_PodFailed c)
         \<lparr>dpf_Cooldown := or_zero (dpf_Cooldown (dc_PodFailed d)) (dpf_Cooldown (dc_PodFailed c)),
          dpf_IgnoreExitCodes := or_nil (dpf_IgnoreExitCodes (dc_PodFailed d)) (dpf_IgnoreExitCodes (dc_PodFailed c))\<rparr>,
       dc_NodeNotReady := (dc_NodeNotReady c)
         \<lparr>dnr_Threshold := or_zero (dnr_Threshold (dc_NodeNotReady d)) (dnr_Threshold (dc_NodeNotReady c)),
          dnr_Cooldown := or_zero (dnr_Cooldown (dc_NodeNotReady d)) (dnr_Cooldown (dc_NodeNotReady c))\<rparr>,
       dc_PVCStuckBinding := (dc_PVCStuckBinding c)
         \<lparr>dsb_Threshold := or_zero (dsb_Threshold (dc_PVCStuckBinding d)) (dsb_Threshold (dc_PVCStuckBinding c)),
          dsb_Cooldown := or_zero (dsb_Cooldown (dc_PVCStuckBinding d)) (dsb_Cooldown (dc_PVCStuckBinding c))\<rparr>,
       dc_HighPodCount := (dc_HighPodCount c)
         \<lparr>dhp_Threshold := or_zero (dhp_Threshold (dc_HighPodCount d)) (dhp_Threshold (dc_HighPodCount c)),
          dhp_Cooldown := or_zero (dhp_Cooldown (dc_HighPodCount d)) (dhp_Cooldown (dc_HighPodCount c))\<rparr>,
       dc_JobDeadlineExceeded := (dc_JobDeadlineExceeded c)
         \<lparr>djd_Cooldown := or_zero (djd_Cooldown (dc_JobDeadlineExceeded d)) (djd_Cooldown (dc_JobDeadlineExceeded c))\<rparr>\<rparr>"

definition applyCorrelationRuleDefaults :: "CorrelationRulesConfig \<Rightarrow> CorrelationRulesConfig \<Rightarrow> CorrelationRulesConfig" where
  "applyCorrelationRuleDefaults c d =
     c\<lparr>crc_NodeCascade := (crc_NodeCascade c)
         \<lparr>rnc_MinPodFailures := or_zero (rnc_MinPodFailures (crc_NodeCascade d)) (rnc_MinPodFailures (crc_NodeCascade c))\<rparr>,
       crc_DeploymentRollout := (crc_DeploymentRollout c)
         \<lparr>rdr_MinPodFailures := or_zero (rdr_MinPodFailures (crc_DeploymentRollout d)) (rdr_MinPodFailures (crc_DeploymentRollout c))\<rparr>,
       crc_NamespaceStorm := (crc_NamespaceStorm c)
         \<lparr>rns_Threshold := or_zero (rns_Threshold (crc_NamespaceStorm d)) (rns_Threshold (crc_NamespaceStorm c))\<rparr>\<rparr>"

definition default_analyzer :: "AnalyzerConfig \<Rightarrow> AnalyzerConfig \<Rightarrow> AnalyzerConfig" where
  "default_analyzer d a =
     a\<lparr>ac_Backend := or_empty (ac_Backend d) (ac_Backend a),
       ac_RateLimiting := (ac_RateLimiting a)
         \<lparr>rlm_DailyTokenBudget := or_zero (rlm_DailyTokenBudget (ac_RateLimiting d)) (rlm_DailyTokenBudget (ac_RateLimiting a)),
          rlm_HourlyTokenBudget := or_zero (rlm_HourlyTokenBudget (ac_RateLimiting d)) (rlm_HourlyTokenBudget (ac_RateLimiting a))\<rparr>,
       ac_CircuitBreaker := (ac_CircuitBreaker a)
         \<lparr>cbs_ConsecutiveFailures := or_zero (cbs_ConsecutiveFailures (ac_CircuitBreaker d)) (cbs_ConsecutiveFailures (ac_CircuitBreaker a)),
          cbs_OpenDuration := or_zero (cbs_OpenDuration (ac_CircuitBreaker d)) (cbs_OpenDuration (ac_CircuitBreaker a))\<rparr>,
       ac_Claude := (ac_Claude a)\<lparr>llc_MaxTokens := or_zero (llc_MaxTokens (ac_Claude d)) (llc_MaxTokens (ac_Claude a))\<rparr>,
       ac_OpenAI := (ac_OpenAI a)\<lparr>llc_MaxTokens := or_zero (llc_MaxTokens (ac_OpenAI d)) (llc_MaxTokens (ac_OpenAI a))\<rparr>\<rparr>"

definition default_sinks :: "SinksConfig \<Rightarrow> SinksConfig \<Rightarrow> SinksConfig" where
  "default_sinks d s =
     s\<lparr>sc_Slack := (if ssc_Enabled (sc_Slack s)
         then (sc_Slack s)\<lparr>ssc_SeverityFilter := or_nil (ssc_SeverityFilter (sc_Slack d)) (ssc_SeverityFilter (sc_Slack s))\<rparr>
         else sc_Slack s),
       sc_PagerDuty := (if psc_Enabled (sc_PagerDuty s)
         then (sc_PagerDuty s)\<lparr>psc_SeverityFilter := or_nil (psc_SeverityFilter (sc_PagerDuty d)) (psc_SeverityFilter (sc_PagerDuty s))\<rparr>
         else sc_PagerDuty s),
       sc_S3 := (if s3c_Enabled (sc_S3 s)
         then (sc_S3 s)\<lparr>s3c_Prefix := or_empty (s3c_Prefix (sc_S3 d)) (s3c_Prefix (sc_S3 s))\<rparr> else sc_S3 s),
       sc_Webhook := (if wsc_Enabled (sc_Webhook s)
         then (sc_Webhook s)\<lparr>wsc_SeverityFilter := or_nil (wsc_SeverityFilter (sc_Webhook d)) (wsc_SeverityFilter (sc_Webhook s))\<rparr>
         else sc_Webhook s),
       sc_KubernetesEvent := (sc_KubernetesEvent s)
         \<lparr>kec_SeverityFilter := or_nil (kec_SeverityFilter (sc_KubernetesEvent d)) (kec_SeverityFilter (sc_KubernetesEvent s))\<rparr>\<rparr>"

definition ApplyDefaults :: "Config \<Rightarrow> Config" where
  "ApplyDefaults c =
     (let d = Default in
      c\<lparr>cfg_ReplicaCount := or_zero (cfg_ReplicaCount d) (cfg_ReplicaCount c),
        cfg_Resources := (cfg_Resources c)
          \<lparr>rs_Requests := default_resources (rs_Requests (cfg_Resources d)) (rs_Requests (cfg_Resources c)),
           rs_Limits := default_resources (rs_Limits (cfg_Resources d)) (rs_Limits (cfg_Resources c))\<rparr>,
        cfg_LeaderElection := default_leader (cfg_LeaderElection d) (cfg_LeaderElection c),
        cfg_Logging := (cfg_Logging c)
          \<lparr>lg_Level := or_empty (lg_Level (cfg_Logging d)) (lg_Level (cfg_Logging c)),
           lg_Format := or_empty (lg_Format (cfg_Logging d)) (lg_Format (cfg_Logging c))\<rparr>,
        cfg_Filters := (cfg_Filters c)
          \<lparr>fc_ExcludeNamespaces := or_nil (fc_ExcludeNamespaces (cfg_Filters d)) (fc_ExcludeNamespaces (cfg_Filters c))\<rparr>,
        cfg_Detectors := applyDetectorDefaults (cfg_Detectors c) (cfg_Detectors d),
        cfg_Correlation := (cfg_Correlation c)
          \<lparr>ccf_WindowDuration := or_zero (ccf_WindowDuration (cfg_Correlation d)) (ccf_WindowDuration (cfg_Correlation c)),
           ccf_Rules := applyCorrelationRuleDefaults (ccf_Rules (cfg_Correlation c)) (ccf_Rules (cfg_Correlation d))\<rparr>,
        cfg_Gatherers := (cfg_Gatherers c)
          \<lparr>gc_PodLogs := (gc_PodLogs (cfg_Gatherers c))
             \<lparr>gpl_TailLines := or_zero (gpl_TailLines (gc_PodLogs (cfg_Gatherers d))) (gpl_TailLines (gc_PodLogs (cfg_Gatherers c)))\<rparr>,
           gc_MaxAffectedResources := or_zero (gc_MaxAffectedResources (cfg_Gatherers d)) (gc_MaxAffectedResources (cfg_Gatherers c))\<rparr>,
        cfg_Analyzer := default_analyzer (cfg_Analyzer d) (cfg_Analyzer c),
        cfg_Workers := (cfg_Workers c)
          \<lparr>wk_Gathering := or_zero (wk_Gathering (cfg_Workers d)) (wk_Gathering (cfg_Workers c)),
           wk_Analysis := or_zero (wk_Analysis (cfg_Workers d)) (wk_Analysis (cfg_Workers c)),
           wk_Sink := or_zero (wk_Sink (cfg_Workers d)) (wk_Sink (cfg_Workers c))\<rparr>,
        cfg_Metrics := (cfg_Metrics c)
          \<lparr>mc_Port := or_zero (mc_Port (cfg_Metrics d)) (mc_Port (cfg_Metrics c)),
           mc_ServiceMonitor_Interval := or_zero (mc_ServiceMonitor_Interval (cfg_Metrics d)) (mc_ServiceMonitor_Interval (cfg_Metrics c))\<rparr>,
        cfg_HealthPort := or_zero (cfg_HealthPort d) (cfg_HealthPort c),
        cfg_ControllerTuning := (cfg_ControllerTuning c)
          \<lparr>ct_DetectorScanInterval := or_zero (ct_DetectorScanInterval (cfg_ControllerTuning d)) (ct_DetectorScanInterval (cfg_ControllerTuning c)),
           ct_ShardReconcileInterval := or_zero (ct_ShardReconcileInterval (cfg_ControllerTuning d)) (ct_ShardReconcileInterval (cfg_ControllerTuning c)),
           ct_InformerResyncPeriod := or_zero (ct_InformerResyncPeriod (cfg_ControllerTuning d)) (ct_InformerResyncPeriod (cfg_ControllerTuning c))\<rparr>,
        cfg_Sinks := default_sinks (cfg_Sinks d) (cfg_Sinks c)\<rparr>)"

section \<open>Validation\<close>

datatype config_error =
    InvalidLogLevel string
  | InvalidLogFormat string
  | FieldError string
  | PatternEmpty string nat
  | PatternInvalid string nat string
  | InvalidBackend string
  | InvalidSeverity string nat string
  | OpeningConfig string
  | LoadingConfig string
  | ValidationFailed config_error

text \<open>A sequence of \<open>if cond { return err }\<close>, and a sequence of calls whose first error is returned.\<close>

fun first_error :: "(bool \<times> config_error) list \<Rightarrow> config_error option" where
  "first_error [] = None"
| "first_error ((violated, e) # rest) = (if violated then Some e else first_error rest)"

fun first_some :: "config_error option list \<Rightarrow> config_error option" where
  "first_some [] = None"
| "first_some (r # rs) = (case r of Some e \<Rightarrow> Some e | None \<Rightarrow> first_some rs)"

datatype log_level = LevelDebug | LevelInfo | LevelWarn | LevelError

definition validLogLevels :: "(string \<times> log_level) list" where
  "validLogLevels = [(''debug'', LevelDebug), (''info'', LevelInfo), (''warn'', LevelWarn), (''error'', LevelError)]"

definition ParseLogLevel :: "string \<Rightarrow> config_error + log_level" where
  "ParseLogLevel s =
     (case map_of validLogLevels (map lower_char s) of None \<Rightarrow> Inl (InvalidLogLevel s) | Some l \<Rightarrow> Inr l)"

definition validateLogging :: "Config \<Rightarrow> config_error option" where
  "validateLogging c =
     (case ParseLogLevel (lg_Level (cfg_Logging c)) of
        Inl e \<Rightarrow> Some e
      | Inr _ \<Rightarrow>
          (let format = map lower_char (lg_Format (cfg_Logging c)) in
           if format \<noteq> ''json'' \<and> format \<noteq> ''text'' then Some (InvalidLogFormat (lg_Format (cfg_Logging c))) else None))"

definition validateLeaderElection :: "Config \<Rightarrow> config_error option" where
  "validateLeaderElection c =
     (let l = cfg_LeaderElection c in
      if \<not> le_Enabled l then None
      else first_error
        [(le_LeaseDuration l \<le> 0, FieldError ''leaderElection.leaseDuration''),
         (le_RenewDeadline l \<le> 0, FieldError ''leaderElection.renewDeadline''),
         (le_RetryPeriod l \<le> 0, FieldError ''leaderElection.retryPeriod''),
         (le_RenewDeadline l \<ge> le_LeaseDuration l, FieldError ''leaderElection.renewDeadline''),
         (le_RetryPeriod l \<ge> le_RenewDeadline l, FieldError ''leaderElection.retryPeriod'')])"

fun validate_patterns :: "(string \<Rightarrow> bool) \<Rightarrow> string \<Rightarrow> nat \<Rightarrow> string list \<Rightarrow> config_error option" where
  "validate_patterns compiles field i [] = None"
| "validate_patterns compiles field i (p # ps) =
     (if p = [] then Some (PatternEmpty field i)
      else if \<not> compiles p then Some (PatternInvalid field i p)
      else validate_patterns compiles field (i + 1) ps)"

definition slice :: "'a list option \<Rightarrow> 'a list" where
  "slice xs = (case xs of None \<Rightarrow> [] | Some ys \<Rightarrow> ys)"

definition validateFilters :: "(string \<Rightarrow> bool) \<Rightarrow> Config \<Rightarrow> config_error option" where
  "validateFilters compiles c =
     validate_patterns compiles ''filters.excludeNamespaces'' 0 (slice (fc_ExcludeNamespaces (cfg_Filters c)))"

definition validateDetectors :: "Config \<Rightarrow> config_error option" where
  "validateDetectors c =
     (let d = cfg_Detectors c in
      first_error
        [(dsp_Enabled (dc_PodStuckPending d) \<and> dsp_Threshold (dc_PodStuckPending d) \<le> 0, FieldError ''detectors.podStuckPending.threshold''),
         (dsp_Cooldown (dc_PodStuckPending d) < 0, FieldError ''detectors.podStuckPending.cooldown''),
         (dcl_Enabled (dc_PodCrashLoop d) \<and> dcl_Threshold (dc_PodCrashLoop d) < 1, FieldError ''detectors.podCrashLoop.threshold''),
         (dcl_Cooldown (dc_PodCrashLoop d) < 0, FieldError ''detectors.podCrashLoop.cooldown''),
         (dpf_Cooldown (dc_PodFailed d) < 0, FieldError ''detectors.podFailed.cooldown''),
         (dnr_Enabled (dc_NodeNotReady d) \<and> dnr_Threshold (dc_NodeNotReady d) \<le> 0, FieldError ''detectors.nodeNotReady.threshold''),
         (dnr_Cooldown (dc_NodeNotReady d) < 0, FieldError ''detectors.nodeNotReady.cooldown''),
         (dsb_Enabled (dc_PVCStuckBinding d) \<and> dsb_Threshold (dc_PVCStuckBinding d) \<le> 0, FieldError ''detectors.pvcStuckBinding.threshold''),
         (dsb_Cooldown (dc_PVCStuckBinding d) < 0, FieldError ''detectors.pvcStuckBinding.cooldown''),
         (dhp_Enabled (dc_HighPodCount d) \<and> dhp_Threshold (dc_HighPodCount d) < 1, FieldError ''detectors.highPodCount.threshold''),
         (dhp_Cooldown (dc_HighPodCount d) < 0, FieldError ''detectors.highPodCount.cooldown''),
         (djd_Cooldown (dc_JobDeadlineExceeded d) < 0, FieldError ''detectors.jobDeadlineExceeded.cooldown'')])"

definition validateCorrelation :: "Config \<Rightarrow> config_error option" where
  "validateCorrelation c =
     (let r = ccf_Rules (cfg_Correlation c) in
      if \<not> ccf_Enabled (cfg_Correlation c) then None
      else first_error
        [(ccf_WindowDuration (cfg_Correlation c) \<le> 0, FieldError ''correlation.windowDuration''),
         (rnc_Enabled (crc_NodeCascade r) \<and> rnc_MinPodFailures (crc_NodeCascade r) < 1, FieldError ''correlation.rules.nodeCascade.minPodFailures''),
         (rdr_Enabled (crc_DeploymentRollout r) \<and> rdr_MinPodFailures (crc_DeploymentRollout r) < 1, FieldError ''correlation.rules.deploymentRollout.minPodFailures''),
         (rns_Enabled (crc_NamespaceStorm r) \<and> rns_Threshold (crc_NamespaceStorm r) < 1, FieldError ''correlation.rules.namespaceStorm.threshold'')])"

definition validateGatherers :: "(string \<Rightarrow> bool) \<Rightarrow> Config \<Rightarrow> config_error option" where
  "validateGatherers compiles c =
     (let g = cfg_Gatherers c in
      first_some
        [first_error
          [(gpl_Enabled (gc_PodLogs g) \<and> gpl_TailLines (gc_PodLogs g) < 1, FieldError ''gatherers.podLogs.tailLines''),
           (gc_MaxAffectedResources g < 1, FieldError ''gatherers.superEvent.maxAffectedResources'')],
         validate_patterns compiles ''gatherers.podLogs.redactPatterns'' 0 (slice (gpl_RedactPatterns (gc_PodLogs g)))])"

definition validAnalyzerBackends :: "string list" where
  "validAnalyzerBackends = [''claude'', ''claude-bedrock'', ''openai'', ''azure-openai'', ''rules'', ''noop'']"

definition validate_backend :: "AnalyzerConfig \<Rightarrow> config_error option" where
  "validate_backend a =
     (if ac_Backend a = ''claude'' then first_error
        [(llc_MaxTokens (ac_Claude a) < 1, FieldError ''analyzer.claude.maxTokens''),
         (llc_Temperature (ac_Claude a) < 0 \<or> llc_Temperature (ac_Claude a) > 1, FieldError ''analyzer.claude.temperature'')]
      else if ac_Backend a = ''claude-bedrock'' then first_error
        [(cbc_Region (ac_ClaudeBedrock a) = [], FieldError ''analyzer.claudeBedrock.region''),
         (cbc_ModelID (ac_ClaudeBedrock a) = [], FieldError ''analyzer.claudeBedrock.modelId'')]
      else if ac_Backend a = ''openai'' then first_error
        [(llc_MaxTokens (ac_OpenAI a) < 1, FieldError ''analyzer.openai.maxTokens''),
         (llc_Temperature (ac_OpenAI a) < 0 \<or> llc_Temperature (ac_OpenAI a) > 1, FieldError ''analyzer.openai.temperature'')]
      else if ac_Backend a = ''azure-openai'' then first_error
        [(aoc_Endpoint (ac_AzureOpenAI a) = [], FieldError ''analyzer.azureOpenai.endpoint''),
         (aoc_DeploymentName (ac_AzureOpenAI a) = [], FieldError ''analyzer.azureOpenai.deploymentName'')]
      else None)"

definition validateAnalyzer :: "Config \<Rightarrow> config_error option" where
  "validateAnalyzer c =
     (let a = cfg_Analyzer c in
      first_some
        [first_error
          [(\<not> List.member validAnalyzerBackends (ac_Backend a), InvalidBackend (ac_Backend a)),
           (rlm_DailyTokenBudget (ac_RateLimiting a) < 0, FieldError ''analyzer.rateLimiting.dailyTokenBudget''),
           (rlm_HourlyTokenBudget (ac_RateLimiting a) < 0, FieldError ''analyzer.rateLimiting.hourlyTokenBudget''),
           (cbs_ConsecutiveFailures (ac_CircuitBreaker a) < 1, FieldError ''analyzer.circuitBreaker.consecutiveFailures''),
           (cbs_OpenDuration (ac_CircuitBreaker a) \<le> 0, FieldError ''analyzer.circuitBreaker.openDuration'')],
         validate_backend a])"

definition validSeverities :: "string list" where
  "validSeverities = [''critical'', ''warning'', ''info'']"

fun severity_filter_loop :: "string \<Rightarrow> nat \<Rightarrow> string list \<Rightarrow> config_error option" where
  "severity_filter_loop field i [] = None"
| "severity_filter_loop field i (v # vs) =
     (if \<not> List.member validSeverities v then Some (InvalidSeverity field i v) else severity_filter_loop field (i + 1) vs)"

definition validateSeverityFilter :: "string \<Rightarrow> string list option \<Rightarrow> config_error option" where
  "validateSeverityFilter field values = severity_filter_loop field 0 (slice values)"

definition validateSinks :: "Config \<Rightarrow> config_error option" where
  "validateSinks c =
     (let s = cfg_Sinks c in
      first_some
        [validateSeverityFilter ''sinks.slack.severityFilter'' (ssc_SeverityFilter (sc_Slack s)),
         validateSeverityFilter ''sinks.pagerduty.severityFilter'' (psc_SeverityFilter (sc_PagerDuty s)),
         validateSeverityFilter ''sinks.webhook.severityFilter'' (wsc_SeverityFilter (sc_Webhook s)),
         validateSeverityFilter ''sinks.kubernetesEvent.severityFilter'' (kec_SeverityFilter (sc_KubernetesEvent s)),
         first_error
          [(s3c_Enabled (sc_S3 s) \<and> s3c_Bucket (sc_S3 s) = [], FieldError ''sinks.s3.bucket''),
           (s3c_Enabled (sc_S3 s) \<and> s3c_Region (sc_S3 s) = [], FieldError ''sinks.s3.region''),
           (wsc_Enabled (sc_Webhook s) \<and> wsc_URL (sc_Webhook s) = [], FieldError ''sinks.webhook.url'')]])"

definition validatePipeline :: "Config \<Rightarrow> config_error option" where
  "validatePipeline c = first_error
     [(wk_Gathering (cfg_Workers c) < 1, FieldError ''pipeline.workers.gathering''),
      (wk_Analysis (cfg_Workers c) < 1, FieldError ''pipeline.workers.analysis''),
      (wk_Sink (cfg_Workers c) < 1, FieldError ''pipeline.workers.sink'')]"

definition validateMetrics :: "Config \<Rightarrow> config_error option" where
  "validateMetrics c = first_error
     [(mc_Port (cfg_Metrics c) < 1 \<or> mc_Port (cfg_Metrics c) > 65535, FieldError ''metrics.port''),
      (mc_ServiceMonitor_Enabled (cfg_Metrics c) \<and> mc_ServiceMonitor_Interval (cfg_Metrics c) \<le> 0,
       FieldError ''metrics.serviceMonitor.interval'')]"

definition validateHealth :: "Config \<Rightarrow> config_error option" where
  "validateHealth c = first_error
     [(cfg_HealthPort c < 1 \<or> cfg_HealthPort c > 65535, FieldError ''health.port''),
      (cfg_HealthPort c = mc_Port (cfg_Metrics c), FieldError ''health.port'')]"

definition validateControllerTuning :: "Config \<Rightarrow> config_error option" where
  "validateControllerTuning c = first_error
     [(ct_DetectorScanInterval (cfg_ControllerTuning c) \<le> 0, FieldError ''controllerTuning.detectorScanInterval''),
      (ct_ShardReconcileInterval (cfg_ControllerTuning c) \<le> 0, FieldError ''controllerTuning.shardReconcileInterval''),
      (ct_InformerResyncPeriod (cfg_ControllerTuning c) \<le> 0, FieldError ''controllerTuning.informerResyncPeriod'')]"

definition Validate :: "(string \<Rightarrow> bool) \<Rightarrow> Config \<Rightarrow> config_error option" where
  "Validate compiles c = first_some
     [validateLogging c, validateLeaderElection c, validateFilters compiles c, validateDetectors c,
      validateCorrelation c, validateGatherers compiles c, validateAnalyzer c, validateSinks c, validatePipeline c,
      validateMetrics c, validateHealth c, validateControllerTuning c]"

section \<open>Loading\<close>

datatype config_file = FileMissing | FileUnreadable string | FileContent string

definition Load :: "(string \<Rightarrow> string + Config) \<Rightarrow> string \<Rightarrow> string + Config" where
  "Load decode content = decode content"

definition LoadFromFile :: "(string \<Rightarrow> string + Config) \<Rightarrow> config_file \<Rightarrow> config_error + Config" where
  "LoadFromFile decode f =
     (case f of
        FileMissing \<Rightarrow> Inr Default
      | FileUnreadable err \<Rightarrow> Inl (OpeningConfig err)
      | FileContent content \<Rightarrow>
          (case Load decode content of Inl err \<Rightarrow> Inl (LoadingConfig err) | Inr c \<Rightarrow> Inr c))"

definition LoadAndValidate ::
    "(string \<Rightarrow> string + Config) \<Rightarrow> (string \<Rightarrow> bool) \<Rightarrow> config_file \<Rightarrow> config_error + Config" where
  "LoadAndValidate decode compiles f =
     (case LoadFromFile decode f of
        Inl e \<Rightarrow> Inl e
      | Inr cfg \<Rightarrow>
          (let c = ApplyDefaults cfg in
           case Validate compiles c of Some e \<Rightarrow> Inl (ValidationFailed e) | None \<Rightarrow> Inr c))"

section \<open>What the defaults do\<close>

lemma or_idem [simp]:
  "or_zero d (or_zero d x) = or_zero d x" "or_empty e (or_empty e y) = or_empty e y" "or_nil n (or_nil n z) = or_nil n z"
  by (auto simp: or_zero_def or_empty_def or_nil_def split: option.split)

lemma or_same [simp]: "or_zero d d = d" "or_empty e e = e" "or_nil n n = n"
  by (simp_all add: or_zero_def or_empty_def or_nil_def split: option.split)

lemma default_leader_eq:
  "default_leader d l = l\<lparr>le_LeaseDuration := or_zero (le_LeaseDuration d) (le_LeaseDuration l),
     le_RenewDeadline := or_zero (le_RenewDeadline d) (le_RenewDeadline l),
     le_RetryPeriod := or_zero (le_RetryPeriod d) (le_RetryPeriod l)\<rparr>"
  by (cases l) (simp add: default_leader_def or_zero_def Let_def)

lemma default_parts_idem [simp]:
  "default_resources d1 (default_resources d1 r) = default_resources d1 r"
  "default_leader d2 (default_leader d2 l) = default_leader d2 l"
  "applyDetectorDefaults (applyDetectorDefaults x d3) d3 = applyDetectorDefaults x d3"
  "applyCorrelationRuleDefaults (applyCorrelationRuleDefaults y d4) d4 = applyCorrelationRuleDefaults y d4"
  "default_analyzer d5 (default_analyzer d5 a) = default_analyzer d5 a"
  "default_sinks d6 (default_sinks d6 s) = default_sinks d6 s"
  by (simp_all add: default_resources_def default_leader_eq applyDetectorDefaults_def applyCorrelationRuleDefaults_def
      default_analyzer_def default_sinks_def)

lemma apply_defaults_default: "ApplyDefaults Default = Default"
  unfolding ApplyDefaults_def Let_def
  by (simp add: Default_def default_resources_def default_leader_eq applyDetectorDefaults_def
      applyCorrelationRuleDefaults_def default_analyzer_def default_sinks_def)

text \<open>
  The defaults are applied once and for all: applying them again changes nothing, and they leave the
  default configuration alone.
\<close>

theorem apply_defaults_idempotent:
  "ApplyDefaults (ApplyDefaults c) = ApplyDefaults c \<and> ApplyDefaults Default = Default"
  using apply_defaults_default unfolding ApplyDefaults_def Let_def by simp

section \<open>What a loaded configuration satisfies\<close>

lemma first_error_None: "first_error cs = None \<longleftrightarrow> (\<forall>(v, e) \<in> set cs. \<not> v)"
  by (induction cs rule: first_error.induct) auto

lemma first_some_None: "first_some rs = None \<longleftrightarrow> (\<forall>r \<in> set rs. r = None)"
  by (induction rs rule: first_some.induct) (auto split: option.split)

lemma validate_patterns_None: "validate_patterns compiles f i ps = None \<longleftrightarrow> (\<forall>p \<in> set ps. p \<noteq> [] \<and> compiles p)"
  by (induction compiles f i ps rule: validate_patterns.induct) auto

lemma severity_filter_None: "severity_filter_loop f i vs = None \<longleftrightarrow> set vs \<subseteq> set validSeverities"
  by (induction f i vs rule: severity_filter_loop.induct) auto

lemma first_error_Cons: "first_error ((v, e) # cs) = None \<longleftrightarrow> \<not> v \<and> first_error cs = None"
  by simp

lemma first_some_Cons: "first_some (r # rs) = None \<longleftrightarrow> r = None \<and> first_some rs = None"
  by (simp split: option.split)

lemmas first_None = first_error_Cons first_some_Cons first_error.simps(1) first_some.simps(1) not_le not_less
  de_Morgan_disj not_not validate_patterns_None severity_filter_None

lemmas validator_defs = validateLogging_def validateLeaderElection_def
  validateFilters_def validateDetectors_def validateCorrelation_def validateGatherers_def validateAnalyzer_def
  validateSinks_def validatePipeline_def validateMetrics_def validateHealth_def validateControllerTuning_def
  validateSeverityFilter_def

lemma Validate_None:
  assumes "Validate compiles c = None"
  shows "validateLeaderElection c = None" "validateFilters compiles c = None" "validateCorrelation c = None"
    "validateAnalyzer c = None" "validateSinks c = None" "validatePipeline c = None"
    "validateMetrics c = None" "validateHealth c = None" "validateControllerTuning c = None"
  using assms by (simp_all only: Validate_def first_None)

lemma valid_tuning:
  assumes "Validate compiles c = None"
  shows "0 < ct_DetectorScanInterval (cfg_ControllerTuning c)" "0 < ct_ShardReconcileInterval (cfg_ControllerTuning c)"
    "0 < ct_InformerResyncPeriod (cfg_ControllerTuning c)"
  using Validate_None(9) [OF assms] by (simp_all only: validateControllerTuning_def first_None)

lemma valid_workers:
  assumes "Validate compiles c = None"
  shows "1 \<le> wk_Gathering (cfg_Workers c)" "1 \<le> wk_Analysis (cfg_Workers c)" "1 \<le> wk_Sink (cfg_Workers c)"
  using Validate_None(6) [OF assms] by (simp_all only: validatePipeline_def first_None)

lemma valid_ports:
  assumes "Validate compiles c = None"
  shows "cfg_HealthPort c \<in> {1..65535} - {mc_Port (cfg_Metrics c)}" "mc_Port (cfg_Metrics c) \<in> {1..65535}"
  using Validate_None(7,8) [OF assms] by (simp_all only: validateMetrics_def validateHealth_def first_None) auto

lemma valid_filters:
  assumes "Validate compiles c = None"
  shows "\<forall>p \<in> set (slice (fc_ExcludeNamespaces (cfg_Filters c))). p \<noteq> [] \<and> compiles p"
  using Validate_None(2) [OF assms] by (simp only: validateFilters_def first_None)

lemma valid_severities:
  assumes "Validate compiles c = None"
  shows "set (slice (kec_SeverityFilter (sc_KubernetesEvent (cfg_Sinks c)))) \<subseteq> set validSeverities"
  using Validate_None(5) [OF assms] by (simp only: validateSinks_def validateSeverityFilter_def Let_def first_None)

lemma valid_analyzer:
  assumes "Validate compiles c = None"
  shows "ac_Backend (cfg_Analyzer c) \<in> set validAnalyzerBackends"
    "0 \<le> rlm_DailyTokenBudget (ac_RateLimiting (cfg_Analyzer c))"
    "0 \<le> rlm_HourlyTokenBudget (ac_RateLimiting (cfg_Analyzer c))"
  using Validate_None(4) [OF assms] by (simp_all only: validateAnalyzer_def Let_def first_None List.member_iff)

lemma valid_leader:
  assumes "Validate compiles c = None" "le_Enabled (cfg_LeaderElection c)"
  shows "0 < le_RetryPeriod (cfg_LeaderElection c)"
    "le_RetryPeriod (cfg_LeaderElection c) < le_RenewDeadline (cfg_LeaderElection c)"
    "le_RenewDeadline (cfg_LeaderElection c) < le_LeaseDuration (cfg_LeaderElection c)"
  using Validate_None(1) [OF assms(1)] assms(2)
  by (simp_all only: validateLeaderElection_def Let_def if_False if_True not_True_eq_False first_None)

lemma valid_correlation:
  assumes "Validate compiles c = None" "ccf_Enabled (cfg_Correlation c)"
  shows "0 < ccf_WindowDuration (cfg_Correlation c)"
  using Validate_None(3) [OF assms(1)] assms(2)
  by (simp only: validateCorrelation_def Let_def if_False if_True not_True_eq_False first_None)

lemma LoadAndValidate_Inr:
  "LoadAndValidate decode compiles f = Inr c \<Longrightarrow> Validate compiles c = None \<and> (\<exists>c0. c = ApplyDefaults c0)"
  by (auto simp: LoadAndValidate_def Let_def split: sum.splits option.splits)

lemma default_validates:
  assumes "\<forall>p \<in> {''kube-system'', ''kube-public'', ''kube-node-lease''}. compiles p"
  shows "Validate compiles Default = None"
  using assms
  by (simp add: Validate_def validator_defs Default_def ParseLogLevel_def validLogLevels_def slice_def
      validAnalyzerBackends_def validSeverities_def validate_backend_def duration_defs lower_char_def Let_def)

text \<open>
  Without a configuration file the controller starts with the default configuration, which is valid.
\<close>

theorem missing_file_gives_default:
  assumes "\<forall>p \<in> {''kube-system'', ''kube-public'', ''kube-node-lease''}. compiles p"
  shows "LoadAndValidate decode compiles FileMissing = Inr Default"
  using apply_defaults_default default_validates [OF assms]
  by (simp add: LoadAndValidate_def LoadFromFile_def)

lemma missing_file_gives_default_witness:
  "LoadAndValidate (\<lambda>_. Inl []) (\<lambda>p. p \<noteq> []) FileMissing = Inr Default"
  by (rule missing_file_gives_default) simp

text \<open>
  C18. A configuration that was loaded has positive intervals and at least one worker per stage, distinct ports
  in range, only compilable non-empty patterns and known severities and a known backend, and consistent lease times
  if leader election is enabled. Both token budgets are positive, so the documented way to switch a
  limit off, a budget of zero, cannot be configured.
\<close>

theorem loaded_config_sound:
  assumes "LoadAndValidate decode compiles f = Inr c"
  shows "0 < ct_DetectorScanInterval (cfg_ControllerTuning c) \<and> 0 < ct_ShardReconcileInterval (cfg_ControllerTuning c) \<and>
    0 < ct_InformerResyncPeriod (cfg_ControllerTuning c) \<and>
    1 \<le> wk_Gathering (cfg_Workers c) \<and> 1 \<le> wk_Analysis (cfg_Workers c) \<and> 1 \<le> wk_Sink (cfg_Workers c) \<and>
    cfg_HealthPort c \<in> {1..65535} - {mc_Port (cfg_Metrics c)} \<and> mc_Port (cfg_Metrics c) \<in> {1..65535} \<and>
    (\<forall>p \<in> set (slice (fc_ExcludeNamespaces (cfg_Filters c))). p \<noteq> [] \<and> compiles p) \<and>
    set (slice (kec_SeverityFilter (sc_KubernetesEvent (cfg_Sinks c)))) \<subseteq> set validSeverities \<and>
    ac_Backend (cfg_Analyzer c) \<in> set validAnalyzerBackends \<and>
    (le_Enabled (cfg_LeaderElection c) \<longrightarrow>
       0 < le_RetryPeriod (cfg_LeaderElection c) \<and>
       le_RetryPeriod (cfg_LeaderElection c) < le_RenewDeadline (cfg_LeaderElection c) \<and>
       le_RenewDeadline (cfg_LeaderElection c) < le_LeaseDuration (cfg_LeaderElection c)) \<and>
    0 < rlm_DailyTokenBudget (ac_RateLimiting (cfg_Analyzer c)) \<and>
    0 < rlm_HourlyTokenBudget (ac_RateLimiting (cfg_Analyzer c))"
proof -
  obtain c0 where v: "Validate compiles c = None" and c: "c = ApplyDefaults c0"
    using LoadAndValidate_Inr [OF assms] by blast
  have b: "rlm_DailyTokenBudget (ac_RateLimiting (cfg_Analyzer c)) \<noteq> 0"
    "rlm_HourlyTokenBudget (ac_RateLimiting (cfg_Analyzer c)) \<noteq> 0"
    unfolding c by (simp_all add: ApplyDefaults_def Let_def default_analyzer_def or_zero_def Default_def)
  show ?thesis
    using valid_tuning [OF v] valid_workers [OF v] valid_ports [OF v] valid_filters [OF v] valid_severities [OF v]
      valid_analyzer [OF v] valid_leader [OF v] b
    by (simp del: Diff_iff)
qed

lemma loaded_config_sound_witness:
  "cfg_HealthPort Default \<in> {1..65535} - {mc_Port (cfg_Metrics Default)} \<and>
   le_RetryPeriod (cfg_LeaderElection Default) < le_RenewDeadline (cfg_LeaderElection Default) \<and>
   0 < rlm_DailyTokenBudget (ac_RateLimiting (cfg_Analyzer Default))"
proof -
  have "LoadAndValidate (\<lambda>_. Inl []) (\<lambda>p. p \<noteq> []) FileMissing = Inr Default"
    using default_validates [of "\<lambda>p. p \<noteq> []"]
    by (simp add: LoadAndValidate_def LoadFromFile_def apply_defaults_default)
  moreover have "le_Enabled (cfg_LeaderElection Default)" by (simp add: Default_def)
  ultimately show ?thesis using loaded_config_sound [of "\<lambda>_. Inl []" "\<lambda>p. p \<noteq> []" FileMissing Default] by blast
qed

text \<open>
  The defaults never switch anything on: every \<open>enabled\<close> flag is the one of the file. A file that does not
  mention them has no detector, no correlation and no leader election, unlike the default configuration.
\<close>

theorem switches_not_defaulted:
  "let d = cfg_Detectors (ApplyDefaults c); d0 = cfg_Detectors c in
     dsp_Enabled (dc_PodStuckPending d) = dsp_Enabled (dc_PodStuckPending d0) \<and>
     dcl_Enabled (dc_PodCrashLoop d) = dcl_Enabled (dc_PodCrashLoop d0) \<and>
     dpf_Enabled (dc_PodFailed d) = dpf_Enabled (dc_PodFailed d0) \<and>
     dnr_Enabled (dc_NodeNotReady d) = dnr_Enabled (dc_NodeNotReady d0) \<and>
     dsb_Enabled (dc_PVCStuckBinding d) = dsb_Enabled (dc_PVCStuckBinding d0) \<and>
     djd_Enabled (dc_JobDeadlineExceeded d) = djd_Enabled (dc_JobDeadlineExceeded d0) \<and>
     ccf_Enabled (cfg_Correlation (ApplyDefaults c)) = ccf_Enabled (cfg_Correlation c) \<and>
     le_Enabled (cfg_LeaderElection (ApplyDefaults c)) = le_Enabled (cfg_LeaderElection c)"
  by (simp add: ApplyDefaults_def applyDetectorDefaults_def default_leader_eq Let_def)

end
