(* ===== verification/Informer_Manager.thy ===== *)
theory Informer_Manager
  imports Shard_Manager
begin

text \<open>
  The informer manager (\<open>internal/shard/informer_manager.go\<close>) keeps one informer factory per assigned
  namespace, and the replica watcher (\<open>internal/shard/replica_watcher.go\<close>) counts the replicas' leases. The
  factories are client-go objects: what the model knows of them is the sequence of calls the program makes on
  them. Factories and contexts are numbered as they are created, so a call names the factory and the stop
  channel it is given.

  The step relation \<open>watch_step\<close> interleaves the goroutines that apply shard maps: \<open>applyShardMap\<close> updates the
  assignment under the lock and runs the callbacks after it has released it.
\<close>

section \<open>State\<close>

datatype resource_kind = PodInformer | JobInformer | PVCInformer

datatype informer_call =
    NewFactory nat string
  | NewMetadataFactory nat string
  | StartFactory nat nat
  | CancelContext nat
  | AddEventHandler nat resource_kind

record client_go =
  go_next :: nat
  go_calls :: "informer_call list"

record namespaceInformerEntry =
  nie_factory :: nat
  nie_metadataFactory :: "nat option"
  nie_cancel :: nat

record InformerManager =
  im_metadataClient :: bool
  im_resyncPeriod :: duration
  im_factories :: "(string \<times> namespaceInformerEntry) list"
  im_stopped :: bool

definition NewInformerManager :: "bool \<Rightarrow> bool \<Rightarrow> duration option \<Rightarrow> string + InformerManager" where
  "NewInformerManager clientset_nil metadata resync =
     (if clientset_nil then Inl ''clientset''
      else Inr \<lparr>im_metadataClient = metadata,
        im_resyncPeriod = (case resync of None \<Rightarrow> 30 * minute | Some d \<Rightarrow> d),
        im_factories = [], im_stopped = False\<rparr>)"

section \<open>Operations\<close>

definition do_calls :: "informer_call list \<Rightarrow> client_go \<Rightarrow> client_go" where
  "do_calls cs w = w\<lparr>go_calls := go_calls w @ cs\<rparr>"

definition startFactory :: "string \<Rightarrow> InformerManager \<times> client_go \<Rightarrow> InformerManager \<times> client_go" where
  "startFactory namespace s =
     (case s of (im, w) \<Rightarrow>
        let factory = go_next w; ctx = go_next w + 1;
            w1 = do_calls [NewFactory factory namespace, StartFactory factory ctx] (w\<lparr>go_next := go_next w + 2\<rparr>);
            meta = go_next w1;
            w2 = (if im_metadataClient im
                  then do_calls [NewMetadataFactory meta namespace, StartFactory meta ctx] (w1\<lparr>go_next := go_next w1 + 1\<rparr>)
                  else w1);
            entry = \<lparr>nie_factory = factory, nie_metadataFactory = (if im_metadataClient im then Some meta else None),
                     nie_cancel = ctx\<rparr>
        in (im\<lparr>im_factories := map_put namespace entry (im_factories im)\<rparr>, w2))"

fun remove_loop :: "string list \<Rightarrow> InformerManager \<times> client_go \<Rightarrow> InformerManager \<times> client_go" where
  "remove_loop [] s = s"
| "remove_loop (ns # nss) (im, w) =
     (case map_of (im_factories im) ns of
        None \<Rightarrow> remove_loop nss (im, w)
      | Some entry \<Rightarrow>
          remove_loop nss (im\<lparr>im_factories := map_delete ns (im_factories im)\<rparr>, do_calls [CancelContext (nie_cancel entry)] w))"

fun add_loop :: "string list \<Rightarrow> InformerManager \<times> client_go \<Rightarrow> InformerManager \<times> client_go" where
  "add_loop [] s = s"
| "add_loop (ns # nss) (im, w) =
     (if has_key (im_factories im) ns then add_loop nss (im, w) else add_loop nss (startFactory ns (im, w)))"

definition HandleShardChange :: "string list \<Rightarrow> string list \<Rightarrow> InformerManager \<times> client_go \<Rightarrow> InformerManager \<times> client_go" where
  "HandleShardChange added removed s = (if im_stopped (fst s) then s else add_loop added (remove_loop removed s))"

definition GetInformerFactory :: "InformerManager \<Rightarrow> string \<Rightarrow> nat option" where
  "GetInformerFactory im namespace = map_option nie_factory (map_of (im_factories im) namespace)"

definition GetMetadataFactory :: "InformerManager \<Rightarrow> string \<Rightarrow> nat option" where
  "GetMetadataFactory im namespace =
     (case map_of (im_factories im) namespace of None \<Rightarrow> None | Some entry \<Rightarrow> nie_metadataFactory entry)"

definition InformerNamespaces :: "(string list \<Rightarrow> string list) \<Rightarrow> InformerManager \<Rightarrow> string list" where
  "InformerNamespaces ord im = map fst (range_map ord (im_factories im))"

text \<open>\<open>synced\<close> is the answer of \<open>WaitForCacheSync\<close> of a factory: an entry per informer.\<close>

definition WaitForCacheSync :: "(nat \<Rightarrow> (string \<times> bool) list) \<Rightarrow> InformerManager \<Rightarrow> bool" where
  "WaitForCacheSync synced im = list_all (\<lambda>(ns, entry). list_all snd (synced (nie_factory entry))) (im_factories im)"

definition StopInformers :: "(string list \<Rightarrow> string list) \<Rightarrow> InformerManager \<times> client_go \<Rightarrow> InformerManager \<times> client_go" where
  "StopInformers ord s =
     (case s of (im, w) \<Rightarrow>
        (im\<lparr>im_stopped := True, im_factories := []\<rparr>,
         do_calls (map (\<lambda>(ns, entry). CancelContext (nie_cancel entry)) (range_map ord (im_factories im))) w))"

section \<open>The replica watcher\<close>

record Lease =
  lease_Name :: string
  lease_RenewTime :: "gotime option"

definition leaseExpirationThreshold :: duration where
  "leaseExpirationThreshold = 45 * second"

definition NewReplicaWatcher :: "bool \<Rightarrow> string \<Rightarrow> bool \<Rightarrow> string option" where
  "NewReplicaWatcher clientset_nil controllerNamespace manager_nil =
     (if clientset_nil then Some ''clientset''
      else if controllerNamespace = [] then Some ''controllerNamespace''
      else if manager_nil then Some ''manager'' else None)"

fun countActiveReplicas :: "gotime \<Rightarrow> Lease list \<Rightarrow> int" where
  "countActiveReplicas now [] = 0"
| "countActiveReplicas now (lease # leases) =
     (if \<not> has_prefix (lease_Name lease) ''wormsign-'' then countActiveReplicas now leases
      else if lease_Name lease = ''wormsign-leader'' then countActiveReplicas now leases
      else case lease_RenewTime lease of
          None \<Rightarrow> countActiveReplicas now leases
        | Some t \<Rightarrow>
            if time_Sub now t \<le> leaseExpirationThreshold then countActiveReplicas now leases + 1
            else countActiveReplicas now leases)"

definition checkReplicas :: "string + Lease list \<Rightarrow> gotime \<Rightarrow> Manager \<Rightarrow> string + Manager" where
  "checkReplicas leases now m =
     (case leases of
        Inl e \<Rightarrow> Inl e
      | Inr items \<Rightarrow>
          (let count = countActiveReplicas now items;
               activeCount = (if count < 1 then 1 else count)
           in Inr (if activeCount \<noteq> mgr_numReplicas m then SetNumReplicas m activeCount else m)))"

text \<open>The watcher's loop: a check at once and on every tick, errors only logged.\<close>

fun RunReplicaWatcher :: "((string + Lease list) \<times> gotime) list \<Rightarrow> Manager \<Rightarrow> Manager" where
  "RunReplicaWatcher [] m = m"
| "RunReplicaWatcher ((leases, now) # ticks) m =
     RunReplicaWatcher ticks (case checkReplicas leases now m of Inl _ \<Rightarrow> m | Inr m' \<Rightarrow> m')"

section \<open>The watched namespaces\<close>

definition watched :: "InformerManager \<Rightarrow> string set" where
  "watched im = dom (map_of (im_factories im))"

lemma startFactory_simps [simp]:
  "watched (fst (startFactory ns s)) = insert ns (watched (fst s))"
  "im_stopped (fst (startFactory ns s)) = im_stopped (fst s)"
  "im_metadataClient (fst (startFactory ns s)) = im_metadataClient (fst s)"
  by (cases s, simp add: startFactory_def watched_def Let_def)+

lemma remove_loop_simps [simp]:
  "watched (fst (remove_loop nss s)) = watched (fst s) - set nss"
  "im_stopped (fst (remove_loop nss s)) = im_stopped (fst s)"
  by (induction nss s rule: remove_loop.induct) (auto simp: watched_def split: option.split)

lemma has_key_watched: "has_key (im_factories im) ns \<longleftrightarrow> ns \<in> watched im"
  by (auto simp: watched_def)

lemma add_loop_watched [simp]: "watched (fst (add_loop nss s)) = watched (fst s) \<union> set nss"
  by (induction nss s rule: add_loop.induct) (auto simp: has_key_watched simp del: not_None_eq)

lemma add_loop_stopped [simp]: "im_stopped (fst (add_loop nss s)) = im_stopped (fst s)"
  by (induction nss s rule: add_loop.induct) simp_all

lemma HandleShardChange_simps [simp]:
  "im_stopped (fst (HandleShardChange added removed s)) = im_stopped (fst s)"
  "\<not> im_stopped (fst s) \<Longrightarrow>
     watched (fst (HandleShardChange added removed s)) = watched (fst s) - set removed \<union> set added"
  by (simp_all add: HandleShardChange_def)

section \<open>Applying shard maps concurrently\<close>

record watch_state =
  wt_manager :: Manager
  wt_informers :: "InformerManager \<times> client_go"
  wt_gauge :: nat
  wt_pending :: "(nat \<times> shard_effect list) list"

text \<open>The informer manager is the callback with number 0.\<close>

fun run_effect :: "shard_effect \<Rightarrow> watch_state \<Rightarrow> watch_state" where
  "run_effect (SetShardNamespaces n) s = s\<lparr>wt_gauge := n\<rparr>"
| "run_effect (ShardChange cb added removed) s =
     (if cb = 0 then s\<lparr>wt_informers := HandleShardChange added removed (wt_informers s)\<rparr> else s)"

text \<open>
  A step of one of \<open>n\<close> goroutines: an idle one applies a shard map to the manager, which leaves it with the gauge
  to set and the callbacks to run; a busy one performs the next of these.
\<close>

inductive watch_step :: "nat \<Rightarrow> watch_state \<Rightarrow> watch_state \<Rightarrow> bool" for n where
  apply_map: "t < n \<Longrightarrow> t \<notin> fst ` set (wt_pending s) \<Longrightarrow> applyShardMap (wt_manager s) sm = (m, effs) \<Longrightarrow>
    watch_step n s (s\<lparr>wt_manager := m, wt_pending := (t, effs) # wt_pending s\<rparr>)"
| run_next: "wt_pending s = xs @ (t, eff # effs) # ys \<Longrightarrow>
    watch_step n s ((run_effect eff s)\<lparr>wt_pending := xs @ (if effs = [] then [] else [(t, effs)]) @ ys\<rparr>)"

definition watch_init :: "Manager \<Rightarrow> InformerManager \<Rightarrow> client_go \<Rightarrow> watch_state" where
  "watch_init m im w = \<lparr>wt_manager = m, wt_informers = (im, w), wt_gauge = 0, wt_pending = []\<rparr>"

abbreviation watch_reaches :: "nat \<Rightarrow> watch_state \<Rightarrow> watch_state \<Rightarrow> bool" where
  "watch_reaches n \<equiv> (watch_step n)\<^sup>*\<^sup>*"

section \<open>One goroutine keeps them in step\<close>

fun watched_after :: "string set \<Rightarrow> shard_effect list \<Rightarrow> string set" where
  "watched_after W [] = W"
| "watched_after W (SetShardNamespaces _ # es) = watched_after W es"
| "watched_after W (ShardChange cb added removed # es) =
     watched_after (if cb = 0 then W - set removed \<union> set added else W) es"

definition follows :: "watch_state \<Rightarrow> bool" where
  "follows s \<longleftrightarrow> mgr_callbacks (wt_manager s) = [0] \<and> \<not> im_stopped (fst (wt_informers s)) \<and>
     (wt_pending s = [] \<and> watched (fst (wt_informers s)) = set (mgr_assignedNamespaces (wt_manager s)) \<or>
      (\<exists>effs. wt_pending s = [(0, effs)] \<and> effs \<noteq> [] \<and>
         watched_after (watched (fst (wt_informers s))) effs = set (mgr_assignedNamespaces (wt_manager s))))"

lemma applyShardMap_effects:
  obtains added removed where
    "snd (applyShardMap m sm) = SetShardNamespaces (length (mgr_assignedNamespaces (fst (applyShardMap m sm)))) #
       (if added = [] \<and> removed = [] then [] else map (\<lambda>cb. ShardChange cb added removed) (mgr_callbacks m))"
    "set added = set (mgr_assignedNamespaces (fst (applyShardMap m sm))) - set (mgr_assignedNamespaces m)"
    "set removed = set (mgr_assignedNamespaces m) - set (mgr_assignedNamespaces (fst (applyShardMap m sm)))"
proof -
  let ?new = "remdups (map_get (sm_Assignments sm) [] (mgr_replicaID m))" and ?old = "mgr_assignedNamespaces m"
  let ?added = "sort (filter (\<lambda>ns. \<not> List.member ?old ns) ?new)"
  let ?removed = "sort (filter (\<lambda>ns. \<not> List.member ?new ns) ?old)"
  have "snd (applyShardMap m sm) = SetShardNamespaces (length ?new) #
      (if ?added = [] \<and> ?removed = [] then [] else map (\<lambda>cb. ShardChange cb ?added ?removed) (mgr_callbacks m))"
    unfolding applyShardMap_def map_get_def [symmetric] Let_def length_0_conv by (simp only: snd_conv split: if_split) blast
  then show ?thesis by (rule that [of ?added ?removed, unfolded applyShardMap_fields]) auto
qed

lemma applyShardMap_removes:
  assumes "ShardChange cb added removed \<in> set (snd (applyShardMap m sm))"
  shows "set removed \<subseteq> set (mgr_assignedNamespaces m)"
proof -
  obtain a r where e: "snd (applyShardMap m sm) =
      SetShardNamespaces (length (mgr_assignedNamespaces (fst (applyShardMap m sm)))) #
       (if a = [] \<and> r = [] then [] else map (\<lambda>cb. ShardChange cb a r) (mgr_callbacks m))"
    "set a = set (mgr_assignedNamespaces (fst (applyShardMap m sm))) - set (mgr_assignedNamespaces m)"
    "set r = set (mgr_assignedNamespaces m) - set (mgr_assignedNamespaces (fst (applyShardMap m sm)))"
    by (rule applyShardMap_effects [of m sm])
  have "removed = r" using assms unfolding e(1) by (cases "a = [] \<and> r = []") auto
  then show ?thesis using e(3) by blast
qed

lemma applyShardMap_watched:
  assumes "mgr_callbacks m = [0]"
  shows "watched_after (set (mgr_assignedNamespaces m)) (snd (applyShardMap m sm)) =
      set (mgr_assignedNamespaces (fst (applyShardMap m sm)))"
    "snd (applyShardMap m sm) \<noteq> []" "mgr_callbacks (fst (applyShardMap m sm)) = mgr_callbacks m"
proof -
  obtain added removed where e: "snd (applyShardMap m sm) =
      SetShardNamespaces (length (mgr_assignedNamespaces (fst (applyShardMap m sm)))) #
       (if added = [] \<and> removed = [] then [] else map (\<lambda>cb. ShardChange cb added removed) (mgr_callbacks m))"
    "set added = set (mgr_assignedNamespaces (fst (applyShardMap m sm))) - set (mgr_assignedNamespaces m)"
    "set removed = set (mgr_assignedNamespaces m) - set (mgr_assignedNamespaces (fst (applyShardMap m sm)))"
    by (rule applyShardMap_effects [of m sm])
  show "watched_after (set (mgr_assignedNamespaces m)) (snd (applyShardMap m sm)) =
      set (mgr_assignedNamespaces (fst (applyShardMap m sm)))"
  proof (cases "added = [] \<and> removed = []")
    case True
    then show ?thesis using e(2,3) unfolding e(1) by auto
  next
    case False
    have "watched_after (set (mgr_assignedNamespaces m)) (snd (applyShardMap m sm)) =
        set (mgr_assignedNamespaces m) - set removed \<union> set added"
      unfolding e(1) using False assms by auto
    then show ?thesis unfolding e(2,3) by blast
  qed
  show "snd (applyShardMap m sm) \<noteq> []" by (simp add: e(1))
  show "mgr_callbacks (fst (applyShardMap m sm)) = mgr_callbacks m" by (simp add: applyShardMap_def Let_def)
qed

lemma run_effect_frames [simp]:
  "wt_manager (run_effect e s) = wt_manager s"
  "im_stopped (fst (wt_informers (run_effect e s))) = im_stopped (fst (wt_informers s))"
  by (cases e; simp)+

lemma run_effect_watched:
  "\<not> im_stopped (fst (wt_informers s)) \<Longrightarrow>
   watched_after (watched (fst (wt_informers (run_effect e s)))) es = watched_after (watched (fst (wt_informers s))) (e # es)"
  by (cases e) simp_all

lemma follows_step: "watch_step 1 s s' \<Longrightarrow> follows s \<Longrightarrow> follows s'"
proof (induction rule: watch_step.induct)
  case (apply_map t s sm m effs)
  then have p: "wt_pending s = []" by (auto simp: follows_def)
  have r: "m = fst (applyShardMap (wt_manager s) sm)" "effs = snd (applyShardMap (wt_manager s) sm)"
    using apply_map(3) by simp_all
  have f: "mgr_callbacks (wt_manager s) = [0]" "\<not> im_stopped (fst (wt_informers s))"
    "watched (fst (wt_informers s)) = set (mgr_assignedNamespaces (wt_manager s))"
    using apply_map(4) p by (auto simp: follows_def)
  show ?case
    using p f apply_map(1) applyShardMap_watched [OF f(1), of sm] unfolding r by (simp add: follows_def)
next
  case (run_next s xs t eff effs ys)
  then obtain es where es: "wt_pending s = [(0, es)]"
    "watched_after (watched (fst (wt_informers s))) es = set (mgr_assignedNamespaces (wt_manager s))"
    by (auto simp: follows_def)
  have "[(0, es)] = xs @ (t, eff # effs) # ys" using run_next(1) unfolding es(1) .
  then have p: "xs = []" "ys = []" "es = eff # effs" "t = 0" by (simp_all add: Cons_eq_append_conv)
  note p = p es [unfolded p(3)]
  have "\<not> im_stopped (fst (wt_informers s))" using run_next(2) by (simp add: follows_def)
  from run_effect_watched [OF this, of eff effs] have
    w: "watched_after (watched (fst (wt_informers (run_effect eff s)))) effs = set (mgr_assignedNamespaces (wt_manager s))"
    using p(6) by simp
  show ?case using p(1,2,4) w run_next(2) unfolding follows_def by (cases effs) simp_all
qed

text \<open>
  C11. With a single goroutine applying shard maps, the namespaces with an informer factory are exactly the
  assigned ones whenever no callback is outstanding, whatever maps were applied.
\<close>

theorem informers_follow_assignment:
  assumes "mgr_callbacks m = [0]" "mgr_assignedNamespaces m = []" "NewInformerManager False meta resync = Inr im"
    and "watch_reaches 1 (watch_init m im w) s" "wt_pending s = []"
  shows "watched (fst (wt_informers s)) = set (mgr_assignedNamespaces (wt_manager s))"
proof -
  have "follows (watch_init m im w)"
    using assms(1-3) by (auto simp: follows_def watch_init_def NewInformerManager_def watched_def)
  with assms(4) have "follows s" by (induction rule: rtranclp_induct) (auto intro: follows_step)
  then show ?thesis using assms(5) by (simp add: follows_def)
qed


section \<open>Stopping\<close>

definition started :: "client_go \<Rightarrow> nat set" where
  "started w = {ch. \<exists>f. StartFactory f ch \<in> set (go_calls w)}"

definition cancelled :: "client_go \<Rightarrow> nat set" where
  "cancelled w = {ch. CancelContext ch \<in> set (go_calls w)}"

definition open_contexts :: "InformerManager \<Rightarrow> nat set" where
  "open_contexts im = nie_cancel ` ran (map_of (im_factories im))"

lemma calls_simps [simp]:
  "started (do_calls cs w) = started w \<union> {ch. \<exists>f. StartFactory f ch \<in> set cs}"
  "cancelled (do_calls cs w) = cancelled w \<union> {ch. CancelContext ch \<in> set cs}"
  "go_next (do_calls cs w) = go_next w"
  "started (w\<lparr>go_next := n\<rparr>) = started w" "cancelled (w\<lparr>go_next := n\<rparr>) = cancelled w"
  by (auto simp: started_def cancelled_def do_calls_def)

definition all_open :: "InformerManager \<times> client_go \<Rightarrow> bool" where
  "all_open s \<longleftrightarrow> started (snd s) \<subseteq> cancelled (snd s) \<union> open_contexts (fst s)"

lemma startFactory_open [intro]:
  assumes "all_open (im, w)" "\<not> has_key (im_factories im) ns"
  shows "all_open (startFactory ns (im, w))"
proof -
  have "open_contexts (fst (startFactory ns (im, w))) = insert (go_next w + 1) (open_contexts im)"
    using assms(2) by (simp add: startFactory_def open_contexts_def Let_def)
  then show ?thesis using assms(1) by (auto simp: all_open_def startFactory_def Let_def)
qed

lemma remove_open:
  assumes "map_of (im_factories im) ns = Some entry" "all_open (im, w)"
  shows "all_open (im\<lparr>im_factories := map_delete ns (im_factories im)\<rparr>, do_calls [CancelContext (nie_cancel entry)] w)"
proof -
  have "x \<in> insert entry (ran ((map_of (im_factories im))(ns := None)))" if x: "x \<in> ran (map_of (im_factories im))" for x
  proof -
    obtain a where "map_of (im_factories im) a = Some x" using x unfolding ran_def by blast
    then show ?thesis using assms(1) unfolding ran_def by (cases "a = ns") auto
  qed
  then have "open_contexts im \<subseteq> insert (nie_cancel entry)
      (open_contexts (im\<lparr>im_factories := map_delete ns (im_factories im)\<rparr>))"
    by (auto simp: open_contexts_def)
  then show ?thesis using assms(2) by (auto simp: all_open_def)
qed

lemma remove_loop_open: "all_open s \<Longrightarrow> all_open (remove_loop nss s)"
  by (induction nss s rule: remove_loop.induct) (simp_all add: remove_open split: option.split)

lemma add_loop_open: "all_open s \<Longrightarrow> all_open (add_loop nss s)"
proof (induction nss s rule: add_loop.induct)
  case (2 ns nss im w)
  then show ?case using startFactory_open [of im w ns] by auto
qed simp

lemma HandleShardChange_open: "all_open s \<Longrightarrow> all_open (HandleShardChange added removed s)"
  by (simp add: HandleShardChange_def add_loop_open remove_loop_open)

definition run_changes :: "(string list \<times> string list) list \<Rightarrow> InformerManager \<times> client_go \<Rightarrow> InformerManager \<times> client_go" where
  "run_changes cs s = foldl (\<lambda>s (added, removed). HandleShardChange added removed s) s cs"

lemma run_changes_open: "all_open s \<Longrightarrow> all_open (run_changes cs s)"
  unfolding run_changes_def by (rule foldl_invariant) (auto intro: HandleShardChange_open split: prod.split)

definition im_ok :: "InformerManager \<times> client_go \<Rightarrow> bool" where
  "im_ok s \<longleftrightarrow> distinct (map fst (im_factories (fst s)))"

lemma startFactory_ok [simp]: "im_ok s \<Longrightarrow> im_ok (startFactory ns s)"
  by (cases s) (simp add: im_ok_def startFactory_def Let_def)

lemma remove_loop_ok [simp]: "im_ok s \<Longrightarrow> im_ok (remove_loop nss s)"
  by (induction nss s rule: remove_loop.induct) (simp_all add: im_ok_def split: option.split)

lemma add_loop_ok [simp]: "im_ok s \<Longrightarrow> im_ok (add_loop nss s)"
  by (induction nss s rule: add_loop.induct) simp_all

lemma run_changes_ok: "im_ok s \<Longrightarrow> im_ok (run_changes cs s)"
  unfolding run_changes_def by (rule foldl_invariant) (auto simp: HandleShardChange_def split: prod.split)

lemma StopInformers_closes:
  assumes "all_open s" "im_ok s" "permuting ord"
  shows "started (snd (StopInformers ord s)) \<subseteq> cancelled (snd (StopInformers ord s))"
    "im_factories (fst (StopInformers ord s)) = []" "im_stopped (fst (StopInformers ord s))"
proof -
  obtain im w where s: "s = (im, w)" by (cases s)
  have "set (range_map ord (im_factories im)) = set (im_factories im)"
    by (rule range_map_keys) (use assms(2,3) in \<open>simp_all add: s im_ok_def\<close>)
  moreover have "ran (map_of (im_factories im)) \<subseteq> snd ` set (im_factories im)"
    by (auto simp: ran_def dest: map_of_SomeD intro: rev_image_eqI)
  ultimately have "open_contexts im \<subseteq> {ch. CancelContext ch \<in> set (map (\<lambda>(ns, entry). CancelContext (nie_cancel entry))
      (range_map ord (im_factories im)))}"
    by (fastforce simp: open_contexts_def)
  then show "started (snd (StopInformers ord s)) \<subseteq> cancelled (snd (StopInformers ord s))"
    using assms(1) by (auto simp: StopInformers_def all_open_def s)
  show "im_factories (fst (StopInformers ord s)) = []" "im_stopped (fst (StopInformers ord s))"
    by (simp_all add: StopInformers_def s)
qed

text \<open>
  Stopping the informer manager closes every stop channel it ever gave to a factory, after any sequence of
  shard changes and in whatever order the map is visited; afterwards shard changes are ignored.
\<close>

theorem stop_closes_every_channel:
  assumes "NewInformerManager False meta resync = Inr im" "permuting ord"
    and "(im', w') = StopInformers ord (run_changes cs (im, \<lparr>go_next = 0, go_calls = []\<rparr>))"
  shows "started w' \<subseteq> cancelled w' \<and> im_factories im' = [] \<and>
    HandleShardChange added removed (im', w') = (im', w')"
proof -
  let ?s = "run_changes cs (im, \<lparr>go_next = 0, go_calls = []\<rparr>)"
  have "all_open (im, \<lparr>go_next = 0, go_calls = []\<rparr>)" by (simp add: all_open_def started_def)
  moreover have "im_ok (im, \<lparr>go_next = 0, go_calls = []\<rparr>)"
    using assms(1) by (auto simp: im_ok_def NewInformerManager_def)
  ultimately have "all_open ?s" "im_ok ?s" by (simp_all add: run_changes_open run_changes_ok)
  from StopInformers_closes [OF this assms(2)] show ?thesis
    unfolding assms(3) [symmetric] by (simp add: HandleShardChange_def)
qed

section \<open>The replica count\<close>

definition live_replica :: "gotime \<Rightarrow> Lease \<Rightarrow> bool" where
  "live_replica now l \<longleftrightarrow> has_prefix (lease_Name l) ''wormsign-'' \<and> lease_Name l \<noteq> ''wormsign-leader'' \<and>
     (case lease_RenewTime l of None \<Rightarrow> False | Some t \<Rightarrow> time_Sub now t \<le> 45 * second)"

lemma countActiveReplicas_eq: "countActiveReplicas now ls = int (length (filter (live_replica now) ls))"
  by (induction ls) (auto simp: live_replica_def leaseExpirationThreshold_def split: option.split)

text \<open>
  A check of the leases that succeeds sets the replica count of the manager to the number of live replica
  leases, and at least one; a check that fails leaves the manager alone; neither touches the assignment.
\<close>

theorem replica_watcher_tracks:
  "checkReplicas (Inr ls) now m = Inr (m\<lparr>mgr_numReplicas := max 1 (int (length (filter (live_replica now) ls)))\<rparr>) \<and>
   checkReplicas (Inl e) now m = Inl e"
  by (cases m) (auto simp: checkReplicas_def countActiveReplicas_eq SetNumReplicas_def Let_def max_def Suc_le_eq)

section \<open>Instances\<close>

definition ex_informers :: InformerManager where
  "ex_informers = \<lparr>im_metadataClient = False, im_resyncPeriod = 30 * minute, im_factories = [], im_stopped = False\<rparr>"

definition ex_shard_manager :: Manager where
  "ex_shard_manager = \<lparr>mgr_replicaID = ''r'', mgr_numReplicas = 1, mgr_excludeNamespaces = [], mgr_assignedNamespaces = [],
     mgr_currentShardMap = None, mgr_peerSelector = [], mgr_callbacks = [0]\<rparr>"

lemma ex_informers_new: "NewInformerManager False False None = Inr ex_informers"
  by (simp add: NewInformerManager_def ex_informers_def)

lemma ex_managers [simp]:
  "mgr_callbacks ex_shard_manager = [0]" "mgr_assignedNamespaces ex_shard_manager = []"
  "mgr_replicaID ex_shard_manager = ''r''" "im_factories ex_informers = []" "\<not> im_stopped ex_informers"
  by (simp_all add: ex_shard_manager_def ex_informers_def)

lemma informers_follow_assignment_witness:
  "\<exists>s. watch_reaches 1 (watch_init ex_shard_manager ex_informers \<lparr>go_next = 0, go_calls = []\<rparr>) s \<and>
     watched (fst (wt_informers s)) = {''a''}"
proof -
  let ?i = "watch_init ex_shard_manager ex_informers \<lparr>go_next = 0, go_calls = []\<rparr>"
  let ?sm = "\<lparr>sm_Assignments = [(''r'', [''a''])], sm_NumReplicas = 1, sm_UpdatedAt = 0\<rparr>"
  let ?m = "fst (applyShardMap ex_shard_manager ?sm)"
  let ?e = "[SetShardNamespaces 1, ShardChange 0 [''a''] []]"
  let ?s1 = "?i\<lparr>wt_manager := ?m, wt_pending := [(0, ?e)]\<rparr>"
  let ?s2 = "?s1\<lparr>wt_gauge := 1, wt_pending := [(0, [ShardChange 0 [''a''] []])]\<rparr>"
  let ?s3 = "(run_effect (ShardChange 0 [''a''] []) ?s2)\<lparr>wt_pending := []\<rparr>"
  have a: "applyShardMap ex_shard_manager ?sm = (?m, ?e)"
    by (simp add: applyShardMap_def Let_def)
  have "watch_step 1 ?i ?s1" using apply_map [of 0 1 ?i ?sm ?m ?e] a by (simp add: watch_init_def)
  moreover have "watch_step 1 ?s1 ?s2"
    using run_next [of ?s1 "[]" 0 "SetShardNamespaces 1" "[ShardChange 0 [''a''] []]" "[]"] by simp
  moreover have "watch_step 1 ?s2 ?s3"
    using run_next [of ?s2 "[]" 0 "ShardChange 0 [''a''] []" "[]" "[]"] by simp
  ultimately have r: "watch_reaches 1 ?i ?s3" by (meson converse_rtranclp_into_rtranclp r_into_rtranclp)
  have "watched (fst (wt_informers ?s3)) = set (mgr_assignedNamespaces (wt_manager ?s3))"
    by (rule informers_follow_assignment [OF _ _ ex_informers_new r]) simp_all
  with r show ?thesis by (intro exI [of _ ?s3]) (simp add: map_get_def)
qed


lemma stop_closes_every_channel_witness:
  "started (snd (StopInformers id (run_changes [([''a'', ''b''], []), ([''c''], [''a''])] (ex_informers, \<lparr>go_next = 0, go_calls = []\<rparr>))))
     \<subseteq> cancelled (snd (StopInformers id (run_changes [([''a'', ''b''], []), ([''c''], [''a''])] (ex_informers, \<lparr>go_next = 0, go_calls = []\<rparr>))))"
  using stop_closes_every_channel [OF ex_informers_new, of id _ _ "[([''a'', ''b''], []), ([''c''], [''a''])]"]
  by (simp add: permuting_def) (metis surjective_pairing)

end
