(* ===== verification/Health.thy ===== *)
theory Health
  imports Go_Prelude
begin

text \<open>
  The probes (\<open>internal/health/handler.go\<close>): the state of the handler, the two checks and their HTTP
  answers. The clock is an argument; the heartbeat is stored as nanoseconds since the Unix epoch in 64 bits.
\<close>

section \<open>State\<close>

definition HeartbeatTimeout :: duration where "HeartbeatTimeout = 30 * second"

record Handler =
  hh_heartbeat :: int
  hh_apiServerReachable :: bool
  hh_informersSynced :: bool
  hh_detectorCount :: int

definition UnixNano :: "gotime \<Rightarrow> int" where
  "UnixNano t = wrap64 t"

definition NewHandler :: "gotime \<Rightarrow> Handler" where
  "NewHandler now = \<lparr>hh_heartbeat = UnixNano now, hh_apiServerReachable = False, hh_informersSynced = False,
     hh_detectorCount = 0\<rparr>"

definition UpdateHeartbeat :: "gotime \<Rightarrow> Handler \<Rightarrow> Handler" where
  "UpdateHeartbeat now h = h\<lparr>hh_heartbeat := UnixNano now\<rparr>"

definition SetAPIServerReachable :: "bool \<Rightarrow> Handler \<Rightarrow> Handler" where
  "SetAPIServerReachable reachable h = h\<lparr>hh_apiServerReachable := reachable\<rparr>"

definition SetInformersSynced :: "bool \<Rightarrow> Handler \<Rightarrow> Handler" where
  "SetInformersSynced synced h = h\<lparr>hh_informersSynced := synced\<rparr>"

definition SetDetectorCount :: "int \<Rightarrow> Handler \<Rightarrow> Handler" where
  "SetDetectorCount n h = h\<lparr>hh_detectorCount := n\<rparr>"

section \<open>Checks and answers\<close>

datatype health_error =
    HeartbeatStale duration
  | APIServerUnreachable
  | InformersNotSynced
  | NoDetectors int

definition LivezCheck :: "gotime \<Rightarrow> Handler \<Rightarrow> health_error option" where
  "LivezCheck now h =
     (let elapsed = time_Sub now (hh_heartbeat h)
      in if HeartbeatTimeout < elapsed then Some (HeartbeatStale (duration_Round elapsed second)) else None)"

definition ReadyzCheck :: "Handler \<Rightarrow> health_error option" where
  "ReadyzCheck h =
     (if \<not> hh_apiServerReachable h then Some APIServerUnreachable
      else if \<not> hh_informersSynced h then Some InformersNotSynced
      else if hh_detectorCount h < 1 then Some (NoDetectors (hh_detectorCount h))
      else None)"

definition health_error_text :: "health_error \<Rightarrow> string" where
  "health_error_text e =
     (case e of
        HeartbeatStale d \<Rightarrow> ''heartbeat stale: last update '' @ duration_String d @ '' ago (threshold '' @
          duration_String HeartbeatTimeout @ '')''
      | APIServerUnreachable \<Rightarrow> ''API server is not reachable''
      | InformersNotSynced \<Rightarrow> ''informers have not synced''
      | NoDetectors n \<Rightarrow> ''no detectors running (count: '' @ show_int n @ '')'')"

record statusResponse =
  sr_Code :: nat
  sr_Status :: string
  sr_Details :: "(string \<times> string) list"

definition HandleLivez :: "gotime \<Rightarrow> Handler \<Rightarrow> statusResponse" where
  "HandleLivez now h =
     (case LivezCheck now h of
        Some e \<Rightarrow> \<lparr>sr_Code = 503, sr_Status = ''fail'', sr_Details = [(''heartbeat'', health_error_text e)]\<rparr>
      | None \<Rightarrow> \<lparr>sr_Code = 200, sr_Status = ''ok'', sr_Details = []\<rparr>)"

definition HandleReadyz :: "Handler \<Rightarrow> statusResponse" where
  "HandleReadyz h =
     (case ReadyzCheck h of
        Some e \<Rightarrow> \<lparr>sr_Code = 503, sr_Status = ''fail'', sr_Details = [(''reason'', health_error_text e)]\<rparr>
      | None \<Rightarrow> \<lparr>sr_Code = 200, sr_Status = ''ok'', sr_Details = []\<rparr>)"

text \<open>The routes of the probe server; \<open>None\<close> is the not-found answer of the standard library.\<close>

definition NewServeMux :: "gotime \<Rightarrow> Handler \<Rightarrow> string \<Rightarrow> statusResponse option" where
  "NewServeMux now h path =
     (if path = ''/healthz'' then Some (HandleLivez now h)
      else if path = ''/readyz'' then Some (HandleReadyz h)
      else None)"

definition NewServer :: "bool \<Rightarrow> goint \<Rightarrow> string + goint" where
  "NewServer handler_nil port =
     (if handler_nil then Inl ''health: handler must not be nil''
      else if port < 1 \<or> 65535 < port then Inl (''health: port '' @ show_int port @ '' out of valid range [1, 65535]'')
      else Inr port)"

section \<open>Properties\<close>

lemma Readyz_ok_iff: "ReadyzCheck h = None \<longleftrightarrow> hh_apiServerReachable h \<and> hh_informersSynced h \<and> 1 \<le> hh_detectorCount h"
  by (auto simp: ReadyzCheck_def)

text \<open>
  The answers of the probes: liveness is reported exactly for thirty seconds after the last heartbeat,
  readiness exactly while the API server is reachable, the informers are synced and a detector runs; both
  answers are 200 or 503 and any other path is not found.
\<close>

theorem probe_answers:
  assumes "h = UpdateHeartbeat t h0" "int64 t"
  shows "(\<exists>r. NewServeMux now h ''/healthz'' = Some r \<and> sr_Code r = (if now - t \<le> 30 * second then 200 else 503)) \<and>
    (\<exists>r. NewServeMux now h ''/readyz'' = Some r \<and>
       sr_Code r = (if hh_apiServerReachable h0 \<and> hh_informersSynced h0 \<and> 1 \<le> hh_detectorCount h0 then 200 else 503)) \<and>
    NewServeMux now h ''/metrics'' = None"
proof -
  have "hh_heartbeat h = t" using assms by (simp add: UpdateHeartbeat_def UnixNano_def)
  moreover have "time_Sub now t \<le> 30 * second \<longleftrightarrow> now - t \<le> 30 * second"
    by (rule time_Sub_le_iff) (simp_all add: int64_defs second_def)
  ultimately have "LivezCheck now h = None \<longleftrightarrow> now - t \<le> 30 * second"
    by (auto simp: LivezCheck_def HeartbeatTimeout_def Let_def)
  moreover have "ReadyzCheck h = ReadyzCheck h0" by (simp add: assms(1) UpdateHeartbeat_def ReadyzCheck_def)
  ultimately show ?thesis
    using Readyz_ok_iff [of h0]
    by (auto simp: NewServeMux_def HandleLivez_def HandleReadyz_def split: option.split)
qed

lemma probe_answers_witness:
  "\<exists>r. NewServeMux (20 * second) (UpdateHeartbeat (5 * second) (NewHandler 0)) ''/healthz'' = Some r \<and> sr_Code r = 200"
  using probe_answers [of "UpdateHeartbeat (5 * second) (NewHandler 0)" "5 * second" "NewHandler 0" "20 * second"]
  by (simp add: int64_defs duration_defs)

end
