(* ===== verification/Detector_Bridge.thy ===== *)
theory Detector_Bridge
  imports Detectors Pipeline Config Informer_Manager
begin

text \<open>
  The detector bridge (\<open>internal/controller/detectors.go\<close>): it creates the enabled detectors, turns the
  Kubernetes objects of the informers' events into the detectors' states, enriches what the detectors emit
  and submits it to the pipeline, wires the informers of an assigned namespace and scans for pending objects. The
  API objects are records of the fields the bridge reads; a handler's detectors read the clock one after the
  other, so a check takes one pair of readings per detector. What a check submits is the list of its
  calls of \<open>SubmitFaultEvent\<close>, in order.
\<close>

section \<open>Kubernetes objects\<close>

record OwnerReference =
  or_Kind :: string
  or_Name :: string

record kube_container_status =
  kcs_Name :: string
  kcs_RestartCount :: int
  kcs_Waiting :: "string option"
  kcs_Terminated :: "(int \<times> string) option"

record Pod =
  pod_Name :: string
  pod_Namespace :: string
  pod_UID :: string
  pod_Labels :: "labels option"
  pod_Annotations :: "labels option"
  pod_CreationTimestamp :: gotime
  pod_OwnerReferences :: "OwnerReference list"
  pod_NodeName :: string
  pod_Phase :: string
  pod_ContainerStatuses :: "kube_container_status list"
  pod_InitContainerStatuses :: "kube_container_status list"

record PersistentVolumeClaim =
  pv_Name :: string
  pv_Namespace :: string
  pv_UID :: string
  pv_Labels :: "labels option"
  pv_Annotations :: "labels option"
  pv_CreationTimestamp :: gotime
  pv_StorageClassName :: "string option"
  pv_Phase :: string

record JobCondition =
  jc_Type :: string
  jc_Status :: string
  jc_Reason :: string

record Job =
  kj_Name :: string
  kj_Namespace :: string
  kj_UID :: string
  kj_Labels :: "labels option"
  kj_ActiveDeadlineSeconds :: "int option"
  kj_StartTime :: "gotime option"
  kj_Conditions :: "JobCondition list"

section \<open>Conversions\<close>

definition waitingReason :: "kube_container_status \<Rightarrow> string" where
  "waitingReason cs = (case kcs_Waiting cs of Some reason \<Rightarrow> reason | None \<Rightarrow> [])"

definition container_state :: "kube_container_status \<Rightarrow> ContainerStatus" where
  "container_state cs = \<lparr>cs_Name = kcs_Name cs, cs_RestartCount = kcs_RestartCount cs,
     cs_Waiting = (kcs_Waiting cs \<noteq> None), cs_WaitingReason = waitingReason cs\<rparr>"

definition toCrashLoopState :: "Pod \<Rightarrow> PodContainerState" where
  "toCrashLoopState pod = \<lparr>pcs_Name = pod_Name pod, pcs_Namespace = pod_Namespace pod, pcs_UID = pod_UID pod,
     pcs_Labels = pod_Labels pod, pcs_Annotations = pod_Annotations pod,
     pcs_ContainerStatuses = map container_state (pod_ContainerStatuses pod),
     pcs_InitContainerStatuses = map container_state (pod_InitContainerStatuses pod)\<rparr>"

fun terminations :: "kube_container_status list \<Rightarrow> ContainerTermination list" where
  "terminations [] = []"
| "terminations (cs # css) =
     (case kcs_Terminated cs of
        None \<Rightarrow> terminations css
      | Some (code, reason) \<Rightarrow>
          \<lparr>ct_Name = kcs_Name cs, ct_ExitCode = code, ct_Reason = reason\<rparr> # terminations css)"

definition toFailedState :: "Pod \<Rightarrow> PodFailedState" where
  "toFailedState pod = \<lparr>pfs_Name = pod_Name pod, pfs_Namespace = pod_Namespace pod, pfs_UID = pod_UID pod,
     pfs_Phase = pod_Phase pod, pfs_Labels = pod_Labels pod, pfs_Annotations = pod_Annotations pod,
     pfs_Terminations = terminations (pod_ContainerStatuses pod)\<rparr>"

definition toPendingState :: "Pod \<Rightarrow> PodState" where
  "toPendingState pod = \<lparr>ps_Name = pod_Name pod, ps_Namespace = pod_Namespace pod, ps_UID = pod_UID pod,
     ps_Phase = pod_Phase pod, ps_CreationTimestamp = pod_CreationTimestamp pod, ps_Labels = pod_Labels pod,
     ps_Annotations = pod_Annotations pod\<rparr>"

definition job_condition :: "JobState \<Rightarrow> JobCondition \<Rightarrow> JobState" where
  "job_condition state c =
     (let s1 = (if jc_Type c = ''Complete'' \<and> jc_Status c = ''True'' then state\<lparr>job_Completed := True\<rparr> else state)
      in if jc_Type c = ''Failed'' \<and> jc_Status c = ''True''
         then (if jc_Reason c = ''DeadlineExceeded''
               then s1\<lparr>job_Failed := True, job_ConditionDeadlineExceeded := True\<rparr>
               else s1\<lparr>job_Failed := True\<rparr>)
         else s1)"

definition toJobState :: "Job \<Rightarrow> JobState" where
  "toJobState job = foldl job_condition
     \<lparr>job_Name = kj_Name job, job_Namespace = kj_Namespace job, job_UID = kj_UID job,
      job_ActiveDeadlineSeconds = kj_ActiveDeadlineSeconds job, job_StartTime = kj_StartTime job,
      job_Completed = False, job_Failed = False, job_ConditionDeadlineExceeded = False,
      job_Labels = kj_Labels job, job_Annotations = None\<rparr> (kj_Conditions job)"

definition toPVCState :: "PersistentVolumeClaim \<Rightarrow> PVCState" where
  "toPVCState pvc = \<lparr>pvc_Name = pv_Name pvc, pvc_Namespace = pv_Namespace pvc, pvc_UID = pv_UID pvc,
     pvc_Phase = pv_Phase pvc, pvc_CreationTimestamp = pv_CreationTimestamp pvc,
     pvc_StorageClassName = (case pv_StorageClassName pvc of None \<Rightarrow> [] | Some s \<Rightarrow> s),
     pvc_Labels = pv_Labels pvc, pvc_Annotations = pv_Annotations pvc\<rparr>"

text \<open>\<open>strings.LastIndex(s, "-")\<close>, and the owner's name up to it.\<close>

fun last_index :: "char \<Rightarrow> string \<Rightarrow> nat option" where
  "last_index c [] = None"
| "last_index c (d # s) =
     (case last_index c s of Some i \<Rightarrow> Some (Suc i) | None \<Rightarrow> if d = c then Some 0 else None)"

fun owner_deployment :: "OwnerReference list \<Rightarrow> string" where
  "owner_deployment [] = []"
| "owner_deployment (ref # refs) =
     (if or_Kind ref = ''ReplicaSet''
      then (case last_index (CHR ''-'') (or_Name ref) of
              Some (Suc i) \<Rightarrow> take (Suc i) (or_Name ref)
            | _ \<Rightarrow> owner_deployment refs)
      else owner_deployment refs)"

definition resolveOwnerDeployment :: "Pod \<Rightarrow> string" where
  "resolveOwnerDeployment pod = owner_deployment (pod_OwnerReferences pod)"

section \<open>The bridge\<close>

datatype cached_object = CachedPod Pod | CachedPVC PersistentVolumeClaim

record detectorBridge =
  br_crashLoop :: "PodCrashLoop option"
  br_podFailed :: "PodFailed option"
  br_stuckPending :: "PodStuckPending option"
  br_jobDeadline :: "JobDeadlineExceeded option"
  br_pvcStuckBinding :: "PVCStuckBinding option"
  br_resourceCache :: "(string \<times> cached_object) list"
  br_wiredNamespaces :: "string list"

definition int32 :: "int \<Rightarrow> int" where
  "int32 x = (x + 2 ^ 31) mod 2 ^ 32 - 2 ^ 31"

text \<open>A detector that is created if it is enabled.\<close>

definition create_if :: "bool \<Rightarrow> detector_error + 'd \<Rightarrow> detector_error + 'd option" where
  "create_if enabled r = (if enabled then map_sum id Some r else Inr None)"

definition newDetectorBridge :: "Config \<Rightarrow> detector_error + detectorBridge" where
  "newDetectorBridge cfg =
     (let dc = cfg_Detectors cfg in
      case create_if (dcl_Enabled (dc_PodCrashLoop dc))
             (NewPodCrashLoop (int32 (dcl_Threshold (dc_PodCrashLoop dc))) (dcl_Cooldown (dc_PodCrashLoop dc)) True) of
        Inl e \<Rightarrow> Inl e
      | Inr crashLoop \<Rightarrow>
      (case create_if (dpf_Enabled (dc_PodFailed dc))
              (NewPodFailed (map int32 (slice (dpf_IgnoreExitCodes (dc_PodFailed dc)))) (dpf_Cooldown (dc_PodFailed dc)) True) of
        Inl e \<Rightarrow> Inl e
      | Inr podFailed \<Rightarrow>
      (case create_if (dsp_Enabled (dc_PodStuckPending dc))
              (NewPodStuckPending (dsp_Threshold (dc_PodStuckPending dc)) (dsp_Cooldown (dc_PodStuckPending dc)) True) of
        Inl e \<Rightarrow> Inl e
      | Inr stuckPending \<Rightarrow>
      (case create_if (djd_Enabled (dc_JobDeadlineExceeded dc))
              (NewJobDeadlineExceeded (djd_Cooldown (dc_JobDeadlineExceeded dc)) True) of
        Inl e \<Rightarrow> Inl e
      | Inr jobDeadline \<Rightarrow>
      (case create_if (dsb_Enabled (dc_PVCStuckBinding dc))
              (NewPVCStuckBinding (dsb_Threshold (dc_PVCStuckBinding dc)) (dsb_Cooldown (dc_PVCStuckBinding dc)) True) of
        Inl e \<Rightarrow> Inl e
      | Inr pvcStuckBinding \<Rightarrow>
          Inr \<lparr>br_crashLoop = crashLoop, br_podFailed = podFailed, br_stuckPending = stuckPending,
               br_jobDeadline = jobDeadline, br_pvcStuckBinding = pvcStuckBinding,
               br_resourceCache = [], br_wiredNamespaces = []\<rparr>)))))"

definition present :: "'a option \<Rightarrow> int" where
  "present x = (if x \<noteq> None then 1 else 0)"

definition DetectorCount :: "detectorBridge \<Rightarrow> int" where
  "DetectorCount b = present (br_crashLoop b) + present (br_podFailed b) + present (br_stuckPending b) +
     present (br_jobDeadline b) + present (br_pvcStuckBinding b)"

text \<open>The callback of all detectors: what it hands to \<open>SubmitFaultEvent\<close>.\<close>

definition bridge_input :: "FaultEvent \<Rightarrow> FilterInput" where
  "bridge_input event = \<lparr>fi_DetectorName = fe_DetectorName event,
     fi_Resource = \<lparr>rm_Kind = ref_Kind (fe_Resource event), rm_Namespace = ref_Namespace (fe_Resource event),
       rm_Name = ref_Name (fe_Resource event), rm_UID = ref_UID (fe_Resource event),
       rm_Labels = Some (fe_Labels event), rm_Annotations = None\<rparr>,
     fi_Namespace = \<lparr>nm_Name = ref_Namespace (fe_Resource event), nm_Labels = None, nm_Annotations = None\<rparr>,
     fi_Owners = []\<rparr>"

definition annotate_input :: "labels option \<Rightarrow> FilterInput \<Rightarrow> FilterInput" where
  "annotate_input annotations input =
     input\<lparr>fi_Resource := (fi_Resource input)\<lparr>rm_Annotations := annotations\<rparr>\<rparr>"

definition bridge_callback :: "(string \<times> cached_object) list \<Rightarrow> FaultEvent \<Rightarrow> FaultEvent \<times> FilterInput" where
  "bridge_callback cache event =
     (let input = bridge_input event in
      case map_of cache (ref_UID (fe_Resource event)) of
        None \<Rightarrow> (event, input)
      | Some (CachedPod pod) \<Rightarrow>
          (let as0 = fe_Annotations event;
               as1 = (if pod_NodeName pod \<noteq> [] then map_put ''wormsign.io/node-name'' (pod_NodeName pod) as0 else as0);
               deployName = resolveOwnerDeployment pod;
               as2 = (if deployName \<noteq> [] then map_put ''wormsign.io/owner-deployment'' deployName as1 else as1)
           in (event\<lparr>fe_Annotations := as2\<rparr>, annotate_input (pod_Annotations pod) input))
      | Some (CachedPVC pvc) \<Rightarrow> (event, annotate_input (pv_Annotations pvc) input))"

text \<open>A detector's check, if the detector exists.\<close>

definition run_check ::
    "('d \<Rightarrow> 'i \<times> gotime \<times> readings \<Rightarrow> 'd \<times> FaultEvent option) \<Rightarrow> 'd option \<Rightarrow> 'i \<Rightarrow> gotime \<times> readings \<Rightarrow>
     'd option \<times> FaultEvent list" where
  "run_check op d i clock =
     (case d of
        None \<Rightarrow> (None, [])
      | Some d0 \<Rightarrow>
          (case op d0 (i, clock) of
             (d1, None) \<Rightarrow> (Some d1, [])
           | (d1, Some event) \<Rightarrow> (Some d1, [event])))"

type_synonym clocks = "(gotime \<times> readings) \<times> (gotime \<times> readings) \<times> (gotime \<times> readings)"

type_synonym submissions = "(FaultEvent \<times> FilterInput) list"

definition checkPod :: "clocks \<Rightarrow> Pod \<Rightarrow> detectorBridge \<Rightarrow> detectorBridge \<times> submissions" where
  "checkPod cl pod b =
     (case cl of (c1, c2, c3) \<Rightarrow>
        let cache = map_put (pod_UID pod) (CachedPod pod) (br_resourceCache b);
            (crashLoop, e1) = run_check PodCrashLoop_Check (br_crashLoop b) (toCrashLoopState pod) c1;
            (podFailed, e2) = run_check PodFailed_Check (br_podFailed b) (toFailedState pod) c2;
            (stuckPending, e3) = run_check PodStuckPending_Check (br_stuckPending b) (toPendingState pod) c3
        in (b\<lparr>br_crashLoop := crashLoop, br_podFailed := podFailed, br_stuckPending := stuckPending,
              br_resourceCache := cache\<rparr>,
            map (bridge_callback cache) (e1 @ e2 @ e3)))"

definition checkPVC :: "gotime \<times> readings \<Rightarrow> PersistentVolumeClaim \<Rightarrow> detectorBridge \<Rightarrow> detectorBridge \<times> submissions" where
  "checkPVC c pvc b =
     (if br_pvcStuckBinding b = None then (b, [])
      else let cache = map_put (pv_UID pvc) (CachedPVC pvc) (br_resourceCache b);
               (pvcStuckBinding, es) = run_check PVCStuckBinding_Check (br_pvcStuckBinding b) (toPVCState pvc) c
           in (b\<lparr>br_pvcStuckBinding := pvcStuckBinding, br_resourceCache := cache\<rparr>, map (bridge_callback cache) es))"

definition checkJob :: "gotime \<times> readings \<Rightarrow> Job \<Rightarrow> detectorBridge \<Rightarrow> detectorBridge \<times> submissions" where
  "checkJob c job b =
     (if br_jobDeadline b = None then (b, [])
      else let (jobDeadline, es) = run_check JobDeadlineExceeded_Check (br_jobDeadline b) (toJobState job) c
           in (b\<lparr>br_jobDeadline := jobDeadline\<rparr>, map (bridge_callback (br_resourceCache b)) es))"

section \<open>Periodic scans\<close>

text \<open>
  The lister of a namespace's informer is the argument: the error of \<open>List\<close> or the objects, each with the
  readings of its check. \<open>ord\<close> is the order in which the map of wired namespaces is visited.
\<close>

fun scan_pods :: "(Pod \<times> gotime \<times> readings) list \<Rightarrow> detectorBridge \<Rightarrow> detectorBridge \<times> submissions" where
  "scan_pods [] b = (b, [])"
| "scan_pods ((pod, c) # pods) b =
     (if pod_Phase pod \<noteq> ''Pending'' then scan_pods pods b
      else let (stuckPending, es) = run_check PodStuckPending_Check (br_stuckPending b) (toPendingState pod) c;
               (b', subs) = scan_pods pods (b\<lparr>br_stuckPending := stuckPending\<rparr>)
           in (b', map (bridge_callback (br_resourceCache b)) es @ subs))"

fun scan_pvcs :: "(PersistentVolumeClaim \<times> gotime \<times> readings) list \<Rightarrow> detectorBridge \<Rightarrow> detectorBridge \<times> submissions" where
  "scan_pvcs [] b = (b, [])"
| "scan_pvcs ((pvc, c) # pvcs) b =
     (if pv_Phase pvc \<noteq> ''Pending'' then scan_pvcs pvcs b
      else let (b1, es) = checkPVC c pvc b; (b', subs) = scan_pvcs pvcs b1 in (b', es @ subs))"

fun scan_namespaces ::
    "('o list \<Rightarrow> detectorBridge \<Rightarrow> detectorBridge \<times> submissions) \<Rightarrow> (nat \<Rightarrow> string + 'o list) \<Rightarrow>
     InformerManager \<Rightarrow> string list \<Rightarrow> detectorBridge \<Rightarrow> detectorBridge \<times> submissions" where
  "scan_namespaces scan lister im [] b = (b, [])"
| "scan_namespaces scan lister im (ns # nss) b =
     (case GetInformerFactory im ns of
        None \<Rightarrow> scan_namespaces scan lister im nss b
      | Some factory \<Rightarrow>
          (case lister factory of
             Inl _ \<Rightarrow> scan_namespaces scan lister im nss b
           | Inr objects \<Rightarrow>
               (let (b1, subs1) = scan objects b; (b', subs) = scan_namespaces scan lister im nss b1
                in (b', subs1 @ subs))))"

definition scanPendingPods ::
    "(string list \<Rightarrow> string list) \<Rightarrow> (nat \<Rightarrow> string + (Pod \<times> gotime \<times> readings) list) \<Rightarrow> InformerManager \<Rightarrow>
     detectorBridge \<Rightarrow> detectorBridge \<times> submissions" where
  "scanPendingPods ord lister im b =
     (if br_stuckPending b = None then (b, [])
      else scan_namespaces scan_pods lister im (ord (br_wiredNamespaces b)) b)"

definition scanPendingPVCs ::
    "(string list \<Rightarrow> string list) \<Rightarrow> (nat \<Rightarrow> string + (PersistentVolumeClaim \<times> gotime \<times> readings) list) \<Rightarrow>
     InformerManager \<Rightarrow> detectorBridge \<Rightarrow> detectorBridge \<times> submissions" where
  "scanPendingPVCs ord lister im b =
     (if br_pvcStuckBinding b = None then (b, [])
      else scan_namespaces scan_pvcs lister im (ord (br_wiredNamespaces b)) b)"

section \<open>Wiring\<close>

text \<open>
  Every handler is followed by a \<open>Start\<close> of the factory with a stop channel made on the spot, which the
  bridge does not keep.
\<close>

definition add_handler :: "nat \<Rightarrow> resource_kind \<Rightarrow> client_go \<Rightarrow> client_go" where
  "add_handler factory kind w =
     do_calls [AddEventHandler factory kind, StartFactory factory (go_next w)] (w\<lparr>go_next := go_next w + 1\<rparr>)"

definition wireNamespace :: "nat \<Rightarrow> detectorBridge \<Rightarrow> client_go \<Rightarrow> client_go" where
  "wireNamespace factory b w =
     (let w1 = (if br_crashLoop b \<noteq> None \<or> br_podFailed b \<noteq> None \<or> br_stuckPending b \<noteq> None
                then add_handler factory PodInformer w else w);
          w2 = (if br_jobDeadline b \<noteq> None then add_handler factory JobInformer w1 else w1)
      in if br_pvcStuckBinding b \<noteq> None then add_handler factory PVCInformer w2 else w2)"

fun wire_loop :: "InformerManager \<Rightarrow> string list \<Rightarrow> detectorBridge \<times> client_go \<Rightarrow> detectorBridge \<times> client_go" where
  "wire_loop im [] s = s"
| "wire_loop im (ns # nss) (b, w) =
     (if List.member (br_wiredNamespaces b) ns then wire_loop im nss (b, w)
      else case GetInformerFactory im ns of
          None \<Rightarrow> wire_loop im nss (b, w)
        | Some factory \<Rightarrow>
            wire_loop im nss (b\<lparr>br_wiredNamespaces := ns # br_wiredNamespaces b\<rparr>, wireNamespace factory b w))"

definition BridgeHandleShardChange ::
    "InformerManager \<Rightarrow> string list \<Rightarrow> string list \<Rightarrow> detectorBridge \<times> client_go \<Rightarrow> detectorBridge \<times> client_go" where
  "BridgeHandleShardChange im added removed s =
     (case s of (b, w) \<Rightarrow>
        wire_loop im added
          (b\<lparr>br_wiredNamespaces := filter (\<lambda>ns. \<not> List.member removed ns) (br_wiredNamespaces b)\<rparr>, w))"

section \<open>What the detectors emit\<close>

text \<open>An event of the named detector about the resource, with none but the detectors' annotation keys.\<close>

definition detector_keys :: "string list" where
  "detector_keys = [''container'', ''restartCount'', ''exitCode'', ''reason'', ''activeDeadlineSeconds'', ''storageClass'']"

definition emitted :: "string \<Rightarrow> ResourceRef \<Rightarrow> FaultEvent \<Rightarrow> bool" where
  "emitted name ref e \<longleftrightarrow> fe_DetectorName e = name \<and> fe_Resource e = ref \<and>
     fst ` set (fe_Annotations e) \<subseteq> set detector_keys"

lemma Emit_emitted:
  assumes "snd (Emit rd b r d ls as) = Some e" "fst ` set (case as of None \<Rightarrow> [] | Some m \<Rightarrow> m) \<subseteq> set detector_keys"
  shows "emitted (bd_name b) r e"
proof -
  have "fe_DetectorName e = bd_name b \<and> fe_Resource e = r \<and> fe_Annotations e = (case as of None \<Rightarrow> [] | Some m \<Rightarrow> m)"
    using Emit_SomeD(2) [OF assms(1)] by (auto simp: NewFaultEvent_def split: if_splits sum.splits)
  then show ?thesis using assms(2) by (simp add: emitted_def)
qed

definition failed_ref :: "PodFailedState \<Rightarrow> ResourceRef" where
  "failed_ref pod = pod_failed_ref pod"

definition pvc_ref :: "PVCState \<Rightarrow> ResourceRef" where
  "pvc_ref pvc = \<lparr>ref_Kind = ''PersistentVolumeClaim'', ref_Namespace = pvc_Namespace pvc, ref_Name = pvc_Name pvc,
     ref_UID = pvc_UID pvc\<rparr>"

lemma crash_loop_emitted:
  "snd (crash_loop rd d pod css) = Some e \<Longrightarrow> emitted (bd_name (pcl_base d)) (pcs_ref pod) e"
proof (induction css)
  case (Cons cs css)
  show ?case
  proof (cases "isCrashLooping d cs")
    case True
    then show ?thesis
      using Cons.prems by (auto simp: Let_def split_beta pcs_ref_def detector_keys_def intro: Emit_emitted)
  qed (use Cons in simp)
qed simp

lemma termination_loop_emitted:
  "snd (termination_loop rd d pod ts) = Some e \<Longrightarrow> emitted (bd_name (pf_base d)) (pod_failed_ref pod) e"
proof (induction ts)
  case (Cons t ts)
  show ?case
  proof (cases "IgnoresExitCode d (ct_ExitCode t)")
    case False
    then show ?thesis
      using Cons.prems by (auto simp: Let_def split_beta detector_keys_def intro: Emit_emitted)
  qed (use Cons in simp)
qed simp

lemma checks_emitted:
  "snd (PodCrashLoop_Check d1 (s1, c)) = Some e \<Longrightarrow> emitted (bd_name (pcl_base d1)) (pcs_ref s1) e"
  "snd (PodFailed_Check d2 (s2, c)) = Some e \<Longrightarrow> emitted (bd_name (pf_base d2)) (pod_failed_ref s2) e"
  "snd (PodStuckPending_Check d3 (s3, c)) = Some e \<Longrightarrow> emitted (bd_name (psp_base d3)) (psp_ref s3) e"
  "snd (JobDeadlineExceeded_Check d4 (s4, c)) = Some e \<Longrightarrow> emitted (bd_name (jde_base d4)) (job_ref s4) e"
  "snd (PVCStuckBinding_Check d5 (s5, c)) = Some e \<Longrightarrow> emitted (bd_name (psb_base d5)) (pvc_ref s5) e"
proof -
  obtain now rd where c: "c = (now, rd)" by (cases c)
  show "emitted (bd_name (pcl_base d1)) (pcs_ref s1) e" if "snd (PodCrashLoop_Check d1 (s1, c)) = Some e"
    using that by (auto simp: PodCrashLoop_Check_def c Let_def intro: crash_loop_emitted)
  show "emitted (bd_name (pf_base d2)) (pod_failed_ref s2) e" if "snd (PodFailed_Check d2 (s2, c)) = Some e"
    using that
    by (auto simp: PodFailed_Check_def emitForPod_def c Let_def split_beta intro: termination_loop_emitted Emit_emitted
        split: if_splits)
  show "emitted (bd_name (psp_base d3)) (psp_ref s3) e" if "snd (PodStuckPending_Check d3 (s3, c)) = Some e"
    using that
    by (auto simp: PodStuckPending_Check_def psp_ref_def c Let_def split_beta intro: Emit_emitted split: if_splits)
  show "emitted (bd_name (jde_base d4)) (job_ref s4) e" if "snd (JobDeadlineExceeded_Check d4 (s4, c)) = Some e"
    using that
    by (auto simp: JobDeadlineExceeded_Check_def job_emit_def job_ref_def c Let_def split_beta detector_keys_def
        intro: Emit_emitted split: if_splits option.splits)
  show "emitted (bd_name (psb_base d5)) (pvc_ref s5) e" if "snd (PVCStuckBinding_Check d5 (s5, c)) = Some e"
    using that
    by (auto simp: PVCStuckBinding_Check_def pvc_ref_def c Let_def split_beta detector_keys_def
        intro: Emit_emitted split: if_splits)
qed

lemma run_check_simps [simp]:
  "run_check op None i c = (None, [])"
  "run_check op (Some d) i c = (Some (fst (op d (i, c))), case snd (op d (i, c)) of None \<Rightarrow> [] | Some e \<Rightarrow> [e])"
  by (simp_all add: run_check_def split: prod.split option.split)

section \<open>The bridge's detectors\<close>

definition named :: "('d \<Rightarrow> BaseDetector) \<Rightarrow> string \<Rightarrow> 'd option \<Rightarrow> bool" where
  "named base name d \<longleftrightarrow> (case d of None \<Rightarrow> True | Some x \<Rightarrow> bd_wf (base x) \<and> bd_name (base x) = name)"

definition bridge_ok :: "detectorBridge \<Rightarrow> bool" where
  "bridge_ok b \<longleftrightarrow> named pcl_base ''PodCrashLoop'' (br_crashLoop b) \<and> named pf_base ''PodFailed'' (br_podFailed b) \<and>
     named psp_base ''PodStuckPending'' (br_stuckPending b) \<and>
     named jde_base ''JobDeadlineExceeded'' (br_jobDeadline b) \<and>
     named psb_base ''PVCStuckBinding'' (br_pvcStuckBinding b)"

definition on :: "detectorBridge \<Rightarrow> string list" where
  "on b = (if br_crashLoop b \<noteq> None then [''PodCrashLoop''] else []) @
     (if br_podFailed b \<noteq> None then [''PodFailed''] else []) @
     (if br_stuckPending b \<noteq> None then [''PodStuckPending''] else []) @
     (if br_jobDeadline b \<noteq> None then [''JobDeadlineExceeded''] else []) @
     (if br_pvcStuckBinding b \<noteq> None then [''PVCStuckBinding''] else [])"

context detector_check
begin

lemma named_run: "named base n d \<Longrightarrow> named base n (fst (run_check op d i c))"
  by (cases c, cases d) (simp_all add: named_def check_frame check_wf)

end

lemmas named_check [simp] = pcl.named_run pf.named_run psp.named_run jde.named_run psb.named_run

lemma run_check_on [simp]: "fst (run_check op d i c) = None \<longleftrightarrow> d = None"
  by (cases d) simp_all

definition kinds :: "(string \<times> string) list" where
  "kinds = [(''PodCrashLoop'', ''Pod''), (''PodFailed'', ''Pod''), (''PodStuckPending'', ''Pod''),
     (''JobDeadlineExceeded'', ''Job''), (''PVCStuckBinding'', ''PersistentVolumeClaim'')]"

text \<open>What holds of every submission of the bridge.\<close>

definition sound_submission :: "string list \<Rightarrow> FaultEvent \<times> FilterInput \<Rightarrow> bool" where
  "sound_submission names s \<longleftrightarrow> (case s of (e, input) \<Rightarrow>
     fe_DetectorName e \<in> set names \<and> (fe_DetectorName e, ref_Kind (fe_Resource e)) \<in> set kinds \<and>
     annotation pvcAnnotationKey e = [] \<and>
     input = annotate_input (rm_Annotations (fi_Resource input)) (bridge_input (e\<lparr>fe_Annotations := []\<rparr>)))"

lemma callback_sound:
  assumes "emitted name ref e" "name \<in> set names" "(name, ref_Kind ref) \<in> set kinds"
  shows "sound_submission names (bridge_callback cache e)"
proof -
  have k: "pvcAnnotationKey \<notin> fst ` set (fe_Annotations e)"
    using assms(1) by (auto simp: emitted_def detector_keys_def pvcAnnotationKey_def)
  have "map_of (fe_Annotations e) pvcAnnotationKey = None" using k by (simp add: map_of_eq_None_iff)
  then show ?thesis
    using assms
    by (auto simp: sound_submission_def bridge_callback_def bridge_input_def annotate_input_def emitted_def Let_def
        annotation_def map_get_def pvcAnnotationKey_def split: option.split cached_object.split)
qed

section \<open>Checks and scans\<close>

definition sound_result :: "detectorBridge \<Rightarrow> detectorBridge \<times> submissions \<Rightarrow> bool" where
  "sound_result b r \<longleftrightarrow> bridge_ok (fst r) \<and> on (fst r) = on b \<and> list_all (sound_submission (on b)) (snd r)"

lemma sound_resultI:
  assumes "bridge_ok b'" "on b' = on b" "\<And>s. s \<in> set subs \<Longrightarrow> sound_submission (on b) s"
  shows "sound_result b (b', subs)"
  using assms by (auto simp: sound_result_def list_all_iff)

context detector_check
begin

lemma run_check_sound:
  assumes "\<And>d i c e. snd (op d (i, c)) = Some e \<Longrightarrow> emitted (bd_name (base d)) (ref i) e"
    and "named base name d" "d \<noteq> None \<Longrightarrow> name \<in> set names" "(name, ref_Kind (ref i)) \<in> set kinds"
  shows "list_all (\<lambda>e. sound_submission names (bridge_callback cache e)) (snd (run_check op d i c))"
proof (cases d)
  case (Some x)
  have "sound_submission names (bridge_callback cache e)" if "snd (op x (i, c)) = Some e" for e
  proof -
    from assms(1) [OF that] have "emitted name (ref i) e" using assms(2) Some by (simp add: named_def)
    then show ?thesis using assms(3,4) Some by (intro callback_sound) auto
  qed
  then show ?thesis using Some by (auto split: option.splits)
qed simp

end

lemma kinds_known [simp]:
  "(''PodCrashLoop'', ref_Kind (pcs_ref s1)) \<in> set kinds" "(''PodFailed'', ref_Kind (pod_failed_ref s2)) \<in> set kinds"
  "(''PodStuckPending'', ref_Kind (psp_ref s3)) \<in> set kinds" "(''JobDeadlineExceeded'', ref_Kind (job_ref s4)) \<in> set kinds"
  "(''PVCStuckBinding'', ref_Kind (pvc_ref s5)) \<in> set kinds"
  by (simp_all add: kinds_def pcs_ref_def pod_failed_ref_def psp_ref_def job_ref_def pvc_ref_def)

lemma on_member [simp]:
  "''PodCrashLoop'' \<in> set (on b) \<longleftrightarrow> br_crashLoop b \<noteq> None" "''PodFailed'' \<in> set (on b) \<longleftrightarrow> br_podFailed b \<noteq> None"
  "''PodStuckPending'' \<in> set (on b) \<longleftrightarrow> br_stuckPending b \<noteq> None"
  "''JobDeadlineExceeded'' \<in> set (on b) \<longleftrightarrow> br_jobDeadline b \<noteq> None"
  "''PVCStuckBinding'' \<in> set (on b) \<longleftrightarrow> br_pvcStuckBinding b \<noteq> None"
  by (auto simp: on_def)

lemma on_upd [simp]:
  "(d1 = None) = (br_crashLoop b = None) \<Longrightarrow> on (b\<lparr>br_crashLoop := d1\<rparr>) = on b"
  "(d2 = None) = (br_podFailed b = None) \<Longrightarrow> on (b\<lparr>br_podFailed := d2\<rparr>) = on b"
  "(d3 = None) = (br_stuckPending b = None) \<Longrightarrow> on (b\<lparr>br_stuckPending := d3\<rparr>) = on b"
  "(d4 = None) = (br_jobDeadline b = None) \<Longrightarrow> on (b\<lparr>br_jobDeadline := d4\<rparr>) = on b"
  "(d5 = None) = (br_pvcStuckBinding b = None) \<Longrightarrow> on (b\<lparr>br_pvcStuckBinding := d5\<rparr>) = on b"
  "on (b\<lparr>br_resourceCache := m\<rparr>) = on b" "on (b\<lparr>br_wiredNamespaces := nss\<rparr>) = on b"
  by (simp_all add: on_def)

lemma bridge_ok_upd [simp]:
  "bridge_ok b \<Longrightarrow> named pcl_base ''PodCrashLoop'' d1 \<Longrightarrow> bridge_ok (b\<lparr>br_crashLoop := d1\<rparr>)"
  "bridge_ok b \<Longrightarrow> named pf_base ''PodFailed'' d2 \<Longrightarrow> bridge_ok (b\<lparr>br_podFailed := d2\<rparr>)"
  "bridge_ok b \<Longrightarrow> named psp_base ''PodStuckPending'' d3 \<Longrightarrow> bridge_ok (b\<lparr>br_stuckPending := d3\<rparr>)"
  "bridge_ok b \<Longrightarrow> named jde_base ''JobDeadlineExceeded'' d4 \<Longrightarrow> bridge_ok (b\<lparr>br_jobDeadline := d4\<rparr>)"
  "bridge_ok b \<Longrightarrow> named psb_base ''PVCStuckBinding'' d5 \<Longrightarrow> bridge_ok (b\<lparr>br_pvcStuckBinding := d5\<rparr>)"
  "bridge_ok (b\<lparr>br_resourceCache := m\<rparr>) = bridge_ok b" "bridge_ok (b\<lparr>br_wiredNamespaces := nss\<rparr>) = bridge_ok b"
  by (simp_all add: bridge_ok_def)

lemma bridge_okD:
  assumes "bridge_ok b"
  shows "named pcl_base ''PodCrashLoop'' (br_crashLoop b)" "named pf_base ''PodFailed'' (br_podFailed b)"
    "named psp_base ''PodStuckPending'' (br_stuckPending b)" "named jde_base ''JobDeadlineExceeded'' (br_jobDeadline b)"
    "named psb_base ''PVCStuckBinding'' (br_pvcStuckBinding b)"
  using assms by (simp_all add: bridge_ok_def)

lemma checked_sound:
  assumes "bridge_ok b"
  defines "P \<equiv> \<lambda>cache e. sound_submission (on b) (bridge_callback cache e)"
  shows "list_all (P cache) (snd (run_check PodCrashLoop_Check (br_crashLoop b) s1 c))"
    "list_all (P cache) (snd (run_check PodFailed_Check (br_podFailed b) s2 c))"
    "list_all (P cache) (snd (run_check PodStuckPending_Check (br_stuckPending b) s3 c))"
    "list_all (P cache) (snd (run_check JobDeadlineExceeded_Check (br_jobDeadline b) s4 c))"
    "list_all (P cache) (snd (run_check PVCStuckBinding_Check (br_pvcStuckBinding b) s5 c))"
  unfolding P_def
  by (rule pcl.run_check_sound [where ref = pcs_ref, OF _ bridge_okD(1) [OF assms(1)]], erule checks_emitted, simp, rule kinds_known)
    (rule pf.run_check_sound [where ref = pod_failed_ref, OF _ bridge_okD(2) [OF assms(1)]], erule checks_emitted, simp, rule kinds_known,
     rule psp.run_check_sound [where ref = psp_ref, OF _ bridge_okD(3) [OF assms(1)]], erule checks_emitted, simp, rule kinds_known,
     rule jde.run_check_sound [where ref = job_ref, OF _ bridge_okD(4) [OF assms(1)]], erule checks_emitted, simp, rule kinds_known,
     rule psb.run_check_sound [where ref = pvc_ref, OF _ bridge_okD(5) [OF assms(1)]], erule checks_emitted, simp, rule kinds_known)

lemma checkPod_sound: "bridge_ok b \<Longrightarrow> sound_result b (checkPod cl pod b)"
  by (cases cl) (simp add: checkPod_def Let_def split_beta sound_result_def
      bridge_okD list.pred_map comp_def checked_sound)

lemma checkPVC_sound: "bridge_ok b \<Longrightarrow> sound_result b (checkPVC c pvc b)"
  by (simp add: checkPVC_def Let_def split_beta sound_result_def
      bridge_okD list.pred_map comp_def checked_sound)

lemma checkJob_sound: "bridge_ok b \<Longrightarrow> sound_result b (checkJob c job b)"
  by (simp add: checkJob_def Let_def split_beta sound_result_def
      bridge_okD list.pred_map comp_def checked_sound)

lemma sound_result_trans:
  "sound_result b (b1, s1) \<Longrightarrow> (bridge_ok b1 \<Longrightarrow> sound_result b1 (b2, s2)) \<Longrightarrow> sound_result b (b2, s1 @ s2)"
  by (simp add: sound_result_def)

lemma sound_result_nil [simp]: "sound_result b (b, []) \<longleftrightarrow> bridge_ok b"
  by (simp add: sound_result_def)

lemma scan_pods_sound: "bridge_ok b \<Longrightarrow> sound_result b (scan_pods pods b)"
proof (induction pods arbitrary: b)
  case (Cons p pods)
  obtain pod c where p: "p = (pod, c)" by (cases p)
  show ?case
  proof (cases "pod_Phase pod = ''Pending''")
    case True
    let ?r = "run_check PodStuckPending_Check (br_stuckPending b) (toPendingState pod) c"
    let ?b = "b\<lparr>br_stuckPending := fst ?r\<rparr>"
    have "sound_result b (?b, map (bridge_callback (br_resourceCache b)) (snd ?r))"
      using Cons.prems by (simp add: sound_result_def bridge_okD list.pred_map comp_def checked_sound)
    from sound_result_trans [OF this, of "fst (scan_pods pods ?b)" "snd (scan_pods pods ?b)"] Cons.IH [of ?b]
    show ?thesis using True by (simp add: p split_beta)
  qed (use Cons p in simp)
qed simp

lemma scan_pvcs_sound: "bridge_ok b \<Longrightarrow> sound_result b (scan_pvcs pvcs b)"
proof (induction pvcs arbitrary: b)
  case (Cons p pvcs)
  obtain pvc c where p: "p = (pvc, c)" by (cases p)
  show ?case
  proof (cases "pv_Phase pvc = ''Pending''")
    case True
    obtain b1 es where r: "checkPVC c pvc b = (b1, es)" by fastforce
    have "sound_result b (b1, es)" using checkPVC_sound [OF Cons.prems, of c pvc] by (simp add: r)
    from sound_result_trans [OF this, of "fst (scan_pvcs pvcs b1)" "snd (scan_pvcs pvcs b1)"] Cons.IH [of b1]
    show ?thesis using True by (simp add: p r split_beta)
  qed (use Cons p in simp)
qed simp

lemma scan_namespaces_sound:
  assumes "\<And>objects b. bridge_ok b \<Longrightarrow> sound_result b (scan objects b)"
  shows "bridge_ok b \<Longrightarrow> sound_result b (scan_namespaces scan lister im nss b)"
proof (induction nss arbitrary: b)
  case (Cons ns nss)
  have step: "sound_result b (fst (scan_namespaces scan lister im nss b1), es @ snd (scan_namespaces scan lister im nss b1))"
    if "scan objects b = (b1, es)" for objects b1 es
  proof -
    have "sound_result b (b1, es)" using assms [OF Cons.prems, of objects] by (simp add: that)
    from sound_result_trans [OF this] Cons.IH [of b1] show ?thesis by (metis surjective_pairing)
  qed
  show ?case
    using Cons step [OF surjective_pairing] by (auto simp: split_beta split: option.split sum.split)
qed simp

lemma scans_sound:
  "bridge_ok b \<Longrightarrow> sound_result b (scanPendingPods ord pods im b)"
  "bridge_ok b \<Longrightarrow> sound_result b (scanPendingPVCs ord' pvcs im b)"
  by (simp_all add: scanPendingPods_def scanPendingPVCs_def scan_namespaces_sound scan_pods_sound scan_pvcs_sound)

section \<open>The replica at work\<close>

text \<open>
  A shard change runs the informer manager's callback and then the bridge's, as they are registered. The other
  commands are the informers' events, the periodic scans and the stop of the informers.
\<close>

record replica =
  re_informers :: InformerManager
  re_bridge :: detectorBridge
  re_go :: client_go

datatype bridge_event =
    ShardChanged "string list" "string list"
  | PodEvent clocks Pod
  | PVCEvent "gotime \<times> readings" PersistentVolumeClaim
  | JobEvent "gotime \<times> readings" Job
  | ScanPods "string list \<Rightarrow> string list" "nat \<Rightarrow> string + (Pod \<times> gotime \<times> readings) list"
  | ScanPVCs "string list \<Rightarrow> string list" "nat \<Rightarrow> string + (PersistentVolumeClaim \<times> gotime \<times> readings) list"
  | InformersStopped "string list \<Rightarrow> string list"

definition on_bridge :: "(detectorBridge \<Rightarrow> detectorBridge \<times> submissions) \<Rightarrow> replica \<Rightarrow> replica \<times> submissions" where
  "on_bridge f r = (case f (re_bridge r) of (b, subs) \<Rightarrow> (r\<lparr>re_bridge := b\<rparr>, subs))"

fun replica_step :: "bridge_event \<Rightarrow> replica \<Rightarrow> replica \<times> submissions" where
  "replica_step (ShardChanged added removed) r =
     (case HandleShardChange added removed (re_informers r, re_go r) of (im, w) \<Rightarrow>
        (case BridgeHandleShardChange im added removed (re_bridge r, w) of (b, w') \<Rightarrow>
           (\<lparr>re_informers = im, re_bridge = b, re_go = w'\<rparr>, [])))"
| "replica_step (PodEvent cl pod) r = on_bridge (checkPod cl pod) r"
| "replica_step (PVCEvent c pvc) r = on_bridge (checkPVC c pvc) r"
| "replica_step (JobEvent c job) r = on_bridge (checkJob c job) r"
| "replica_step (ScanPods ord lister) r = on_bridge (scanPendingPods ord lister (re_informers r)) r"
| "replica_step (ScanPVCs ord lister) r = on_bridge (scanPendingPVCs ord lister (re_informers r)) r"
| "replica_step (InformersStopped ord) r =
     (case StopInformers ord (re_informers r, re_go r) of (im, w) \<Rightarrow> (r\<lparr>re_informers := im, re_go := w\<rparr>, []))"

fun replica_run :: "bridge_event list \<Rightarrow> replica \<Rightarrow> replica \<times> submissions" where
  "replica_run [] r = (r, [])"
| "replica_run (e # es) r =
     (case replica_step e r of (r1, s1) \<Rightarrow> (case replica_run es r1 of (r2, s2) \<Rightarrow> (r2, s1 @ s2)))"

lemma replica_invariant:
  assumes "I r" "\<And>e r. I r \<Longrightarrow> I (fst (replica_step e r))"
  shows "I (fst (replica_run es r))"
  using assms(1) by (induction es arbitrary: r) (auto simp: split_beta dest: assms(2))

lemma wire_loop_frame: "\<exists>nss'. fst (wire_loop im nss (b, w)) = b\<lparr>br_wiredNamespaces := nss'\<rparr>"
proof (induction nss arbitrary: b w)
  case Nil
  show ?case by (intro exI [of _ "br_wiredNamespaces b"]) simp
next
  case (Cons ns nss)
  have "\<exists>nss'. fst (wire_loop im nss (b\<lparr>br_wiredNamespaces := x\<rparr>, w')) = b\<lparr>br_wiredNamespaces := nss'\<rparr>" for x w'
    using Cons [of "b\<lparr>br_wiredNamespaces := x\<rparr>" w'] by simp
  then show ?case using Cons [of b w] by (simp split: option.split)
qed

lemma BridgeHandle_frame:
  obtains nss where "fst (BridgeHandleShardChange im added removed (b, w)) = b\<lparr>br_wiredNamespaces := nss\<rparr>"
  using wire_loop_frame [of im added "b\<lparr>br_wiredNamespaces := filter (\<lambda>ns. \<not> List.member removed ns) (br_wiredNamespaces b)\<rparr>" w]
  by (auto simp: BridgeHandleShardChange_def)

lemma on_bridge_sound:
  "sound_result (re_bridge r) (f (re_bridge r)) \<Longrightarrow>
   sound_result (re_bridge r) (re_bridge (fst (on_bridge f r)), snd (on_bridge f r))"
  by (simp add: on_bridge_def split_beta)

lemma replica_step_sound:
  assumes "bridge_ok (re_bridge r)"
  shows "sound_result (re_bridge r) (re_bridge (fst (replica_step e r)), snd (replica_step e r))"
proof (cases e)
  case (ShardChanged added removed)
  obtain im w where h: "HandleShardChange added removed (re_informers r, re_go r) = (im, w)" by fastforce
  obtain nss where "fst (BridgeHandleShardChange im added removed (re_bridge r, w)) = (re_bridge r)\<lparr>br_wiredNamespaces := nss\<rparr>"
    by (rule BridgeHandle_frame)
  then show ?thesis using assms by (simp add: ShardChanged h sound_result_def split_beta)
next
  case (InformersStopped ord)
  then show ?thesis using assms by (simp add: StopInformers_def sound_result_def split_beta)
qed (use assms in \<open>simp_all add: on_bridge_sound checkPod_sound checkPVC_sound checkJob_sound scans_sound\<close>)

lemma replica_run_sound:
  assumes "bridge_ok (re_bridge r)"
  shows "sound_result (re_bridge r) (re_bridge (fst (replica_run es r)), snd (replica_run es r))"
  using assms
proof (induction es arbitrary: r)
  case (Cons e es)
  note step = replica_step_sound [OF Cons.prems, of e]
  have "bridge_ok (re_bridge (fst (replica_step e r)))" using step by (simp add: sound_result_def)
  from sound_result_trans [OF step Cons.IH [OF this]] show ?case by (simp add: split_beta)
qed simp

text \<open>The names of the detectors the configuration enables.\<close>

definition enabled_detectors :: "Config \<Rightarrow> string list" where
  "enabled_detectors cfg = (let d = cfg_Detectors cfg in
     (if dcl_Enabled (dc_PodCrashLoop d) then [''PodCrashLoop''] else []) @
     (if dpf_Enabled (dc_PodFailed d) then [''PodFailed''] else []) @
     (if dsp_Enabled (dc_PodStuckPending d) then [''PodStuckPending''] else []) @
     (if djd_Enabled (dc_JobDeadlineExceeded d) then [''JobDeadlineExceeded''] else []) @
     (if dsb_Enabled (dc_PVCStuckBinding d) then [''PVCStuckBinding''] else []))"

lemma with_default_pos: "0 < d \<Longrightarrow> 0 < with_default d x"
  by (simp add: with_default_def)

lemma new_base_total:
  assumes "name \<noteq> []" "IsValid sev" "0 < cooldown"
  shows "\<exists>b. new_base name sev cooldown True = Inr b \<and> bd_wf b \<and> bd_name b = name"
  using assms by (simp add: new_base_def NewBaseDetector_def bd_wf_def)

lemma constructors_total:
  "\<exists>d. NewPodCrashLoop n c True = Inr d \<and> named pcl_base ''PodCrashLoop'' (Some d)"
  "\<exists>d. NewPodFailed codes c True = Inr d \<and> named pf_base ''PodFailed'' (Some d)"
  "\<exists>d. NewPodStuckPending t c True = Inr d \<and> named psp_base ''PodStuckPending'' (Some d)"
  "\<exists>d. NewJobDeadlineExceeded c True = Inr d \<and> named jde_base ''JobDeadlineExceeded'' (Some d)"
  "\<exists>d. NewPVCStuckBinding t c True = Inr d \<and> named psb_base ''PVCStuckBinding'' (Some d)"
proof -
  have p: "0 < with_default (30 * minute) c" by (simp add: with_default_pos minute_def)
  have v: "IsValid SeverityWarning" by (simp add: IsValid_def ValidSeverities_def)
  note nb = new_base_total [OF _ v p]
  show "\<exists>d. NewPodCrashLoop n c True = Inr d \<and> named pcl_base ''PodCrashLoop'' (Some d)"
    using nb [of "''PodCrashLoop''"] by (auto simp: NewPodCrashLoop_def named_def Let_def)
  show "\<exists>d. NewPodFailed codes c True = Inr d \<and> named pf_base ''PodFailed'' (Some d)"
    using nb [of "''PodFailed''"] by (auto simp: NewPodFailed_def named_def Let_def)
  show "\<exists>d. NewPodStuckPending t c True = Inr d \<and> named psp_base ''PodStuckPending'' (Some d)"
    using nb [of "''PodStuckPending''"] by (auto simp: NewPodStuckPending_def named_def Let_def)
  show "\<exists>d. NewJobDeadlineExceeded c True = Inr d \<and> named jde_base ''JobDeadlineExceeded'' (Some d)"
    using nb [of "''JobDeadlineExceeded''"] by (auto simp: NewJobDeadlineExceeded_def named_def Let_def)
  show "\<exists>d. NewPVCStuckBinding t c True = Inr d \<and> named psb_base ''PVCStuckBinding'' (Some d)"
    using nb [of "''PVCStuckBinding''"] by (auto simp: NewPVCStuckBinding_def named_def Let_def)
qed

lemma create_if_total:
  assumes "\<exists>d. r = Inr d \<and> named base n (Some d)"
  shows "\<exists>d. create_if en r = Inr d \<and> named base n d \<and> (d = None) = (\<not> en)"
  using assms by (auto simp: create_if_def named_def)

lemma newDetectorBridge_total:
  "\<exists>b. newDetectorBridge cfg = Inr b \<and> bridge_ok b \<and> on b = enabled_detectors cfg \<and>
     DetectorCount b = int (length (enabled_detectors cfg)) \<and> br_wiredNamespaces b = [] \<and> br_resourceCache b = []"
proof -
  let ?d = "cfg_Detectors cfg"
  note c = create_if_total [OF constructors_total(1)] create_if_total [OF constructors_total(2)]
    create_if_total [OF constructors_total(3)] create_if_total [OF constructors_total(4)] create_if_total [OF constructors_total(5)]
  obtain d1 where 1: "create_if (dcl_Enabled (dc_PodCrashLoop ?d)) (NewPodCrashLoop (int32 (dcl_Threshold (dc_PodCrashLoop ?d)))
      (dcl_Cooldown (dc_PodCrashLoop ?d)) True) = Inr d1" "named pcl_base ''PodCrashLoop'' d1"
    "(d1 = None) = (\<not> dcl_Enabled (dc_PodCrashLoop ?d))" using c(1) by blast
  obtain d2 where 2: "create_if (dpf_Enabled (dc_PodFailed ?d)) (NewPodFailed (map int32 (slice (dpf_IgnoreExitCodes (dc_PodFailed ?d))))
      (dpf_Cooldown (dc_PodFailed ?d)) True) = Inr d2" "named pf_base ''PodFailed'' d2"
    "(d2 = None) = (\<not> dpf_Enabled (dc_PodFailed ?d))" using c(2) by blast
  obtain d3 where 3: "create_if (dsp_Enabled (dc_PodStuckPending ?d)) (NewPodStuckPending (dsp_Threshold (dc_PodStuckPending ?d))
      (dsp_Cooldown (dc_PodStuckPending ?d)) True) = Inr d3" "named psp_base ''PodStuckPending'' d3"
    "(d3 = None) = (\<not> dsp_Enabled (dc_PodStuckPending ?d))" using c(3) by blast
  obtain d4 where 4: "create_if (djd_Enabled (dc_JobDeadlineExceeded ?d)) (NewJobDeadlineExceeded
      (djd_Cooldown (dc_JobDeadlineExceeded ?d)) True) = Inr d4" "named jde_base ''JobDeadlineExceeded'' d4"
    "(d4 = None) = (\<not> djd_Enabled (dc_JobDeadlineExceeded ?d))" using c(4) by blast
  obtain d5 where 5: "create_if (dsb_Enabled (dc_PVCStuckBinding ?d)) (NewPVCStuckBinding (dsb_Threshold (dc_PVCStuckBinding ?d))
      (dsb_Cooldown (dc_PVCStuckBinding ?d)) True) = Inr d5" "named psb_base ''PVCStuckBinding'' d5"
    "(d5 = None) = (\<not> dsb_Enabled (dc_PVCStuckBinding ?d))" using c(5) by blast
  let ?b = "\<lparr>br_crashLoop = d1, br_podFailed = d2, br_stuckPending = d3, br_jobDeadline = d4, br_pvcStuckBinding = d5,
      br_resourceCache = [], br_wiredNamespaces = []\<rparr>"
  have "newDetectorBridge cfg = Inr ?b"
    unfolding newDetectorBridge_def Let_def 1(1) 2(1) 3(1) 4(1) 5(1) by simp
  moreover have "on ?b = enabled_detectors cfg" "DetectorCount ?b = int (length (enabled_detectors cfg))"
    using 1(3) 2(3) 3(3) 4(3) 5(3) by (simp_all add: on_def enabled_detectors_def DetectorCount_def present_def Let_def)
  ultimately show ?thesis using 1(2) 2(2) 3(2) 4(2) 5(2) by (simp add: bridge_ok_def)
qed

section \<open>Properties\<close>

lemma replica_submission:
  assumes "newDetectorBridge cfg = Inr (re_bridge r)" "(e, input) \<in> set (snd (replica_run es r))"
  shows "sound_submission (enabled_detectors cfg) (e, input)"
proof -
  obtain b where b: "newDetectorBridge cfg = Inr b" "bridge_ok b" "on b = enabled_detectors cfg"
    using newDetectorBridge_total [of cfg] by blast
  then have "re_bridge r = b" using assms(1) by simp
  then show ?thesis
    using replica_run_sound [of r es] b assms(2) by (auto simp: sound_result_def list_all_iff)
qed

text \<open>
  C13. Whatever the informers report and however often the bridge scans, each of its submissions comes from a
  detector the configuration enables and concerns an object of that detector's kind; the filter input names the
  event's detector and resource, but of the namespace only the name and of the owners nothing.
\<close>

theorem bridge_submissions_sound:
  assumes "newDetectorBridge cfg = Inr (re_bridge r)" "(e, input) \<in> set (snd (replica_run es r))"
  shows "fe_DetectorName e \<in> set (enabled_detectors cfg) \<and>
    (fe_DetectorName e, ref_Kind (fe_Resource e)) \<in> {(''PodCrashLoop'', ''Pod''), (''PodFailed'', ''Pod''),
       (''PodStuckPending'', ''Pod''), (''JobDeadlineExceeded'', ''Job''), (''PVCStuckBinding'', ''PersistentVolumeClaim'')} \<and>
    fi_DetectorName input = fe_DetectorName e \<and> rm_Kind (fi_Resource input) = ref_Kind (fe_Resource e) \<and>
    rm_Namespace (fi_Resource input) = ref_Namespace (fe_Resource e) \<and>
    rm_Name (fi_Resource input) = ref_Name (fe_Resource e) \<and> rm_UID (fi_Resource input) = ref_UID (fe_Resource e) \<and>
    rm_Labels (fi_Resource input) = Some (fe_Labels e) \<and>
    fi_Namespace input = \<lparr>nm_Name = ref_Namespace (fe_Resource e), nm_Labels = None, nm_Annotations = None\<rparr> \<and>
    fi_Owners input = []"
proof -
  have "sound_submission (enabled_detectors cfg) (e, input)" by (rule replica_submission [OF assms])
  then have s: "fe_DetectorName e \<in> set (enabled_detectors cfg)" "(fe_DetectorName e, ref_Kind (fe_Resource e)) \<in> set kinds"
    "input = annotate_input (rm_Annotations (fi_Resource input)) (bridge_input (e\<lparr>fe_Annotations := []\<rparr>))"
    by (simp_all add: sound_submission_def)
  obtain as where "input = annotate_input as (bridge_input (e\<lparr>fe_Annotations := []\<rparr>))" using s(3) by blast
  then show ?thesis using s(1,2) by (simp add: kinds_def annotate_input_def bridge_input_def)
qed

lemma index_events_none: "(\<And>e. e \<in> set es \<Longrightarrow> \<not> P e) \<Longrightarrow> index_events P key es = []"
  by (induction es rule: rev_induct) (simp_all add: index_events_def)

lemma group_events_none: "(\<And>e. e \<in> set es \<Longrightarrow> \<not> P e) \<Longrightarrow> group_events P key es = []"
  by (induction es rule: rev_induct) (simp_all add: group_events_def)

definition only_rules :: "string list \<Rightarrow> eval_state \<Rightarrow> bool" where
  "only_rules rules st \<longleftrightarrow> list_all (\<lambda>se. List.member rules (se_CorrelationRule se)) (fst st)"

lemma emit_group_only:
  assumes "only_rules rules st" "rule \<in> set rules"
  shows "only_rules rules (emit_group env rule p evs st)"
proof (cases "NewSuperEvent (fst (env (snd (snd st)))) (snd (env (snd (snd st)))) rule p evs")
  case (Inr se)
  then have "se_CorrelationRule se = rule" by (auto simp: NewSuperEvent_def split: if_splits sum.splits)
  then show ?thesis using assms Inr by (simp add: only_rules_def emit_group_def split_beta)
qed (use assms in \<open>simp add: only_rules_def emit_group_def split_beta\<close>)

lemma rule_step_only:
  assumes "only_rules rules st" "\<And>consumed n. only_rules rules (rule consumed n)"
  shows "only_rules rules (rule_step en rule st)"
  using assms by (auto simp: only_rules_def rule_step_def split_beta)

lemma rollout_only: "only_rules [''DeploymentRollout'', ''NamespaceStorm''] (evaluateDeploymentRollout cfg env ord events consumed n)"
  unfolding evaluateDeploymentRollout_def Let_def
  by (rule foldl_invariant) (auto simp: only_rules_def [of _ "([], _)"] intro!: emit_group_only split: prod.split)

lemma storm_only: "only_rules [''DeploymentRollout'', ''NamespaceStorm''] (evaluateNamespaceStorm cfg env ord events consumed n)"
  unfolding evaluateNamespaceStorm_def Let_def
  by (rule foldl_invariant) (auto simp: only_rules_def [of _ "([], _)"] intro!: emit_group_only split: prod.split)

lemma foldl_ignore: "foldl (\<lambda>st (k, v). st) st xs = st"
  by (induction xs) auto

lemma sound_no_cascade:
  assumes "\<And>e. e \<in> set events \<Longrightarrow> fe_DetectorName e \<noteq> ''NodeNotReady'' \<and> annotation pvcAnnotationKey e = []"
  shows "evaluateNodeCascade cfg env ord events consumed n = ([], consumed, n)"
    "evaluateStorageCascade env ord' events consumed n = ([], consumed, n)"
proof -
  have "index_events (is_node_event consumed) key events = []" for key :: "FaultEvent \<Rightarrow> string"
    using assms by (intro index_events_none) (auto simp: is_node_event_def)
  then show "evaluateNodeCascade cfg env ord events consumed n = ([], consumed, n)"
    by (simp add: evaluateNodeCascade_def)
  have "group_events (\<lambda>e. is_pod_with pvcAnnotationKey consumed e \<and> Q e) key events = []"
    for Q and key :: "FaultEvent \<Rightarrow> string \<times> string"
    using assms by (intro group_events_none) (auto simp: is_pod_with_def)
  then show "evaluateStorageCascade env ord' events consumed n = ([], consumed, n)"
    by (simp add: evaluateStorageCascade_def Let_def map_get_def foldl_ignore)
qed

text \<open>
  C15. No window over the bridge's events gives a NodeCascade or a StorageCascade super-event, whatever is enabled: the
  bridge has no node detector and never annotates a pod with its claim. Only deployment rollouts and namespace storms
  are correlated.
\<close>

theorem cascades_never_fire:
  assumes "newDetectorBridge cfg = Inr (re_bridge r)" "set events \<subseteq> fst ` set (snd (replica_run es r))"
  shows "evaluateNodeCascade ncfg env ord events consumed n = ([], consumed, n) \<and>
    evaluateStorageCascade env ord' events consumed n = ([], consumed, n) \<and>
    list_all (\<lambda>se. se_CorrelationRule se = ''DeploymentRollout'' \<or> se_CorrelationRule se = ''NamespaceStorm'')
      (cr_SuperEvents (evaluate ccfg env os events))"
proof -
  obtain b where b: "newDetectorBridge cfg = Inr b" "bridge_ok b" "on b = enabled_detectors cfg"
    using newDetectorBridge_total [of cfg] by blast
  then have "list_all (sound_submission (enabled_detectors cfg)) (snd (replica_run es r))"
    using assms(1) replica_run_sound [of r es] by (simp add: sound_result_def)
  then have ev: "fe_DetectorName e \<noteq> ''NodeNotReady'' \<and> annotation pvcAnnotationKey e = []" if "e \<in> set events" for e
    using assms(2) that by (fastforce simp: list_all_iff sound_submission_def kinds_def)
  note no = sound_no_cascade [OF ev]
  have empty: "only_rules [''DeploymentRollout'', ''NamespaceStorm''] ([], c, m)" for c m by (simp add: only_rules_def)
  have "only_rules [''DeploymentRollout'', ''NamespaceStorm'']
     (rule_step d (evaluateNamespaceStorm (rc_NamespaceStorm (cc_Rules ccfg)) env (ord_ns os) events)
       (rule_step c (evaluateStorageCascade env (ord_pvc os) events)
       (rule_step b (evaluateDeploymentRollout (rc_DeploymentRollout (cc_Rules ccfg)) env (ord_deploy os) events)
       (rule_step a (evaluateNodeCascade (rc_NodeCascade (cc_Rules ccfg)) env (ord_node os) events) ([], [], 0)))))"
    for a b c d
    by (intro rule_step_only empty rollout_only storm_only) (simp_all only: no empty)
  then show ?thesis using no by (simp add: evaluate_def only_rules_def Let_def split_beta list_all_iff)
qed

section \<open>Owners\<close>

text \<open>The name a deployment gives its replica set: its own name, a hyphen and the hash of the pod template.\<close>

definition replicaset_name :: "string \<Rightarrow> string \<Rightarrow> string" where
  "replicaset_name deployment template_hash = deployment @ ''-'' @ template_hash"

lemma last_index_none: "c \<notin> set s \<Longrightarrow> last_index c s = None"
  by (induction s) auto

lemma last_index_last: "c \<notin> set s \<Longrightarrow> last_index c (p @ c # s) = Some (length p)"
  by (induction p) (simp_all add: last_index_none)

lemma owner_deployment_skip:
  "\<forall>ref \<in> set refs. or_Kind ref \<noteq> ''ReplicaSet'' \<Longrightarrow> owner_deployment (refs @ rest) = owner_deployment rest"
  by (induction refs) auto

text \<open>
  C24. From a pod owned by a deployment's replica set the bridge recovers the deployment's name, also when that name
  contains hyphens, whatever other owners stand before and after it.
\<close>

theorem owner_deployment_roundtrip:
  assumes "pod_OwnerReferences pod = others @ ref # rest"
    and "or_Kind ref = ''ReplicaSet''" "or_Name ref = replicaset_name deployment template_hash"
    and "deployment \<noteq> []" "CHR ''-'' \<notin> set template_hash" "\<forall>x \<in> set others. or_Kind x \<noteq> ''ReplicaSet''"
  shows "resolveOwnerDeployment pod = deployment"
proof -
  have "last_index (CHR ''-'') (or_Name ref) = Some (length deployment)"
    using last_index_last [OF assms(5)] by (simp add: assms(3) replicaset_name_def)
  moreover obtain k where "length deployment = Suc k" using assms(4) by (cases deployment) auto
  ultimately have "owner_deployment (ref # rest) = take (length deployment) (or_Name ref)"
    using assms(2) by simp
  then show ?thesis
    using owner_deployment_skip [OF assms(6)] by (simp add: resolveOwnerDeployment_def assms(1,3) replicaset_name_def)
qed

lemma owner_deployment_roundtrip_witness:
  "resolveOwnerDeployment \<lparr>pod_Name = ''p'', pod_Namespace = ''n'', pod_UID = ''u'', pod_Labels = None,
     pod_Annotations = None, pod_CreationTimestamp = 0,
     pod_OwnerReferences = [\<lparr>or_Kind = ''Node'', or_Name = ''x-y''\<rparr>, \<lparr>or_Kind = ''ReplicaSet'', or_Name = ''web-api-5d9''\<rparr>],
     pod_NodeName = [], pod_Phase = ''Running'', pod_ContainerStatuses = [], pod_InitContainerStatuses = []\<rparr> = ''web-api''"
  by (rule owner_deployment_roundtrip [where ref = "\<lparr>or_Kind = ''ReplicaSet'', or_Name = ''web-api-5d9''\<rparr>" and
      others = "[\<lparr>or_Kind = ''Node'', or_Name = ''x-y''\<rparr>]" and
      template_hash = "''5d9''" and rest = "[]"]) (simp_all add: replicaset_name_def)

section \<open>Which informers are wired\<close>

lemma wire_loop_wired:
  "set (br_wiredNamespaces (fst (wire_loop im nss (b, w)))) =
     set (br_wiredNamespaces b) \<union> (set nss \<inter> watched im)"
proof (induction nss arbitrary: b w)
  case (Cons ns nss)
  have "GetInformerFactory im ns = None \<longleftrightarrow> ns \<notin> watched im" by (auto simp: GetInformerFactory_def watched_def)
  then show ?case using Cons by (auto split: option.split)
qed simp

lemma BridgeHandle_wired:
  "set (br_wiredNamespaces (fst (BridgeHandleShardChange im added removed (b, w)))) =
     set (br_wiredNamespaces b) - set removed \<union> (set added \<inter> watched im)"
  by (auto simp: BridgeHandleShardChange_def wire_loop_wired)

definition in_step :: "replica \<Rightarrow> bool" where
  "in_step r \<longleftrightarrow> im_stopped (re_informers r) \<or> set (br_wiredNamespaces (re_bridge r)) = watched (re_informers r)"

lemma checks_wired [simp]:
  "br_wiredNamespaces (fst (checkPod cl pod b)) = br_wiredNamespaces b"
  "br_wiredNamespaces (fst (checkPVC c pvc b)) = br_wiredNamespaces b"
  "br_wiredNamespaces (fst (checkJob c job b)) = br_wiredNamespaces b"
  by (cases cl, simp add: checkPod_def Let_def split_beta)
    (simp_all add: checkPVC_def checkJob_def Let_def split_beta)

lemma scan_pods_wired: "br_wiredNamespaces (fst (scan_pods pods b)) = br_wiredNamespaces b"
proof (induction pods arbitrary: b)
  case (Cons p pods)
  then show ?case by (cases p) (simp add: split_beta)
qed simp

lemma scan_pvcs_wired: "br_wiredNamespaces (fst (scan_pvcs pvcs b)) = br_wiredNamespaces b"
proof (induction pvcs arbitrary: b)
  case (Cons p pvcs)
  then show ?case by (cases p) (simp add: split_beta)
qed simp

lemma scan_namespaces_wired:
  assumes "\<And>objects b. br_wiredNamespaces (fst (scan objects b)) = br_wiredNamespaces b"
  shows "br_wiredNamespaces (fst (scan_namespaces scan lister im nss b)) = br_wiredNamespaces b"
  by (induction nss arbitrary: b) (simp_all add: split_beta assms split: option.split sum.split)

lemma scan_wired [simp]:
  "br_wiredNamespaces (fst (scanPendingPods ord pods im b)) = br_wiredNamespaces b"
  "br_wiredNamespaces (fst (scanPendingPVCs ord' pvcs im b)) = br_wiredNamespaces b"
  by (simp_all add: scanPendingPods_def scanPendingPVCs_def scan_namespaces_wired scan_pods_wired scan_pvcs_wired)

lemma on_bridge_frame [simp]:
  "re_informers (fst (on_bridge f r)) = re_informers r" "re_go (fst (on_bridge f r)) = re_go r"
  "re_bridge (fst (on_bridge f r)) = fst (f (re_bridge r))"
  by (simp_all add: on_bridge_def split_beta)

lemma in_step_step: "in_step r \<Longrightarrow> in_step (fst (replica_step e r))"
proof (cases e)
  case (ShardChanged added removed)
  assume i: "in_step r"
  obtain im w where h: "HandleShardChange added removed (re_informers r, re_go r) = (im, w)" by fastforce
  obtain b w' where bh: "BridgeHandleShardChange im added removed (re_bridge r, w) = (b, w')" by fastforce
  show ?thesis
  proof (cases "im_stopped (re_informers r)")
    case True
    then show ?thesis using HandleShardChange_simps(1) [of added removed "(re_informers r, re_go r)"]
      by (simp add: in_step_def ShardChanged h bh)
  next
    case False
    then have "watched im = watched (re_informers r) - set removed \<union> set added"
      using HandleShardChange_simps(2) [of "(re_informers r, re_go r)" added removed] by (simp add: h)
    moreover have "set (br_wiredNamespaces b) = set (br_wiredNamespaces (re_bridge r)) - set removed \<union> (set added \<inter> watched im)"
      using BridgeHandle_wired [of im added removed "re_bridge r" w] by (simp add: bh)
    ultimately show ?thesis using i False by (auto simp: in_step_def ShardChanged h bh)
  qed
qed (simp_all add: in_step_def StopInformers_def)

text \<open>
  As long as the informers are not stopped, the namespaces the bridge has wired are exactly those with an informer
  factory, after any sequence of shard changes, events and scans.
\<close>

theorem bridge_wires_watched:
  assumes "im_factories (re_informers r) = []" "br_wiredNamespaces (re_bridge r) = []"
    and "r' = fst (replica_run es r)" "\<not> im_stopped (re_informers r')"
  shows "set (br_wiredNamespaces (re_bridge r')) = watched (re_informers r')"
proof -
  have "in_step r" using assms(1,2) by (simp add: in_step_def watched_def)
  from replica_invariant [of in_step, OF this in_step_step, of es] show ?thesis
    using assms(3,4) by (simp add: in_step_def)
qed

section \<open>Which informers are ever stopped\<close>

fun first_start :: "informer_call list \<Rightarrow> nat \<Rightarrow> nat option" where
  "first_start [] f = None"
| "first_start (StartFactory g ch # cs) f = (if g = f then Some ch else first_start cs f)"
| "first_start (_ # cs) f = first_start cs f"

text \<open>
  The stop channel of an informer: the one the factory is started with first after the informer was requested; later
  starts leave a running informer alone.
\<close>

fun stop_channel :: "informer_call list \<Rightarrow> nat \<Rightarrow> resource_kind \<Rightarrow> nat option" where
  "stop_channel [] f k = None"
| "stop_channel (c # cs) f k = (if c = AddEventHandler f k then first_start cs f else stop_channel cs f k)"

lemma first_start_append: "first_start xs f = Some ch \<Longrightarrow> first_start (xs @ ys) f = Some ch"
  by (induction xs f rule: first_start.induct) auto

lemma stop_channel_append: "stop_channel xs f k = Some ch \<Longrightarrow> stop_channel (xs @ ys) f k = Some ch"
  by (induction xs) (auto simp: first_start_append)

lemma stop_channel_new:
  "AddEventHandler f k \<notin> set xs \<Longrightarrow> stop_channel (xs @ [AddEventHandler f k, StartFactory f ch]) f k = Some ch"
  by (induction xs) auto

definition handlers :: "client_go \<Rightarrow> (nat \<times> resource_kind) set" where
  "handlers w = {(f, k). AddEventHandler f k \<in> set (go_calls w)}"

definition contexts :: "InformerManager \<times> client_go \<Rightarrow> nat set" where
  "contexts s = cancelled (snd s) \<union> open_contexts (fst s)"

text \<open>What the informer manager's operations do to the calls.\<close>

definition manager_grows :: "InformerManager \<times> client_go \<Rightarrow> InformerManager \<times> client_go \<Rightarrow> bool" where
  "manager_grows s s' \<longleftrightarrow> go_next (snd s) \<le> go_next (snd s') \<and> (\<exists>cs. go_calls (snd s') = go_calls (snd s) @ cs) \<and>
     handlers (snd s') = handlers (snd s) \<and>
     contexts s' \<subseteq> contexts s \<union> {go_next (snd s)..<go_next (snd s')}"

lemma manager_grows_refl [simp]: "manager_grows s s"
  by (simp add: manager_grows_def)

lemma manager_grows_trans: "manager_grows s s1 \<Longrightarrow> manager_grows s1 s2 \<Longrightarrow> manager_grows s s2"
  unfolding manager_grows_def by fastforce

lemma open_contexts_put: "open_contexts (im\<lparr>im_factories := map_put ns e (im_factories im)\<rparr>) \<subseteq> insert (nie_cancel e) (open_contexts im)"
  by (auto simp: open_contexts_def ran_def)

lemma open_contexts_delete: "open_contexts (im\<lparr>im_factories := map_delete ns (im_factories im)\<rparr>) \<subseteq> open_contexts im"
  by (auto simp: open_contexts_def ran_def split: if_splits)

lemma startFactory_grows: "manager_grows (im, w) (startFactory ns (im, w))"
proof -
  let ?f = "go_next w" and ?ctx = "go_next w + 1"
  have "cancelled (snd (startFactory ns (im, w))) = cancelled w"
    by (simp add: startFactory_def Let_def)
  moreover have "open_contexts (fst (startFactory ns (im, w))) \<subseteq> insert ?ctx (open_contexts im)"
    by (auto simp: startFactory_def Let_def dest: subsetD [OF open_contexts_put])
  moreover have "handlers (snd (startFactory ns (im, w))) = handlers w"
    by (auto simp: startFactory_def handlers_def do_calls_def Let_def)
  moreover have "go_next w + 2 \<le> go_next (snd (startFactory ns (im, w)))" "\<exists>cs. go_calls (snd (startFactory ns (im, w))) = go_calls w @ cs"
    by (simp_all add: startFactory_def do_calls_def Let_def)
  ultimately show ?thesis by (auto simp: manager_grows_def contexts_def)
qed

lemma remove_loop_grows: "manager_grows s (remove_loop nss s)"
proof (induction nss s rule: remove_loop.induct)
  case (2 ns nss im w)
  have "manager_grows (im, w) (im\<lparr>im_factories := map_delete ns (im_factories im)\<rparr>, do_calls [CancelContext (nie_cancel e)] w)"
    if "map_of (im_factories im) ns = Some e" for e
  proof -
    have "nie_cancel e \<in> open_contexts im" using that by (auto simp: open_contexts_def ran_def)
    then show ?thesis
      by (auto simp: manager_grows_def contexts_def handlers_def do_calls_def cancelled_def dest: subsetD [OF open_contexts_delete])
  qed
  from manager_grows_trans [OF this] 2 show ?case by (auto split: option.split)
qed simp

lemma add_loop_grows: "manager_grows s (add_loop nss s)"
proof (induction nss s rule: add_loop.induct)
  case (2 ns nss im w)
  then show ?case using manager_grows_trans [OF startFactory_grows [of im w ns]] by (cases "has_key (im_factories im) ns") simp_all
qed simp

lemma HandleShardChange_grows: "manager_grows s (HandleShardChange added removed s)"
  using manager_grows_trans [OF remove_loop_grows add_loop_grows] by (simp add: HandleShardChange_def)

lemma StopInformers_grows: "manager_grows s (StopInformers ord s)"
proof (cases s)
  case (Pair im w)
  have "nie_cancel e \<in> open_contexts im" if "(ns, e) \<in> set (range_map ord (im_factories im))" for ns e
    using range_map_has_key [OF that] by (auto simp: open_contexts_def ran_def)
  then show ?thesis
    by (auto simp: Pair StopInformers_def manager_grows_def contexts_def handlers_def do_calls_def cancelled_def open_contexts_def)
qed

definition never_stopped :: "InformerManager \<times> client_go \<Rightarrow> bool" where
  "never_stopped s \<longleftrightarrow> (\<forall>ch \<in> contexts s. ch < go_next (snd s)) \<and>
     (\<forall>(f, k) \<in> handlers (snd s). \<exists>ch < go_next (snd s). stop_channel (go_calls (snd s)) f k = Some ch \<and>
        ch \<notin> contexts s)"

lemma never_stopped_manager:
  assumes "never_stopped (im, w)" "manager_grows (im, w) (im', w')"
  shows "never_stopped (im', w')"
proof -
  obtain cs where cs: "go_calls w' = go_calls w @ cs" using assms(2) by (auto simp: manager_grows_def)
  have "\<exists>ch < go_next w'. stop_channel (go_calls w') f k = Some ch \<and> ch \<notin> contexts (im', w')"
    if h: "(f, k) \<in> handlers w'" for f k
  proof -
    have "(f, k) \<in> handlers w" using h assms(2) by (simp add: manager_grows_def)
    then obtain ch where "ch < go_next w" "stop_channel (go_calls w) f k = Some ch" "ch \<notin> contexts (im, w)"
      using assms(1) by (auto simp: never_stopped_def)
    then show ?thesis using assms(2) stop_channel_append [of "go_calls w" f k ch cs]
      by (intro exI [of _ ch]) (auto simp: manager_grows_def cs)
  qed
  then show ?thesis using assms by (fastforce simp: never_stopped_def manager_grows_def)
qed

lemma never_stopped_handler:
  assumes "never_stopped (im, w)"
  shows "never_stopped (im, add_handler f k w)"
proof -
  let ?w = "add_handler f k w"
  have w: "go_next ?w = go_next w + 1" "go_calls ?w = go_calls w @ [AddEventHandler f k, StartFactory f (go_next w)]"
    "contexts (im, ?w) = contexts (im, w)" "handlers ?w = insert (f, k) (handlers w)"
    by (auto simp: add_handler_def do_calls_def contexts_def cancelled_def handlers_def)
  have old: "\<exists>ch < go_next w. stop_channel (go_calls w) g j = Some ch \<and> ch \<notin> contexts (im, w)" if "(g, j) \<in> handlers w" for g j
    using assms that by (auto simp: never_stopped_def)
  have lt: "\<forall>ch \<in> contexts (im, w). ch < go_next w" using assms by (simp add: never_stopped_def)
  have "\<exists>ch < go_next w + 1. stop_channel (go_calls ?w) g j = Some ch \<and> ch \<notin> contexts (im, w)"
    if "(g, j) \<in> insert (f, k) (handlers w)" for g j
  proof (cases "(g, j) \<in> handlers w")
    case True
    then show ?thesis using old [OF True] stop_channel_append by (fastforce simp: w(2))
  next
    case False
    then have "(g, j) = (f, k)" "AddEventHandler f k \<notin> set (go_calls w)" using that by (auto simp: handlers_def)
    then show ?thesis using lt stop_channel_new by (intro exI [of _ "go_next w"]) (auto simp: w(2))
  qed
  then show ?thesis using lt unfolding never_stopped_def snd_conv w by fastforce
qed

lemma never_stopped_wire:
  "never_stopped (im, w) \<Longrightarrow>
   never_stopped (im, snd (wire_loop im nss (b, w)))"
proof (induction nss arbitrary: b w)
  case Nil
  then show ?case by simp
next
  case (Cons ns nss)
  have opt: "never_stopped (im, (if c then add_handler f k w else w))"
    if "never_stopped (im, w)" for c f k w
    using that never_stopped_handler by simp
  have "never_stopped (im, wireNamespace f b w)" for f
    unfolding wireNamespace_def Let_def by (intro opt Cons.prems)
  then show ?case using Cons by (auto split: option.split)
qed

lemma never_stopped_step:
  assumes "never_stopped (re_informers r, re_go r)"
  shows "never_stopped (re_informers (fst (replica_step e r)), re_go (fst (replica_step e r)))"
proof (cases e)
  case (ShardChanged added removed)
  obtain im w where h: "HandleShardChange added removed (re_informers r, re_go r) = (im, w)" by fastforce
  have "never_stopped (im, w)"
    using never_stopped_manager [OF assms, of im w] HandleShardChange_grows by (simp flip: h)
  then show ?thesis
    using never_stopped_wire by (simp add: ShardChanged h BridgeHandleShardChange_def split_beta)
next
  case (InformersStopped ord)
  obtain im w where h: "StopInformers ord (re_informers r, re_go r) = (im, w)" by fastforce
  show ?thesis
    using never_stopped_manager [OF assms, of im w] StopInformers_grows by (simp add: InformersStopped h) (simp flip: h)
qed (use assms in simp_all)

text \<open>
  C10. The informers the bridge wires are never told to stop: whatever happens afterwards, be it that the namespace is
  taken away or that the informer manager stops, the stop channel of every wired informer is one that no
  cancelled context closes.
\<close>

theorem wired_informers_never_stop:
  assumes "im_factories (re_informers r) = []" "go_calls (re_go r) = []"
    and "r' = fst (replica_run es r)" "AddEventHandler f k \<in> set (go_calls (re_go r'))"
  shows "\<exists>ch. stop_channel (go_calls (re_go r')) f k = Some ch \<and> CancelContext ch \<notin> set (go_calls (re_go r'))"
proof -
  have "never_stopped (re_informers r, re_go r)"
    using assms(1,2) by (simp add: never_stopped_def contexts_def handlers_def cancelled_def open_contexts_def)
  from replica_invariant [of "\<lambda>r. never_stopped (re_informers r, re_go r)", OF this never_stopped_step, of es]
  have "never_stopped (re_informers r', re_go r')" by (simp add: assms(3))
  moreover have "(f, k) \<in> handlers (re_go r')" using assms(4) by (simp add: handlers_def)
  ultimately obtain ch where "stop_channel (go_calls (re_go r')) f k = Some ch" "ch \<notin> contexts (re_informers r', re_go r')"
    unfolding never_stopped_def by fastforce
  then show ?thesis by (simp add: contexts_def cancelled_def)
qed

section \<open>The periodic scan\<close>

definition reports :: "string \<Rightarrow> submissions \<Rightarrow> bool" where
  "reports uid subs \<longleftrightarrow>
     list_ex (\<lambda>(e, input). fe_DetectorName e = ''PodStuckPending'' \<and> ref_UID (fe_Resource e) = uid) subs"

definition listed_ok :: "(Pod \<times> gotime \<times> readings) list \<Rightarrow> bool" where
  "listed_ok pods \<longleftrightarrow> list_all (\<lambda>(pod, now, rd). pod_Name pod \<noteq> [] \<and> r_rand rd \<noteq> None) pods"

lemma callback_same [simp]:
  "fe_DetectorName (fst (bridge_callback cache e)) = fe_DetectorName e"
  "fe_Resource (fst (bridge_callback cache e)) = fe_Resource e"
  by (simp_all add: bridge_callback_def Let_def split: option.split cached_object.split)

text \<open>
  A detector that may not have fired for the object since its state \<open>d0\<close>: same configuration and same last firing.
\<close>

definition untouched :: "string \<Rightarrow> PodStuckPending \<Rightarrow> PodStuckPending \<Rightarrow> bool" where
  "untouched uid d0 d \<longleftrightarrow> psp_threshold d = psp_threshold d0 \<and> bd_wf (psp_base d) \<and>
     bd_name (psp_base d) = ''PodStuckPending'' \<and> bd_cooldown (psp_base d) = bd_cooldown (psp_base d0) \<and>
     last_fired_uid (psp_base d) uid = last_fired_uid (psp_base d0) uid"

lemma RecordFire_wf: "bd_wf b \<Longrightarrow> bd_wf (RecordFire now b r)"
  by (simp add: bd_wf_def RecordFire_def)

lemma check_reports_or_untouched:
  assumes "untouched uid d0 d" "pod_Name pod \<noteq> []" "r_rand rd \<noteq> None"
    and r: "run_check PodStuckPending_Check (Some d) (toPendingState pod) (now, rd) = (d', es)"
  shows "reports uid (map (bridge_callback cache) es) \<or> (\<exists>d1. d' = Some d1 \<and> untouched uid d0 d1)"
    "pod_UID pod = uid \<Longrightarrow> pod_Phase pod = ''Pending'' \<Longrightarrow> psp_threshold d0 \<le> time_Sub now (pod_CreationTimestamp pod) \<Longrightarrow>
       ShouldFire (r_check rd) (psp_base d0) (psp_ref (toPendingState pod)) \<Longrightarrow> reports uid (map (bridge_callback cache) es)"
proof -
  let ?s = "toPendingState pod"
  let ?fires = "ps_Phase ?s = ''Pending'' \<and> \<not> time_Sub now (ps_CreationTimestamp ?s) < psp_threshold d"
  have wf: "bd_wf (psp_base d)" using assms(1) by (simp add: untouched_def)
  define descr where "descr = ''Pod '' @ ps_Namespace ?s @ ''/'' @ ps_Name ?s @ '' has been Pending for '' @
     duration_String (duration_Round (time_Sub now (ps_CreationTimestamp ?s)) second) @
     '' (threshold: '' @ duration_String (psp_threshold d) @ '')''"
  have chk: "PodStuckPending_Check d (?s, now, rd) =
      (if ?fires then (d\<lparr>psp_base := fst (Emit rd (psp_base d) (psp_ref ?s) descr (ps_Labels ?s) None)\<rparr>,
         snd (Emit rd (psp_base d) (psp_ref ?s) descr (ps_Labels ?s) None)) else (d, None))"
    by (simp add: PodStuckPending_Check_def Let_def psp_ref_def split_beta descr_def)
  have d': "d' = Some (fst (PodStuckPending_Check d (?s, now, rd)))"
    "es = (case snd (PodStuckPending_Check d (?s, now, rd)) of None \<Rightarrow> [] | Some e \<Rightarrow> [e])"
    using r by simp_all
  have uid: "ref_UID (psp_ref ?s) = pod_UID pod" "ref_Kind (psp_ref ?s) \<noteq> []" "ref_Name (psp_ref ?s) = pod_Name pod"
    by (simp_all add: psp_ref_def toPendingState_def)
  have fired: "reports (pod_UID pod) (map (bridge_callback cache) es)"
    if f: "?fires" and sf: "ShouldFire (r_check rd) (psp_base d) (psp_ref ?s)"
  proof -
    have "deliverable rd (psp_base d) (psp_ref ?s)" using sf assms(2,3) by (simp add: deliverable_def uid)
    then obtain e where e: "snd (PodStuckPending_Check d (?s, now, rd)) = Some e"
      using Emit_fires_iff [OF wf, of rd "psp_ref ?s" descr "ps_Labels ?s" None] f by (auto simp: chk)
    have "emitted ''PodStuckPending'' (psp_ref ?s) e"
      using checks_emitted(3) [OF e] assms(1) by (simp add: untouched_def)
    then show ?thesis by (simp add: d'(2) e reports_def emitted_def uid split_beta)
  qed
  show "reports uid (map (bridge_callback cache) es) \<or> (\<exists>d1. d' = Some d1 \<and> untouched uid d0 d1)"
  proof (cases "?fires \<and> ShouldFire (r_check rd) (psp_base d) (psp_ref ?s) \<and> pod_UID pod = uid")
    case True
    then show ?thesis using fired by blast
  next
    case False
    then have "untouched uid d0 (fst (PodStuckPending_Check d (?s, now, rd)))"
      using assms(1) by (auto simp: chk untouched_def Emit_state uid RecordFire_wf)
    then show ?thesis using d'(1) by blast
  qed
  show "reports uid (map (bridge_callback cache) es)"
    if "pod_UID pod = uid" "pod_Phase pod = ''Pending''" "psp_threshold d0 \<le> time_Sub now (pod_CreationTimestamp pod)"
      "ShouldFire (r_check rd) (psp_base d0) (psp_ref ?s)"
  proof -
    have "ShouldFire (r_check rd) (psp_base d) (psp_ref ?s)"
      using that(4) assms(1) by (simp add: ShouldFire_last uid that(1) untouched_def)
    moreover have "?fires" using that(2,3) assms(1) by (simp add: toPendingState_def untouched_def)
    ultimately show ?thesis using fired that(1) by simp
  qed
qed

lemma reports_append [simp]: "reports uid (xs @ ys) \<longleftrightarrow> reports uid xs \<or> reports uid ys"
  by (simp add: reports_def)

text \<open>What a scan does to an object: it reports it, or leaves its detector untouched for it.\<close>

definition spares :: "string \<Rightarrow> PodStuckPending \<Rightarrow> detectorBridge \<times> submissions \<Rightarrow> bool" where
  "spares uid d0 r \<longleftrightarrow> reports uid (snd r) \<or> (\<exists>d. br_stuckPending (fst r) = Some d \<and> untouched uid d0 d)"

definition due :: "string \<Rightarrow> PodStuckPending \<Rightarrow> Pod \<times> gotime \<times> readings \<Rightarrow> bool" where
  "due uid d0 p \<longleftrightarrow> (case p of (pod, now, rd) \<Rightarrow> pod_UID pod = uid \<and> pod_Phase pod = ''Pending'' \<and>
     psp_threshold d0 \<le> time_Sub now (pod_CreationTimestamp pod) \<and>
     ShouldFire (r_check rd) (psp_base d0) (psp_ref (toPendingState pod)))"

lemma scan_pods_spares:
  assumes "br_stuckPending b = Some d" "untouched uid d0 d" "listed_ok pods"
  shows "spares uid d0 (scan_pods pods b) \<and> (list_ex (due uid d0) pods \<longrightarrow> reports uid (snd (scan_pods pods b)))"
  using assms
proof (induction pods arbitrary: b d)
  case (Cons p pods)
  obtain pod now rd where p: "p = (pod, now, rd)" by (cases p)
  have ok: "pod_Name pod \<noteq> []" "r_rand rd \<noteq> None" "listed_ok pods" using Cons.prems(3) by (simp_all add: listed_ok_def p)
  show ?case
  proof (cases "pod_Phase pod = ''Pending''")
    case True
    obtain d' es where r: "run_check PodStuckPending_Check (Some d) (toPendingState pod) (now, rd) = (d', es)" by fastforce
    note c = check_reports_or_untouched [OF Cons.prems(2) ok(1,2) r, of "br_resourceCache b"]
    let ?b = "b\<lparr>br_stuckPending := d'\<rparr>"
    have s: "scan_pods (p # pods) b = (fst (scan_pods pods ?b), map (bridge_callback (br_resourceCache b)) es @ snd (scan_pods pods ?b))"
      using True Cons.prems(1) by (simp add: p r split_beta del: run_check_simps)
    show ?thesis
    proof (cases "reports uid (map (bridge_callback (br_resourceCache b)) es)")
      case True
      then show ?thesis unfolding s by (simp add: spares_def)
    next
      case False
      then obtain d1 where d1: "d' = Some d1" "untouched uid d0 d1" using c(1) by blast
      have "\<not> due uid d0 p" using False c(2) by (auto simp: due_def p)
      moreover have "br_stuckPending ?b = Some d1" by (simp add: d1(1))
      ultimately show ?thesis using Cons.IH [OF _ d1(2) ok(3), of ?b] unfolding s by (simp add: spares_def)
    qed
  next
    case False
    then have "\<not> due uid d0 p" by (simp add: due_def p)
    then show ?thesis using Cons.IH [OF Cons.prems(1,2) ok(3)] False by (simp add: p)
  qed
qed (simp add: spares_def)

lemma scan_namespaces_spares:
  assumes "br_stuckPending b = Some d" "untouched uid d0 d"
    and "\<And>f objects. lister f = Inr objects \<Longrightarrow> listed_ok objects"
    and "ns \<in> set nss" "GetInformerFactory im ns = Some f" "lister f = Inr objects" "list_ex (due uid d0) objects"
  shows "reports uid (snd (scan_namespaces scan_pods lister im nss b))"
  using assms(1,2,4)
proof (induction nss arbitrary: b d)
  case (Cons n nss)
  show ?case
  proof (cases "GetInformerFactory im n")
    case None
    then show ?thesis using Cons.IH [OF Cons.prems(1,2)] Cons.prems(3) assms(5) by auto
  next
    case (Some g)
    show ?thesis
    proof (cases "lister g")
      case (Inl e)
      then show ?thesis using Some Cons.IH [OF Cons.prems(1,2)] Cons.prems(3) assms(5,6) by auto
    next
      case (Inr os)
      note sp = scan_pods_spares [OF Cons.prems(1,2) assms(3) [OF Inr]]
      show ?thesis
      proof (cases "reports uid (snd (scan_pods os b))")
        case True
        then show ?thesis using Some Inr by (simp add: split_beta)
      next
        case False
        then obtain d1 where d1: "br_stuckPending (fst (scan_pods os b)) = Some d1" "untouched uid d0 d1"
          using sp by (auto simp: spares_def)
        have "n \<noteq> ns" using False sp Some Inr assms(5-7) by auto
        then show ?thesis using Cons.IH [OF d1] Cons.prems(3) Some Inr by (simp add: split_beta)
      qed
    qed
  qed
qed simp

text \<open>
  C9. Every pod in a wired namespace that is still pending after the threshold is reported by the next scan, unless
  the cooldown of an earlier report of it has not passed: also when other namespaces cannot be listed, and whatever
  the order in which the namespaces are visited. (The API server gives every object a name, and the random source works.)
\<close>

theorem scan_reports_pending_pods:
  assumes "bridge_ok b" "br_stuckPending b = Some d" "permuting ord" "ns \<in> set (br_wiredNamespaces b)"
    and "GetInformerFactory im ns = Some f" "lister f = Inr objects" "(pod, now, rd) \<in> set objects"
    and "pod_Phase pod = ''Pending''" "psp_threshold d \<le> time_Sub now (pod_CreationTimestamp pod)"
    and "ShouldFire (r_check rd) (psp_base d) (psp_ref (toPendingState pod))"
    and "\<And>f objects. lister f = Inr objects \<Longrightarrow> listed_ok objects"
  shows "\<exists>e input. (e, input) \<in> set (snd (scanPendingPods ord lister im b)) \<and>
    fe_DetectorName e = ''PodStuckPending'' \<and> ref_UID (fe_Resource e) = pod_UID pod"
proof -
  have "untouched (pod_UID pod) d d"
    using bridge_okD(3) [OF assms(1)] assms(2) by (simp add: untouched_def named_def)
  moreover have "ns \<in> set (ord (br_wiredNamespaces b))"
    using assms(3,4) unfolding permuting_def by (metis set_mset_mset)
  moreover have "list_ex (due (pod_UID pod) d) objects"
    using assms(7-10) by (auto simp: list_ex_iff due_def)
  ultimately have "reports (pod_UID pod) (snd (scan_namespaces scan_pods lister im (ord (br_wiredNamespaces b)) b))"
    by (intro scan_namespaces_spares [where d = d and d0 = d and ns = ns and f = f and objects = objects]) (use assms(2,5,6,11) in auto)
  then show ?thesis using assms(2) by (auto simp: scanPendingPods_def reports_def list_ex_iff)
qed

section \<open>Instances\<close>

definition ex_config :: Config where
  "ex_config = Default"

definition ex_crashing :: Pod where
  "ex_crashing = \<lparr>pod_Name = ''web-1'', pod_Namespace = ''shop'', pod_UID = ''u1'', pod_Labels = None,
     pod_Annotations = Some [(''wormsign.io/exclude'', ''true'')], pod_CreationTimestamp = 0,
     pod_OwnerReferences = [\<lparr>or_Kind = ''ReplicaSet'', or_Name = ''web-5d9''\<rparr>], pod_NodeName = ''n1'',
     pod_Phase = ''Pending'', pod_ContainerStatuses = [\<lparr>kcs_Name = ''app'', kcs_RestartCount = 7,
       kcs_Waiting = Some ''CrashLoopBackOff'', kcs_Terminated = None\<rparr>], pod_InitContainerStatuses = []\<rparr>"

definition ex_clock :: "gotime \<times> readings" where
  "ex_clock = (2 * hour, \<lparr>r_check = 2 * hour, r_record = 2 * hour, r_event = 2 * hour, r_rand = Some []\<rparr>)"

definition ex_bridge :: detectorBridge where
  "ex_bridge = (case newDetectorBridge ex_config of Inr b \<Rightarrow> b
     | Inl _ \<Rightarrow> \<lparr>br_crashLoop = None, br_podFailed = None, br_stuckPending = None, br_jobDeadline = None,
         br_pvcStuckBinding = None, br_resourceCache = [], br_wiredNamespaces = []\<rparr>)"

definition ex_replica :: replica where
  "ex_replica = \<lparr>re_informers = ex_informers, re_bridge = ex_bridge, re_go = \<lparr>go_next = 0, go_calls = []\<rparr>\<rparr>"

lemma ex_bridge_new: "newDetectorBridge ex_config = Inr ex_bridge"
  using newDetectorBridge_total [of ex_config] by (auto simp: ex_bridge_def)

lemma ex_bridge_parts:
  "br_crashLoop ex_bridge \<noteq> None" "br_wiredNamespaces ex_bridge = []" "bridge_ok ex_bridge" "on ex_bridge = enabled_detectors ex_config"
  using newDetectorBridge_total [of ex_config] ex_bridge_new
  by (auto simp: on_def enabled_detectors_def ex_config_def Default_def Let_def split: if_splits)

lemma ex_replica_parts [simp]:
  "re_bridge ex_replica = ex_bridge" "im_factories (re_informers ex_replica) = []" "\<not> im_stopped (re_informers ex_replica)"
  "go_calls (re_go ex_replica) = []" "br_wiredNamespaces (re_bridge ex_replica) = []"
  by (simp_all add: ex_replica_def ex_informers_def ex_bridge_parts)

definition ex_base_of :: "string \<Rightarrow> BaseDetector" where
  "ex_base_of name = \<lparr>bd_name = name, bd_severity = SeverityWarning, bd_cooldown = 30 * minute, bd_lastFired = []\<rparr>"

lemma ex_bridge_eval:
  "ex_bridge = \<lparr>br_crashLoop = Some \<lparr>pcl_base = ex_base_of ''PodCrashLoop'', pcl_threshold = 3\<rparr>,
     br_podFailed = Some \<lparr>pf_base = ex_base_of ''PodFailed'', pf_ignoreExitCodes = [(0, True)]\<rparr>,
     br_stuckPending = Some \<lparr>psp_base = ex_base_of ''PodStuckPending'', psp_threshold = 15 * minute\<rparr>,
     br_jobDeadline = None, br_pvcStuckBinding = None, br_resourceCache = [], br_wiredNamespaces = []\<rparr>"
  by (simp add: ex_bridge_def ex_config_def newDetectorBridge_def Default_def create_if_def NewPodCrashLoop_def
      NewPodFailed_def NewPodStuckPending_def with_default_def new_base_def NewBaseDetector_def IsValid_def ValidSeverities_def
      int32_def slice_def minute_def ex_base_of_def Let_def)

definition ex_events :: "bridge_event list" where
  "ex_events = [PodEvent (ex_clock, ex_clock, ex_clock) ex_crashing]"

lemma ex_submission: "\<exists>e input. (e, input) \<in> set (snd (replica_run ex_events ex_replica))"
proof -
  let ?b = "\<lparr>pcl_base = ex_base_of ''PodCrashLoop'', pcl_threshold = 3\<rparr>"
  have "bd_wf (pcl_base ?b)"
    by (simp add: ex_base_of_def bd_wf_def IsValid_def ValidSeverities_def minute_def)
  from crash_loop_fires [OF this, of "snd ex_clock" "toCrashLoopState ex_crashing"
      "map container_state (pod_ContainerStatuses ex_crashing @ pod_InitContainerStatuses ex_crashing)"]
  obtain e where e: "snd (PodCrashLoop_Check ?b (toCrashLoopState ex_crashing, ex_clock)) = Some e"
    by (auto simp: PodCrashLoop_Check_def toCrashLoopState_def ex_crashing_def container_state_def waitingReason_def
        isCrashLooping_def deliverable_def pcs_ref_def ShouldFire_def ex_base_of_def ex_clock_def split_beta simp del: crash_loop.simps)
  have "snd (replica_run ex_events ex_replica) \<noteq> []"
    by (simp add: ex_events_def on_bridge_def checkPod_def ex_bridge_eval e split_beta Let_def)
  then show ?thesis by (cases "snd (replica_run ex_events ex_replica)") auto
qed

lemma bridge_submissions_sound_witness:
  "\<exists>e input. (e, input) \<in> set (snd (replica_run ex_events ex_replica)) \<and>
     fe_DetectorName e \<in> set (enabled_detectors ex_config) \<and> fi_Owners input = []"
proof -
  obtain e input where s: "(e, input) \<in> set (snd (replica_run ex_events ex_replica))" using ex_submission by blast
  have "newDetectorBridge ex_config = Inr (re_bridge ex_replica)" by (simp add: ex_bridge_new)
  from bridge_submissions_sound [OF this s] s show ?thesis by blast
qed

lemma cascades_never_fire_witness:
  "\<forall>ncfg env ord consumed n. evaluateNodeCascade ncfg env ord (map fst (snd (replica_run ex_events ex_replica)))
     consumed n = ([], consumed, n)"
proof (intro allI)
  fix ncfg env ord consumed n
  show "evaluateNodeCascade ncfg env ord (map fst (snd (replica_run ex_events ex_replica))) consumed n = ([], consumed, n)"
    by (rule conjunct1 [OF cascades_never_fire [of ex_config ex_replica _ ex_events]]) (simp_all add: ex_bridge_new)
qed

lemma bridge_wires_watched_witness:
  "set (br_wiredNamespaces (re_bridge (fst (replica_run [ShardChanged [''shop''] []] ex_replica)))) =
   watched (re_informers (fst (replica_run [ShardChanged [''shop''] []] ex_replica)))"
proof (rule bridge_wires_watched [of ex_replica, OF _ _ refl])
  show "\<not> im_stopped (re_informers (fst (replica_run [ShardChanged [''shop''] []] ex_replica)))"
    using HandleShardChange_simps(1) [of "[''shop'']" "[]" "(re_informers ex_replica, re_go ex_replica)"]
    by (simp add: split_beta)
qed (simp_all add: ex_bridge_parts)

lemma wired_informers_never_stop_witness:
  "\<exists>ch. stop_channel (go_calls (re_go (fst (replica_run
       [ShardChanged [''shop''] [], ShardChanged [] [''shop''], InformersStopped id] ex_replica)))) 0 PodInformer = Some ch \<and>
     CancelContext ch \<notin> set (go_calls (re_go (fst (replica_run
       [ShardChanged [''shop''] [], ShardChanged [] [''shop''], InformersStopped id] ex_replica))))"
  by (rule wired_informers_never_stop [of ex_replica, OF _ _ refl])
    (simp_all add: HandleShardChange_def BridgeHandleShardChange_def startFactory_def GetInformerFactory_def wireNamespace_def
      add_handler_def do_calls_def StopInformers_def ex_bridge_eval ex_replica_def ex_informers_def map_delete_def Let_def)

definition ex_watching :: InformerManager where
  "ex_watching = ex_informers\<lparr>im_factories := [(''shop'', \<lparr>nie_factory = 0, nie_metadataFactory = None, nie_cancel = 1\<rparr>)]\<rparr>"

lemma scan_reports_pending_pods_witness:
  "\<exists>e input. (e, input) \<in> set (snd (scanPendingPods id (\<lambda>_. Inr [(ex_crashing, ex_clock)]) ex_watching
       (ex_bridge\<lparr>br_wiredNamespaces := [''shop'']\<rparr>))) \<and>
     fe_DetectorName e = ''PodStuckPending'' \<and> ref_UID (fe_Resource e) = pod_UID ex_crashing"
proof (rule scan_reports_pending_pods)
  show "bridge_ok (ex_bridge\<lparr>br_wiredNamespaces := [''shop'']\<rparr>)" by (simp add: ex_bridge_parts)
  show "br_stuckPending (ex_bridge\<lparr>br_wiredNamespaces := [''shop'']\<rparr>) =
      Some \<lparr>psp_base = ex_base_of ''PodStuckPending'', psp_threshold = 15 * minute\<rparr>" by (simp add: ex_bridge_eval)
  show "GetInformerFactory ex_watching ''shop'' = Some 0" by (simp add: ex_watching_def GetInformerFactory_def)
  show "(ex_crashing, fst ex_clock, snd ex_clock) \<in> set [(ex_crashing, ex_clock)]" by simp
  show "listed_ok objects" if "(\<lambda>_. Inr [(ex_crashing, ex_clock)]) f = Inr objects" for f :: nat and objects
    using that by (auto simp: listed_ok_def ex_crashing_def ex_clock_def)
qed (simp_all add: permuting_def ex_crashing_def ex_clock_def int64_defs duration_defs ShouldFire_def ex_base_of_def)

end
