(* ===== verification/Controller.thy ===== *)
theory Controller
  imports Detector_Bridge Health Sinks Rules_Analyzer
begin

text \<open>
  The controller (\<open>internal/controller/controller.go\<close>), leader election (\<open>internal/controller/leader.go\<close>) and the
  command (\<open>cmd/controller/main.go\<close>): what \<open>Run\<close> builds from the configuration and when that fails, the
  updates of the probes, the callbacks of leader election and the order of the shutdown. The environment variables, the
  host name, the clock, the regular-expression engine and the URL parser are arguments; the elector of
  client-go is the sequence of callbacks it makes before it returns.
\<close>

section \<open>Identity\<close>

text \<open>\<open>os.Hostname\<close> answers a name or fails.\<close>

definition resolveIdentity :: "string \<Rightarrow> string option \<Rightarrow> gotime \<Rightarrow> string" where
  "resolveIdentity pod_name hostname now =
     (if pod_name \<noteq> [] then pod_name
      else case hostname of None \<Rightarrow> ''wormsign-'' @ show_int (UnixNano now) | Some h \<Rightarrow> h)"

definition resolveNamespace :: "string \<Rightarrow> string" where
  "resolveNamespace pod_namespace = (if pod_namespace \<noteq> [] then pod_namespace else ''wormsign-system'')"

section \<open>Leader election\<close>

record LeaderElector =
  el_config :: LeaderElectionConfig
  el_identity :: string
  el_namespace :: string
  el_leaseName :: string
  el_isLeader :: bool
  el_gauge :: nat

definition NewLeaderElector ::
    "bool \<Rightarrow> bool \<Rightarrow> bool \<Rightarrow> LeaderElectionConfig \<Rightarrow> string \<Rightarrow> string option \<Rightarrow> string option \<Rightarrow> string \<Rightarrow> string + LeaderElector" where
  "NewLeaderElector clientset_nil metrics_nil callbacks_nil cfg env_namespace with_identity with_namespace env_identity =
     (if clientset_nil then Inl ''leader: clientset must not be nil''
      else if metrics_nil then Inl ''leader: metrics must not be nil''
      else if callbacks_nil then Inl ''leader: callbacks must not be nil''
      else let identity = (case with_identity of Some i \<Rightarrow> i | None \<Rightarrow> [])
           in Inr \<lparr>el_config = cfg, el_identity = (if identity = [] then env_identity else identity),
                el_namespace = (case with_namespace of Some ns \<Rightarrow> ns | None \<Rightarrow> resolveNamespace env_namespace),
                el_leaseName = ''wormsign-leader'', el_isLeader = False, el_gauge = 0\<rparr>)"

text \<open>
  The callbacks of the controller. A coordinator is started with a context derived from the leadership's; both are
  numbered, and \<open>lc_cancel\<close> is the stored cancel function. A coordinator runs until one of its
  contexts is done.
\<close>

record leader_callbacks =
  lc_cancel :: "nat option"
  lc_next :: nat
  lc_coordinators :: "nat list"
  lc_done :: "nat list"

datatype leader_event = StartedLeading | StoppedLeading | NewLeader string

definition OnStartedLeading :: "leader_callbacks \<Rightarrow> leader_callbacks" where
  "OnStartedLeading cb = cb\<lparr>lc_cancel := Some (lc_next cb), lc_next := lc_next cb + 1,
     lc_coordinators := lc_next cb # lc_coordinators cb\<rparr>"

definition OnStoppedLeading :: "leader_callbacks \<Rightarrow> leader_callbacks" where
  "OnStoppedLeading cb =
     (case lc_cancel cb of
        None \<Rightarrow> cb
      | Some ctx \<Rightarrow> cb\<lparr>lc_cancel := None, lc_done := ctx # lc_done cb\<rparr>)"

definition running_coordinators :: "leader_callbacks \<Rightarrow> nat list" where
  "running_coordinators cb = filter (\<lambda>ctx. \<not> List.member (lc_done cb) ctx) (lc_coordinators cb)"

fun leader_event_step :: "leader_event \<Rightarrow> LeaderElector \<times> leader_callbacks \<Rightarrow> LeaderElector \<times> leader_callbacks" where
  "leader_event_step StartedLeading (el, cb) = (el\<lparr>el_isLeader := True, el_gauge := 1\<rparr>, OnStartedLeading cb)"
| "leader_event_step StoppedLeading (el, cb) = (el\<lparr>el_isLeader := False, el_gauge := 0\<rparr>, OnStoppedLeading cb)"
| "leader_event_step (NewLeader identity) (el, cb) = (el, cb)"

text \<open>
  \<open>Run\<close> creates one client-go elector and runs it once; when the elector returns, so does \<open>Run\<close>. The argument is the
  elector's error or its callbacks.
\<close>

definition LeaderElector_Run ::
    "string + leader_event list \<Rightarrow> LeaderElector \<times> leader_callbacks \<Rightarrow> (LeaderElector \<times> leader_callbacks) \<times> string option" where
  "LeaderElector_Run elector s =
     (case elector of
        Inl err \<Rightarrow> (s, Some err)
      | Inr events \<Rightarrow> (foldl (\<lambda>s e. leader_event_step e s) s events, None))"

section \<open>What Run builds\<close>

datatype controller_error =
    NilOption string
  | AlreadyRunning
  | CannotRestart
  | CreatingFilter filter_error
  | CreatingShardManager string
  | CreatingInformerManager string
  | CreatingSink sink_error
  | CreatingPipeline pipeline_error
  | CreatingBridge detector_error
  | CreatingElector string

record controller_lifecycle =
  cl_running :: bool
  cl_stopped :: bool
  cl_shutdownOrder :: "string list"

definition NewController :: "bool \<Rightarrow> bool \<Rightarrow> bool \<Rightarrow> bool \<Rightarrow> controller_error + controller_lifecycle" where
  "NewController config_nil clientset_nil health_nil metrics_nil =
     (if config_nil then Inl (NilOption ''config'')
      else if clientset_nil then Inl (NilOption ''clientset'')
      else if health_nil then Inl (NilOption ''health handler'')
      else if metrics_nil then Inl (NilOption ''metrics'')
      else Inr \<lparr>cl_running = False, cl_stopped = False, cl_shutdownOrder = []\<rparr>)"

definition Run_enter :: "controller_lifecycle \<Rightarrow> controller_error + controller_lifecycle" where
  "Run_enter c =
     (if cl_running c then Inl AlreadyRunning
      else if cl_stopped c then Inl CannotRestart
      else Inr (c\<lparr>cl_running := True\<rparr>))"

definition Run_exit :: "controller_lifecycle \<Rightarrow> controller_lifecycle" where
  "Run_exit c = c\<lparr>cl_running := False, cl_stopped := True\<rparr>"

definition filter_config :: "Config \<Rightarrow> GlobalFilterConfig" where
  "filter_config cfg = \<lparr>gfc_ExcludeNamespaces = slice (fc_ExcludeNamespaces (cfg_Filters cfg)),
     gfc_ExcludeNamespaceSelector =
       (case fc_ExcludeNamespaceSelector (cfg_Filters cfg) of
          None \<Rightarrow> None
        | Some matchLabels \<Rightarrow> Some \<lparr>ls_MatchLabels = (case matchLabels of None \<Rightarrow> [] | Some m \<Rightarrow> m), ls_MatchExpressions = []\<rparr>)\<rparr>"

definition peerSelector :: string where
  "peerSelector = ''app.kubernetes.io/name=k8s-wormsign,app.kubernetes.io/component=controller''"

definition pipeline_config :: "Config \<Rightarrow> PipelineConfig" where
  "pipeline_config cfg =
     (let rules = ccf_Rules (cfg_Correlation cfg) in
      \<lparr>pc_Workers = \<lparr>wc_Gathering = wk_Gathering (cfg_Workers cfg), wc_Analysis = wk_Analysis (cfg_Workers cfg),
         wc_Sink = wk_Sink (cfg_Workers cfg)\<rparr>,
       pc_Correlation = \<lparr>cc_Enabled = ccf_Enabled (cfg_Correlation cfg), cc_WindowDuration = ccf_WindowDuration (cfg_Correlation cfg),
         cc_Rules = \<lparr>
           rc_NodeCascade = \<lparr>ncc_Enabled = rnc_Enabled (crc_NodeCascade rules), ncc_MinPodFailures = rnc_MinPodFailures (crc_NodeCascade rules)\<rparr>,
           rc_DeploymentRollout = \<lparr>drc_Enabled = rdr_Enabled (crc_DeploymentRollout rules), drc_MinPodFailures = rdr_MinPodFailures (crc_DeploymentRollout rules)\<rparr>,
           rc_StorageCascade = \<lparr>scc_Enabled = rsc_Enabled (crc_StorageCascade rules)\<rparr>,
           rc_NamespaceStorm = \<lparr>nsc_Enabled = rns_Enabled (crc_NamespaceStorm rules), nsc_Threshold = rns_Threshold (crc_NamespaceStorm rules)\<rparr>\<rparr>\<rparr>,
       pc_GatherTimeout = 30 * second, pc_AnalyzeTimeout = 60 * second, pc_SinkTimeout = 30 * second\<rparr>)"

text \<open>The log sink is always there; the two others are created if they are enabled.\<close>

datatype active_sink = ActiveLog | ActiveKubernetesEvent KubernetesEventSink | ActiveWebhook WebhookSink

definition active_sinks ::
    "(string \<Rightarrow> parsed_url option) \<Rightarrow> (string \<Rightarrow> bool) \<Rightarrow> string \<Rightarrow> SinksConfig \<Rightarrow> sink_error + active_sink list" where
  "active_sinks url_parse is_ip hostname s =
     (case NewLogSink True of
        Inl e \<Rightarrow> Inl e
      | Inr _ \<Rightarrow>
      (case (if kec_Enabled (sc_KubernetesEvent s)
             then map_sum id (\<lambda>k. [ActiveKubernetesEvent k])
                    (NewKubernetesEventSink True (slice (kec_SeverityFilter (sc_KubernetesEvent s))) True hostname)
             else Inr []) of
         Inl e \<Rightarrow> Inl e
       | Inr events \<Rightarrow>
       (case (if wsc_Enabled (sc_Webhook s)
              then map_sum id (\<lambda>w. [ActiveWebhook w])
                     (NewWebhookSink url_parse is_ip
                        \<lparr>whc_URL = wsc_URL (sc_Webhook s), whc_Headers = wsc_Headers (sc_Webhook s),
                         whc_SeverityFilter = slice (wsc_SeverityFilter (sc_Webhook s)),
                         whc_AllowedDomains = slice (wsc_AllowedDomains (sc_Webhook s))\<rparr> True)
              else Inr []) of
          Inl e \<Rightarrow> Inl e
        | Inr webhooks \<Rightarrow> Inr (ActiveLog # events @ webhooks))))"

datatype active_analyzer = ActiveRules | ActiveNoop

definition choose_analyzer :: "string \<Rightarrow> active_analyzer" where
  "choose_analyzer backend =
     (if backend = ''rules'' then ActiveRules else if backend = ''noop'' then ActiveNoop else ActiveRules)"

record controller_env =
  ce_identity :: string
  ce_namespace :: string
  ce_hostname :: string
  ce_re_compile :: "string \<Rightarrow> (string \<Rightarrow> bool) option"
  ce_url_parse :: "string \<Rightarrow> parsed_url option"
  ce_is_ip :: "string \<Rightarrow> bool"

record ('g, 's) controller_parts =
  cp_manager :: Manager
  cp_informers :: InformerManager
  cp_sinks :: "active_sink list"
  cp_analyzer :: active_analyzer
  cp_gatherers :: "Gatherer list"
  cp_pipeline :: "('g, 's) Pipeline"
  cp_bridge :: detectorBridge
  cp_elector :: LeaderElector
  cp_health :: Handler

text \<open>
  The initialisation in \<open>Run\<close>, from the filter engine to the leader elector. The callbacks of the shard manager are
  numbered in the order of their registration: the informer manager, the bridge, the readiness probe.
\<close>

definition Run_init ::
    "controller_env \<Rightarrow> Config \<Rightarrow> Handler \<Rightarrow> 'g \<Rightarrow> 's \<Rightarrow> controller_error + ('g, 's) controller_parts" where
  "Run_init E cfg health0 g0 s0 =
     (let health1 = SetAPIServerReachable True health0 in
      case NewEngine (ce_re_compile E) (filter_config cfg) of
        Inl e \<Rightarrow> Inl (CreatingFilter e)
      | Inr engine \<Rightarrow>
      (case NewManager False (ce_namespace E) (ce_identity E) (cfg_ReplicaCount cfg)
             (slice (fc_ExcludeNamespaces (cfg_Filters cfg))) peerSelector of
        Inl e \<Rightarrow> Inl (CreatingShardManager e)
      | Inr manager \<Rightarrow>
      (case NewInformerManager False False (Some (ct_InformerResyncPeriod (cfg_ControllerTuning cfg))) of
        Inl e \<Rightarrow> Inl (CreatingInformerManager e)
      | Inr informers \<Rightarrow>
      (case active_sinks (ce_url_parse E) (ce_is_ip E) (ce_hostname E) (cfg_Sinks cfg) of
        Inl e \<Rightarrow> Inl (CreatingSink e)
      | Inr sinks \<Rightarrow>
      (case NewPipeline (pipeline_config cfg) True True (Some engine) g0 s0 of
        Inl e \<Rightarrow> Inl (CreatingPipeline e)
      | Inr pl \<Rightarrow>
      (case newDetectorBridge cfg of
        Inl e \<Rightarrow> Inl (CreatingBridge e)
      | Inr bridge \<Rightarrow>
      (case NewLeaderElector False False False (cfg_LeaderElection cfg) [] (Some (ce_identity E)) (Some (ce_namespace E)) [] of
        Inl e \<Rightarrow> Inl (CreatingElector e)
      | Inr elector \<Rightarrow> Inr
          \<lparr>cp_manager = OnShardChange (OnShardChange (OnShardChange manager 0) 1) 2, cp_informers = informers,
           cp_sinks = sinks, cp_analyzer = choose_analyzer (ac_Backend (cfg_Analyzer cfg)), cp_gatherers = [],
           cp_pipeline = pl, cp_bridge = bridge, cp_elector = elector,
           cp_health = SetDetectorCount (DetectorCount bridge) (SetInformersSynced True health1)\<rparr>)))))))"

section \<open>The probes while it runs\<close>

text \<open>
  A tick of the heartbeat, a check of the API server, and the callback for a shard change with the answer of the
  cache synchronisation it waits for in the background.
\<close>

datatype health_event = HeartbeatTick gotime | APIServerChecked bool | ShardAdded "string list" | CachesSynced bool

fun health_step :: "health_event \<Rightarrow> Handler \<Rightarrow> Handler" where
  "health_step (HeartbeatTick now) h = UpdateHeartbeat now h"
| "health_step (APIServerChecked reachable) h = SetAPIServerReachable reachable h"
| "health_step (ShardAdded added) h = (if length added = 0 then h else SetInformersSynced False h)"
| "health_step (CachesSynced synced) h = SetInformersSynced synced h"

section \<open>Shutdown\<close>

datatype shutdown_action =
    RecordStage string
  | StopAccepting
  | StopInformerManager
  | FlushCorrelator
  | DrainGathering
  | DrainAnalysis
  | DrainSink
  | ShutDownQueues
  | WaitForWorkers

definition DrainAndShutdown :: "shutdown_action list" where
  "DrainAndShutdown = [FlushCorrelator, DrainGathering, DrainAnalysis, DrainSink, ShutDownQueues, WaitForWorkers]"

definition controller_shutdown :: "shutdown_action list" where
  "controller_shutdown =
     [RecordStage ''detection_stop'', StopAccepting, RecordStage ''informers_stop'', StopInformerManager,
      RecordStage ''correlation_drain'', RecordStage ''gathering_drain'', RecordStage ''analysis_drain'',
      RecordStage ''sink_drain''] @ DrainAndShutdown @ [RecordStage ''done'']"

fun shutdown_action_step :: "controller_lifecycle \<Rightarrow> shutdown_action \<Rightarrow> controller_lifecycle" where
  "shutdown_action_step c (RecordStage stage) = c\<lparr>cl_shutdownOrder := cl_shutdownOrder c @ [stage]\<rparr>"
| "shutdown_action_step c _ = c"

section \<open>The command\<close>

definition envOrDefault :: "string \<Rightarrow> string \<Rightarrow> string" where
  "envOrDefault v defaultVal = (if v \<noteq> [] then v else defaultVal)"

datatype log_handler = TextHandler | JSONHandler

definition buildLogger :: "Config \<Rightarrow> config_error + log_level \<times> log_handler" where
  "buildLogger cfg =
     (case ParseLogLevel (lg_Level (cfg_Logging cfg)) of
        Inl e \<Rightarrow> Inl e
      | Inr level \<Rightarrow> Inr (level, if lg_Format (cfg_Logging cfg) = ''text'' then TextHandler else JSONHandler))"

datatype run_error =
    LoadingConfigFailed config_error
  | ConfiguringLogger config_error
  | BuildingClient string
  | CreatingHealthServer string
  | CreatingController controller_error

datatype run_result = DryRunValid | RunError run_error | Ran "controller_error option"

definition main_run ::
    "(string \<Rightarrow> string + Config) \<Rightarrow> (string \<Rightarrow> bool) \<Rightarrow> config_file \<Rightarrow> bool \<Rightarrow> string option \<Rightarrow>
     (Config \<Rightarrow> controller_error option) \<Rightarrow> run_result" where
  "main_run decode compiles file dryRun client_error controller =
     (case LoadAndValidate decode compiles file of
        Inl e \<Rightarrow> RunError (LoadingConfigFailed e)
      | Inr cfg \<Rightarrow>
      (case buildLogger cfg of
        Inl e \<Rightarrow> RunError (ConfiguringLogger e)
      | Inr logger \<Rightarrow>
          if dryRun then DryRunValid
          else case client_error of
            Some e \<Rightarrow> RunError (BuildingClient e)
          | None \<Rightarrow>
            (case NewServer False (cfg_HealthPort cfg) of
               Inl e \<Rightarrow> RunError (CreatingHealthServer e)
             | Inr port \<Rightarrow>
             (case NewController False False False False of
                Inl e \<Rightarrow> RunError (CreatingController e)
              | Inr c \<Rightarrow> Ran (controller cfg)))))"

definition main_exit :: "run_result \<Rightarrow> nat" where
  "main_exit r = (case r of RunError _ \<Rightarrow> 1 | _ \<Rightarrow> 0)"

section \<open>When the controller starts\<close>

lemma compile_total:
  assumes "\<And>p. compiles p \<Longrightarrow> re_compile (anchored p) \<noteq> None" "\<forall>p \<in> set ps. compiles p"
  shows "\<exists>nps. compileNamespacePatterns re_compile ps = Inr nps"
  using assms(2) by (induction ps) (auto dest!: assms(1))

lemma pipeline_config_valid:
  assumes "Validate compiles c = None"
  shows "ValidatePipelineConfig (pipeline_config c) = map_option CorrelationConfig (ValidateCorrelatorConfig (pc_Correlation (pipeline_config c)))"
  using valid_workers [OF assms] by (simp add: ValidatePipelineConfig_def pipeline_config_def Let_def second_def)

lemma valid_rules:
  assumes "Validate compiles c = None" "ccf_Enabled (cfg_Correlation c)"
  defines "r \<equiv> ccf_Rules (cfg_Correlation c)"
  shows "0 < ccf_WindowDuration (cfg_Correlation c)"
    "\<not> (rnc_Enabled (crc_NodeCascade r) \<and> rnc_MinPodFailures (crc_NodeCascade r) < 1)"
    "\<not> (rdr_Enabled (crc_DeploymentRollout r) \<and> rdr_MinPodFailures (crc_DeploymentRollout r) < 1)"
    "\<not> (rns_Enabled (crc_NamespaceStorm r) \<and> rns_Threshold (crc_NamespaceStorm r) < 1)"
  using Validate_None(3) [OF assms(1)] assms(2) unfolding r_def
  by (simp_all only: validateCorrelation_def Let_def if_False not_True_eq_False first_error_Cons not_le simp_thms)

lemma correlation_valid:
  assumes "Validate compiles c = None" "ccf_Enabled (cfg_Correlation c)"
  shows "ValidateCorrelatorConfig (pc_Correlation (pipeline_config c)) = None"
  using valid_rules [OF assms] by (simp add: ValidateCorrelatorConfig_def pipeline_config_def Let_def)

text \<open>The webhook sink can be created if it has no allow-list, or one that its URL passes.\<close>

definition webhook_allowed :: "controller_env \<Rightarrow> WebhookSinkConfig \<Rightarrow> bool" where
  "webhook_allowed E w \<longleftrightarrow> slice (wsc_AllowedDomains w) = [] \<or>
     (case NewSSRFValidator (slice (wsc_AllowedDomains w)) of
        Inl e \<Rightarrow> False
      | Inr v \<Rightarrow> ValidateURL (ce_url_parse E) (ce_is_ip E) v (wsc_URL w) = None)"

lemma active_sinks_iff:
  assumes "Validate compiles c = None"
  shows "(\<exists>sinks. active_sinks (ce_url_parse E) (ce_is_ip E) (ce_hostname E) (cfg_Sinks c) = Inr sinks) \<longleftrightarrow>
    \<not> wsc_Enabled (sc_Webhook (cfg_Sinks c)) \<or> webhook_allowed E (sc_Webhook (cfg_Sinks c))"
proof -
  have url: "wsc_URL (sc_Webhook (cfg_Sinks c)) \<noteq> []" if "wsc_Enabled (sc_Webhook (cfg_Sinks c))"
    using Validate_None(5) [OF assms] that
    by (simp only: validateSinks_def Let_def first_some_Cons first_error_Cons simp_thms)
  then show ?thesis
    by (cases "wsc_Enabled (sc_Webhook (cfg_Sinks c))"; cases "kec_Enabled (sc_KubernetesEvent (cfg_Sinks c))")
      (simp_all add: active_sinks_def NewLogSink_def NewKubernetesEventSink_def NewWebhookSink_def webhook_allowed_def
        split: sum.split option.split)
qed

lemma Run_init_starts:
  assumes v: "Validate compiles c = None" and ids: "ce_identity E \<noteq> []" "ce_namespace E \<noteq> []"
    and re: "\<And>p. compiles p \<Longrightarrow> ce_re_compile E (anchored p) \<noteq> None"
  shows "(\<exists>parts. Run_init E c h g0 s0 = Inr parts) \<longleftrightarrow>
    1 \<le> cfg_ReplicaCount c \<and>
    (ccf_Enabled (cfg_Correlation c) \<or> ValidateCorrelatorConfig (pc_Correlation (pipeline_config c)) = None) \<and>
    (\<not> wsc_Enabled (sc_Webhook (cfg_Sinks c)) \<or> webhook_allowed E (sc_Webhook (cfg_Sinks c)))"
proof -
  obtain nps where "compileNamespacePatterns (ce_re_compile E) (slice (fc_ExcludeNamespaces (cfg_Filters c))) = Inr nps"
    using compile_total [of compiles "ce_re_compile E", OF re] valid_filters [OF v] by blast
  then obtain e where e: "NewEngine (ce_re_compile E) (filter_config c) = Inr e"
    by (auto simp: NewEngine_def filter_config_def)
  obtain b where b: "newDetectorBridge c = Inr b" using newDetectorBridge_total [of c] by blast
  have m: "(\<exists>m. NewManager False (ce_namespace E) (ce_identity E) (cfg_ReplicaCount c) x peerSelector = Inr m) \<longleftrightarrow> 1 \<le> cfg_ReplicaCount c" for x
    using ids by (auto simp: NewManager_def)
  have p: "(\<exists>pl. NewPipeline (pipeline_config c) True True (Some e) g0 s0 = Inr pl) \<longleftrightarrow>
      ccf_Enabled (cfg_Correlation c) \<or> ValidateCorrelatorConfig (pc_Correlation (pipeline_config c)) = None"
    using correlation_valid [OF v] by (auto simp: NewPipeline_def pipeline_config_valid [OF v] NewCorrelator_def split: option.split)
  have "(\<exists>parts. Run_init E c h g0 s0 = Inr parts) \<longleftrightarrow>
      (\<exists>m. NewManager False (ce_namespace E) (ce_identity E) (cfg_ReplicaCount c)
         (slice (fc_ExcludeNamespaces (cfg_Filters c))) peerSelector = Inr m) \<and>
      (\<exists>sinks. active_sinks (ce_url_parse E) (ce_is_ip E) (ce_hostname E) (cfg_Sinks c) = Inr sinks) \<and>
      (\<exists>pl. NewPipeline (pipeline_config c) True True (Some e) g0 s0 = Inr pl)"
    by (auto simp: Run_init_def e b NewInformerManager_def NewLeaderElector_def Let_def split: sum.splits)
  then show ?thesis unfolding m p active_sinks_iff [OF v] by (simp only: conj_ac)
qed

text \<open>
  C17. A configuration that was loaded and validated starts the controller unless the replica count is not positive,
  correlation is switched off with rule values the correlator rejects all the same, or the webhook's URL does not pass its
  own allow-list: nothing else can fail. (The regular-expression library compiles an anchored pattern whenever it
  compiles the pattern.)
\<close>

theorem loaded_config_starts:
  assumes "LoadAndValidate decode compiles f = Inr c" "ce_identity E \<noteq> []" "ce_namespace E \<noteq> []"
    and "\<And>p. compiles p \<Longrightarrow> ce_re_compile E (anchored p) \<noteq> None"
  shows "(\<exists>parts. Run_init E c h g0 s0 = Inr parts) \<longleftrightarrow>
    1 \<le> cfg_ReplicaCount c \<and>
    (ccf_Enabled (cfg_Correlation c) \<or> ValidateCorrelatorConfig (pc_Correlation (pipeline_config c)) = None) \<and>
    (\<not> wsc_Enabled (sc_Webhook (cfg_Sinks c)) \<or> webhook_allowed E (sc_Webhook (cfg_Sinks c)))"
proof (rule Run_init_starts)
  show "Validate compiles c = None" using LoadAndValidate_Inr [OF assms(1)] by blast
qed (use assms in simp_all)

definition ex_controller_env :: controller_env where
  "ex_controller_env = \<lparr>ce_identity = ''pod-0'', ce_namespace = ''wormsign-system'', ce_hostname = ''host'',
     ce_re_compile = (\<lambda>_. Some (\<lambda>_. False)), ce_url_parse = (\<lambda>_. None), ce_is_ip = (\<lambda>_. False)\<rparr>"

lemma ex_loaded: "LoadAndValidate (\<lambda>_. Inl []) (\<lambda>p. p \<noteq> []) FileMissing = Inr Default"
  using apply_defaults_default default_validates [of "\<lambda>p. p \<noteq> []"]
  by (simp add: LoadAndValidate_def LoadFromFile_def)

lemma ex_started: "\<exists>parts. Run_init ex_controller_env Default h (0 :: nat) (0 :: nat) = Inr parts"
proof -
  have v: "Validate (\<lambda>p. p \<noteq> []) Default = None" by (rule default_validates) simp
  show ?thesis by (subst Run_init_starts [OF v]) (simp_all add: ex_controller_env_def Default_def)
qed

lemma loaded_config_starts_witness: "\<exists>parts. Run_init ex_controller_env Default (NewHandler 0) (0 :: nat) (0 :: nat) = Inr parts"
  by (subst loaded_config_starts [OF ex_loaded]) (simp_all add: ex_controller_env_def Default_def)

lemma ex_bridge_new_replica: "newDetectorBridge ex_config = Inr (re_bridge ex_replica)"
  by (simp add: ex_bridge_new)

section \<open>The filter in the running controller\<close>

lemma selector_dead:
  assumes "NewEngine re_compile (filter_config cfg) = Inr eng"
  shows "\<not> matchesNamespaceLabelSelector eng None" "eng_policies eng = []"
  using assms
  by (auto simp: NewEngine_def filter_config_def matchesNamespaceLabelSelector_def matchesLabelSelector_def
      neq_Nil_conv split: sum.splits option.splits)

text \<open>
  C14. For everything the bridge submits the controller's filter engine decides by three levels only: the namespace
  patterns and the two annotations of the resource. The levels for namespace labels, namespace and owner annotations
  and policies never apply, whatever is configured or annotated, because the bridge passes none of that on and no
  policy is ever set.
\<close>

theorem controller_filter_levels:
  fixes now :: gotime
  assumes "NewEngine re_compile (filter_config cfg) = Inr eng" "newDetectorBridge cfg = Inr (re_bridge r)"
    and "(e, input) \<in> set (snd (replica_run es r))"
  defines "res \<equiv> Evaluate now eng input"
  shows "(fr_Excluded res \<longleftrightarrow>
      matchesGlobalNamespaceExclusion eng (ref_Namespace (fe_Resource e)) \<or>
      isAnnotationTrue (rm_Annotations (fi_Resource input)) AnnotationExclude \<or>
      lists_detector (fe_DetectorName e) (rm_Annotations (fi_Resource input))) \<and>
    fr_Reason res \<in> {[], ReasonNamespaceGlobal, ReasonResourceAnnotation}"
proof -
  let ?as = "rm_Annotations (fi_Resource input)"
  have "sound_submission (enabled_detectors cfg) (e, input)" by (rule replica_submission [OF assms(2,3)])
  then have "input = annotate_input ?as (bridge_input (e\<lparr>fe_Annotations := []\<rparr>))" by (simp add: sound_submission_def)
  then obtain as where i: "input = annotate_input as (bridge_input (e\<lparr>fe_Annotations := []\<rparr>))" by blast
  have ds: "0 < length (getExcludedDetectors as) \<and> containsDetector (getExcludedDetectors as) (fe_DetectorName e) \<longleftrightarrow>
      lists_detector (fe_DetectorName e) as"
    by (auto simp flip: getExcludedDetectors_set)
  show ?thesis
    using selector_dead [OF assms(1)] ds
    by (simp add: res_def i Evaluate_def annotate_input_def bridge_input_def matchesSuppressPolicy_def matchesExcludePolicy_def
        isAnnotationTrue_def excluded_for_def detector_excluded_for_def getOwnerExcludedDetectors_def Let_def)
qed

lemma controller_filter_levels_witness:
  "\<exists>eng e input. NewEngine (ce_re_compile ex_controller_env) (filter_config ex_config) = Inr eng \<and>
     (e, input) \<in> set (snd (replica_run ex_events ex_replica)) \<and>
     fr_Reason (Evaluate 0 eng input) \<in> {[], ReasonNamespaceGlobal, ReasonResourceAnnotation}"
proof -
  obtain e input where s: "(e, input) \<in> set (snd (replica_run ex_events ex_replica))" using ex_submission by blast
  have "\<exists>nps. compileNamespacePatterns (ce_re_compile ex_controller_env) (slice (fc_ExcludeNamespaces (cfg_Filters ex_config))) = Inr nps"
    by (rule compile_total [of "\<lambda>_. True"]) (simp_all add: ex_controller_env_def)
  then obtain eng where g: "NewEngine (ce_re_compile ex_controller_env) (filter_config ex_config) = Inr eng"
    by (auto simp: NewEngine_def filter_config_def)
  from controller_filter_levels [OF g ex_bridge_new_replica s, of 0] g s show ?thesis by blast
qed

section \<open>Readiness\<close>

lemma health_run_count: "hh_detectorCount (foldl (\<lambda>h e. health_step e h) h es) = hh_detectorCount h"
proof (induction es arbitrary: h)
  case (Cons e es)
  then show ?case
    by (cases e) (simp_all add: UpdateHeartbeat_def SetAPIServerReachable_def SetInformersSynced_def)
qed simp

lemma HandleReadyz_code: "sr_Code (HandleReadyz h) = (if ReadyzCheck h = None then 200 else 503)"
  by (simp add: HandleReadyz_def split: option.split)

lemma Run_init_bridge:
  assumes "Run_init E cfg h g0 s0 = Inr parts"
  shows "newDetectorBridge cfg = Inr (cp_bridge parts) \<and>
    cp_health parts = SetDetectorCount (DetectorCount (cp_bridge parts)) (SetInformersSynced True (SetAPIServerReachable True h))"
  using assms by (auto simp: Run_init_def Let_def split: sum.splits)

text \<open>
  C23. When the controller starts it is ready exactly if one of the five detectors of the bridge is enabled; with the
  two node and namespace detectors alone it never becomes ready, whatever the informers and the API server do.
\<close>

theorem readiness_needs_bridge_detector:
  assumes "Run_init E cfg h g0 s0 = Inr parts"
  shows "(ReadyzCheck (cp_health parts) = None \<longleftrightarrow> enabled_detectors cfg \<noteq> []) \<and>
    (enabled_detectors cfg = [] \<longrightarrow>
       sr_Code (HandleReadyz (foldl (\<lambda>h e. health_step e h) (cp_health parts) es)) = 503)"
proof -
  have n: "DetectorCount (cp_bridge parts) = int (length (enabled_detectors cfg))"
    using newDetectorBridge_total [of cfg] Run_init_bridge [OF assms] by auto
  have c: "hh_detectorCount (cp_health parts) = int (length (enabled_detectors cfg))"
    using Run_init_bridge [OF assms] by (simp add: n SetDetectorCount_def)
  have "sr_Code (HandleReadyz (foldl (\<lambda>h e. health_step e h) (cp_health parts) es)) = 503" if "enabled_detectors cfg = []"
    unfolding HandleReadyz_code Readyz_ok_iff health_run_count c using that by simp
  moreover have "ReadyzCheck (cp_health parts) = None \<longleftrightarrow> enabled_detectors cfg \<noteq> []"
    unfolding Readyz_ok_iff c using Run_init_bridge [OF assms]
    by (simp add: SetDetectorCount_def SetInformersSynced_def SetAPIServerReachable_def Suc_le_eq)
  ultimately show ?thesis by blast
qed


lemma readiness_needs_bridge_detector_witness:
  "\<exists>parts. Run_init ex_controller_env Default (NewHandler 0) (0 :: nat) (0 :: nat) = Inr parts \<and> ReadyzCheck (cp_health parts) = None"
proof -
  have "\<exists>parts. Run_init ex_controller_env Default (NewHandler 0) (0 :: nat) (0 :: nat) = Inr parts"
    by (rule ex_started)
  then obtain parts where p: "Run_init ex_controller_env Default (NewHandler 0) (0 :: nat) (0 :: nat) = Inr parts" by blast
  from readiness_needs_bridge_detector [OF this] p show ?thesis by (auto simp: enabled_detectors_def Default_def Let_def)
qed

section \<open>Shutdown\<close>

definition context_done :: "string \<Rightarrow> ctx_env \<Rightarrow> bool" where
  "context_done err cx \<longleftrightarrow> cx_err cx 0 = Some err"

lemma deliver_done:
  assumes "context_done err cx" "rt_maxAttempts cfg = 3"
  shows "deliver_report cfg cx attempt (Some r) = ([], [], Some (CancelledBefore 1 err))"
  using assms by (simp add: deliver_report_def deliverWithRetry_def context_done_def numeral_3_eq_3)

lemma event_loop_done:
  assumes "\<And>i. context_done err (cx i)" "rt_maxAttempts (kes_retryCfg s) = 3"
  shows "event_loop create cx now s r i refs = map (\<lambda>ref. (ref, Some (CancelledBefore 1 err))) refs"
  by (induction refs arbitrary: i) (simp_all add: deliver_done [OF assms])

lemma active_sinks_retry:
  assumes "active_sinks url_parse is_ip hostname s = Inr sinks"
  shows "ActiveWebhook w \<in> set sinks \<Longrightarrow> rt_maxAttempts (wh_retryCfg w) = 3"
    "ActiveKubernetesEvent k \<in> set sinks \<Longrightarrow> rt_maxAttempts (kes_retryCfg k) = 3"
  using assms
  by (auto simp: active_sinks_def NewLogSink_def NewKubernetesEventSink_def NewWebhookSink_def defaultRetryConfig_def
      split: sum.splits if_splits option.splits)

text \<open>
  C16. The controller begins to shut down when its context is done, and the pipeline's workers have a context derived
  from it. So whatever is drained then is lost except for the log: the rules analyzer fails for every bundle, so its
  report is the fallback; the webhook sink posts nothing; and the event sink creates no event for any target.
\<close>

theorem shutdown_drains_nothing:
  assumes "Run_init E cfg h g0 s0 = Inr parts" "\<And>i. context_done err (cx i)"
  shows "(\<forall>w. ActiveWebhook w \<in> set (cp_sinks parts) \<longrightarrow>
      WebhookSink_Deliver marshal http (cx 0) w (Some r) = ([], [], Some (CancelledBefore 1 err))) \<and>
    (\<forall>k. ActiveKubernetesEvent k \<in> set (cp_sinks parts) \<longrightarrow>
      KubernetesEventSink_Deliver create cx now k (Some r) =
        (if targetResources r = [] then None
         else Some (EventsFailed (map (\<lambda>ref. (ref, CancelledBefore 1 err)) (targetResources r)) (length (targetResources r))))) \<and>
    processAnalysisItem ws name t dur item (snd (RulesAnalyzer_Analyze () (Some err, t) (ai_Bundle item))) pl =
      sink_Add ws \<lparr>si_Report = Some (fallback_report name t item (ContextError err))\<rparr>
        (observe [AnalyzerLatency dur, AnalyzerRequestsTotal name ''error''] pl)"
proof (intro conjI allI impI)
  obtain ip hn up where s: "active_sinks up ip hn (cfg_Sinks cfg) = Inr (cp_sinks parts)"
    using assms(1) by (auto simp: Run_init_def Let_def split: sum.splits)
  show "WebhookSink_Deliver marshal http (cx 0) w (Some r) = ([], [], Some (CancelledBefore 1 err))"
    if "ActiveWebhook w \<in> set (cp_sinks parts)" for w
    unfolding WebhookSink_Deliver_def by (rule deliver_done [OF assms(2) active_sinks_retry(1) [OF s that]])
  show "KubernetesEventSink_Deliver create cx now k (Some r) =
        (if targetResources r = [] then None
         else Some (EventsFailed (map (\<lambda>ref. (ref, CancelledBefore 1 err)) (targetResources r)) (length (targetResources r))))"
    if "ActiveKubernetesEvent k \<in> set (cp_sinks parts)" for k
    by (simp add: KubernetesEventSink_Deliver_def event_loop_done [OF assms(2) active_sinks_retry(2) [OF s that]]
        map_filter_def o_def Let_def)
qed (simp add: processAnalysisItem_def RulesAnalyzer_Analyze_def)

lemma shutdown_drains_nothing_witness:
  "\<exists>parts k. Run_init ex_controller_env Default (NewHandler 0) (0 :: nat) (0 :: nat) = Inr parts \<and>
     ActiveKubernetesEvent k \<in> set (cp_sinks parts) \<and>
     KubernetesEventSink_Deliver (\<lambda>_ _ _. None) (\<lambda>_. \<lparr>cx_err = (\<lambda>_. Some ''context canceled''), cx_pause = (\<lambda>_. None)\<rparr>) (\<lambda>_ _. 0) k
       (Some ex_report) \<noteq> None"
proof -
  let ?cx = "\<lambda>i :: nat. \<lparr>cx_err = (\<lambda>_. Some ''context canceled''), cx_pause = (\<lambda>_. None)\<rparr>"
  obtain parts where p: "Run_init ex_controller_env Default (NewHandler 0) (0 :: nat) (0 :: nat) = Inr parts" using ex_started by blast
  have "\<exists>k. ActiveKubernetesEvent k \<in> set (cp_sinks parts)"
    using p by (auto simp: Run_init_def Let_def active_sinks_def NewLogSink_def NewKubernetesEventSink_def Default_def
        split: sum.splits)
  then obtain k where k: "ActiveKubernetesEvent k \<in> set (cp_sinks parts)" by blast
  have c: "context_done ''context canceled'' (?cx i)" for i by (simp add: context_done_def)
  have t: "targetResources ex_report \<noteq> []"
    by (simp add: targetResources_def ex_report_def NewSuperEventDiagnosticBundle_def ref_String_def Let_def)
  show ?thesis
    using shutdown_drains_nothing [OF p c, THEN conjunct2, THEN conjunct1, THEN spec, THEN mp, OF k, of "\<lambda>_ _ _. None" "\<lambda>_ _. 0" ex_report] p k t
    by auto
qed

section \<open>Leadership\<close>

text \<open>
  What client-go documents of one run of its elector: leading starts at most once, and the end of leading is announced
  once, when the run ends.
\<close>

fun is_new_leader :: "leader_event \<Rightarrow> bool" where
  "is_new_leader (NewLeader identity) = True"
| "is_new_leader _ = False"

definition one_term :: "leader_event list \<Rightarrow> bool" where
  "one_term es \<longleftrightarrow> filter (\<lambda>e. \<not> is_new_leader e) es \<in> {[StoppedLeading], [StartedLeading, StoppedLeading]}"

definition no_term :: leader_callbacks where
  "no_term = \<lparr>lc_cancel = None, lc_next = 0, lc_coordinators = [], lc_done = []\<rparr>"

abbreviation leader_run :: "leader_event list \<Rightarrow> LeaderElector \<times> leader_callbacks \<Rightarrow> LeaderElector \<times> leader_callbacks" where
  "leader_run es s \<equiv> foldl (\<lambda>s e. leader_event_step e s) s es"

lemma leader_run_filter: "leader_run es s = leader_run (filter (\<lambda>e. \<not> is_new_leader e) es) s"
proof (induction es arbitrary: s)
  case (Cons e es)
  then show ?case by (cases e; cases s) auto
qed simp

lemma filter_take_prefix: "\<exists>k. filter P (take n xs) = take k (filter P xs)"
proof -
  have "filter P xs = filter P (take n xs) @ filter P (drop n xs)" by (metis append_take_drop_id filter_append)
  then show ?thesis by (intro exI [of _ "length (filter P (take n xs))"]) simp
qed

lemma take_terms:
  assumes "one_term es"
  shows "filter (\<lambda>e. \<not> is_new_leader e) (take n es) \<in> {[], [StartedLeading], [StoppedLeading], [StartedLeading, StoppedLeading]}"
proof -
  obtain k where k: "filter (\<lambda>e. \<not> is_new_leader e) (take n es) = take k (filter (\<lambda>e. \<not> is_new_leader e) es)"
    using filter_take_prefix by blast
  show ?thesis unfolding k using assms unfolding one_term_def
    by (cases k; cases "k - 1") auto
qed



section \<open>The command\<close>

lemma valid_logger:
  assumes "Validate compiles c = None"
  shows "\<exists>l. buildLogger c = Inr l"
proof -
  have "validateLogging c = None" using assms by (simp only: Validate_def first_None)
  then show ?thesis by (auto simp: validateLogging_def buildLogger_def split: sum.splits)
qed

text \<open>
  The exit code of the command: it is one exactly if the configuration cannot be loaded or is invalid, or, unless
  this is a dry run, the Kubernetes client cannot be built. A configuration that validates makes neither the logger nor
  the health server fail; and when the controller fails to start, the command exits with zero all the same.
\<close>

theorem exit_code:
  "main_exit (main_run decode compiles file dryRun client_error controller) =
     (case LoadAndValidate decode compiles file of
        Inl e \<Rightarrow> 1
      | Inr c \<Rightarrow> if \<not> dryRun \<and> client_error \<noteq> None then 1 else 0)"
proof (cases "LoadAndValidate decode compiles file")
  case (Inr c)
  then have v: "Validate compiles c = None" using LoadAndValidate_Inr by blast
  obtain l where "buildLogger c = Inr l" using valid_logger [OF v] by blast
  moreover have "NewServer False (cfg_HealthPort c) = Inr (cfg_HealthPort c)" using valid_ports(1) [OF v] by (simp add: NewServer_def)
  ultimately show ?thesis using Inr by (simp add: main_run_def main_exit_def NewController_def split: option.split)
qed (simp add: main_run_def main_exit_def)

end
