(* ===== verification/Crd_Watcher.thy ===== *)
theory Crd_Watcher
  imports Filter_Engine Model
begin

text \<open>
  The watcher of custom resources (\<open>config/crd_watcher.go\<close>) with the API types it handles
  (\<open>api/v1alpha1/types_*.go\<close>). The registries of custom detectors, gatherers and sinks and the
  API server are interfaces; what the watcher does to them is the list of its calls. The filter engine is the
  one of \<open>Filter_Engine\<close>. The compiler of conditions and the template parser are parameters which answer an error
  or nothing, and a parsed template is its name and its text. The handlers of an informer run one at a time.
\<close>

section \<open>API types\<close>

text \<open>The types of the Kubernetes API machinery, as far as they are used.\<close>

record MetaCondition =
  cond_Type :: string
  cond_Status :: string
  cond_Reason :: string
  cond_Message :: string
  cond_Time :: gotime

record MetaSelector =
  msel_MatchLabels :: "labels option"
  msel_MatchExpressions :: "LabelSelectorRequirement list"

definition ConditionReady :: string where "ConditionReady = ''Ready''"
definition ConditionActive :: string where "ConditionActive = ''Active''"

record SecretReference =
  sref_Name :: string
  sref_Key :: string

record WormsignDetectorSpec =
  wds_Description :: string
  wds_Resource :: string
  wds_NamespaceSelector :: "MetaSelector option"
  wds_Condition :: string
  wds_Params :: "labels option"
  wds_Severity :: Severity
  wds_Cooldown :: string

record WormsignDetectorStatus =
  wdt_Conditions :: "MetaCondition list"
  wdt_MatchedNamespaces :: int
  wdt_LastFired :: "gotime option"
  wdt_FaultEventsTotal :: int

record WormsignDetector =
  wd_Namespace :: string
  wd_Name :: string
  wd_Spec :: WormsignDetectorSpec
  wd_Status :: WormsignDetectorStatus

record GathererTrigger =
  gt_ResourceKinds :: "string list"
  gt_Detectors :: "string list"

record CollectAction =
  ca_Type :: string
  ca_APIVersion :: string
  ca_Resource :: string
  ca_Name :: string
  ca_Namespace :: string
  ca_JSONPath :: string
  ca_ListAll :: bool
  ca_Container :: string
  ca_TailLines :: "int option"
  ca_Previous :: bool

definition CollectTypeResource :: string where "CollectTypeResource = ''resource''"
definition CollectTypeLogs :: string where "CollectTypeLogs = ''logs''"

record WormsignGathererSpec =
  wgs_Description :: string
  wgs_TriggerOn :: GathererTrigger
  wgs_Collect :: "CollectAction list"

record WormsignGatherer =
  wg_Namespace :: string
  wg_Name :: string
  wg_Spec :: WormsignGathererSpec
  wg_Conditions :: "MetaCondition list"

definition SinkTypeWebhook :: string where "SinkTypeWebhook = ''webhook''"

record CRDWebhookConfig =
  cwh_URL :: string
  cwh_URLSecretRef :: "SecretReference option"
  cwh_Method :: string
  cwh_Headers :: "labels option"
  cwh_BodyTemplate :: string

record WormsignSinkSpec =
  wss_Description :: string
  wss_Type :: string
  wss_Webhook :: "CRDWebhookConfig option"
  wss_SeverityFilter :: "Severity list"

record WormsignSinkStatus =
  wst_Conditions :: "MetaCondition list"
  wst_DeliveriesTotal :: int
  wst_LastDelivery :: "gotime option"
  wst_LastDeliveryStatus :: string

record WormsignSink =
  ws_Namespace :: string
  ws_Name :: string
  ws_Spec :: WormsignSinkSpec
  ws_Status :: WormsignSinkStatus

definition PolicyActionExclude :: string where "PolicyActionExclude = ''Exclude''"
definition PolicyActionSuppress :: string where "PolicyActionSuppress = ''Suppress''"

record PolicyMatch =
  pm_ResourceSelector :: "MetaSelector option"
  pm_OwnerNames :: "string list"

record WormsignPolicySpec =
  wps_Action :: string
  wps_Detectors :: "string list"
  wps_NamespaceSelector :: "MetaSelector option"
  wps_Match :: "PolicyMatch option"
  wps_Schedule :: "PolicySchedule option"

record WormsignPolicyStatus =
  wpt_Conditions :: "MetaCondition list"
  wpt_MatchedResources :: int
  wpt_LastEvaluated :: "gotime option"

record WormsignPolicy =
  wp_Namespace :: string
  wp_Name :: string
  wp_Spec :: WormsignPolicySpec
  wp_Status :: WormsignPolicyStatus

section \<open>The watcher's state\<close>

record RegisteredDetector =
  rd_Name :: string
  rd_Namespace :: string
  rd_Resource :: string
  rd_Condition :: string
  rd_Params :: "labels option"
  rd_Severity :: Severity
  rd_Cooldown :: string
  rd_NamespaceSelector :: "MetaSelector option"
  rd_Description :: string

record RegisteredGatherer =
  rgt_Name :: string
  rgt_Namespace :: string
  rgt_Description :: string
  rgt_TriggerOn :: GathererTrigger
  rgt_Collect :: "CollectAction list"

record RegisteredSink =
  rs_Name :: string
  rs_Namespace :: string
  rs_Description :: string
  rs_SinkType :: string
  rs_Webhook :: "CRDWebhookConfig option"
  rs_SeverityFilter :: "Severity list"
  rs_BodyTemplate :: "(string \<times> string) option"

text \<open>The calls of the registries and of the status updater.\<close>

datatype crd_call =
    RegisterDetector string RegisteredDetector
  | UnregisterDetector string
  | RegisterGatherer string RegisteredGatherer
  | UnregisterGatherer string
  | RegisterSink string RegisteredSink
  | UnregisterSink string
  | UpdateDetectorStatus string string WormsignDetectorStatus
  | UpdateGathererStatus string string "MetaCondition list"
  | UpdateSinkStatus string string WormsignSinkStatus
  | UpdatePolicyStatus string string WormsignPolicyStatus

record CRDWatcher =
  cw_filterEngine :: Engine
  cw_validDetectors :: "(string \<times> bool) list"
  cw_validGatherers :: "(string \<times> bool) list"
  cw_validSinks :: "(string \<times> bool) list"
  cw_validPolicies :: "(string \<times> bool) list"
  cw_policyStore :: "(string \<times> WormsignPolicy) list"

datatype watcher_dependency = CELEvaluator | DetectorReg | GathererReg | SinkReg | FilterEngine | StatusUpdater

definition NewCRDWatcher :: "watcher_dependency list \<Rightarrow> Engine \<Rightarrow> watcher_dependency + CRDWatcher" where
  "NewCRDWatcher nils eng =
     (case filter (List.member nils) [CELEvaluator, DetectorReg, GathererReg, SinkReg, FilterEngine, StatusUpdater] of
        d # _ \<Rightarrow> Inl d
      | [] \<Rightarrow> Inr \<lparr>cw_filterEngine = eng, cw_validDetectors = [], cw_validGatherers = [], cw_validSinks = [],
                cw_validPolicies = [], cw_policyStore = []\<rparr>)"

definition crd_count :: "(string \<times> bool) list \<Rightarrow> nat" where
  "crd_count m = length (filter snd m)"

definition Counts :: "CRDWatcher \<Rightarrow> nat \<times> nat \<times> nat \<times> nat" where
  "Counts w = (crd_count (cw_validDetectors w), crd_count (cw_validGatherers w), crd_count (cw_validSinks w),
     crd_count (cw_validPolicies w))"

definition crdKey :: "string \<Rightarrow> string \<Rightarrow> string" where
  "crdKey namespace name = (if namespace = [] then name else namespace @ ''/'' @ name)"

section \<open>Conditions\<close>

fun setCondition :: "string \<Rightarrow> string \<Rightarrow> string \<Rightarrow> string \<Rightarrow> gotime \<Rightarrow> MetaCondition list \<Rightarrow> MetaCondition list" where
  "setCondition typ status reason message now [] =
     [\<lparr>cond_Type = typ, cond_Status = status, cond_Reason = reason, cond_Message = message, cond_Time = now\<rparr>]"
| "setCondition typ status reason message now (c # cs) =
     (if cond_Type c = typ
      then c\<lparr>cond_Status := status, cond_Reason := reason, cond_Message := message, cond_Time := now\<rparr> # cs
      else c # setCondition typ status reason message now cs)"

definition valid_severity :: "Severity \<Rightarrow> bool" where
  "valid_severity s \<longleftrightarrow> \<not> (s \<noteq> SeverityCritical \<and> s \<noteq> SeverityWarning \<and> s \<noteq> SeverityInfo)"

text \<open>\<open>clock i\<close> is the \<open>i\<close>-th reading of the clock by a handler.\<close>

definition previous_active :: "bool \<Rightarrow> gotime \<Rightarrow> MetaCondition list \<Rightarrow> MetaCondition list" where
  "previous_active wasValid now cs =
     (if wasValid
      then setCondition ConditionActive ''True'' ''PreviousVersionActive'' ''Previous valid configuration remains active'' now cs
      else setCondition ConditionActive ''False'' ''NotRegistered'' ''No valid configuration available'' now cs)"

definition not_ready :: "string \<Rightarrow> gotime \<Rightarrow> MetaCondition list \<Rightarrow> MetaCondition list" where
  "not_ready message now cs = setCondition ConditionReady ''False'' ''ValidationFailed'' message now cs"

section \<open>Detectors\<close>

definition setDetectorReady :: "(nat \<Rightarrow> gotime) \<Rightarrow> WormsignDetector \<Rightarrow> crd_call" where
  "setDetectorReady clock d =
     UpdateDetectorStatus (wd_Namespace d) (wd_Name d) ((wd_Status d)\<lparr>wdt_Conditions :=
       setCondition ConditionActive ''True'' ''Registered'' ''Detector is active in pipeline'' (clock 1)
         (setCondition ConditionReady ''True'' ''Validated'' ''CEL expression compiled successfully'' (clock 0)
            (wdt_Conditions (wd_Status d)))\<rparr>)"

definition setDetectorNotReady :: "(nat \<Rightarrow> gotime) \<Rightarrow> CRDWatcher \<Rightarrow> WormsignDetector \<Rightarrow> string \<Rightarrow> crd_call" where
  "setDetectorNotReady clock w d message =
     UpdateDetectorStatus (wd_Namespace d) (wd_Name d) ((wd_Status d)\<lparr>wdt_Conditions :=
       previous_active (map_get (cw_validDetectors w) False (crdKey (wd_Namespace d) (wd_Name d))) (clock 1)
         (not_ready message (clock 0) (wdt_Conditions (wd_Status d)))\<rparr>)"

definition detector_problem :: "(string \<Rightarrow> string option) \<Rightarrow> WormsignDetectorSpec \<Rightarrow> string option" where
  "detector_problem cel_compile s =
     (if wds_Resource s = [] then Some ''spec.resource must not be empty''
      else if wds_Condition s = [] then Some ''spec.condition must not be empty''
      else case cel_compile (wds_Condition s) of
          Some err \<Rightarrow> Some (''CEL expression failed to compile: '' @ err)
        | None \<Rightarrow>
            if \<not> valid_severity (wds_Severity s)
            then Some (''invalid severity '' @ go_quote (wds_Severity s) @ '': must be critical, warning, or info'')
            else None)"

definition registered_detector :: "WormsignDetector \<Rightarrow> RegisteredDetector" where
  "registered_detector d =
     \<lparr>rd_Name = wd_Name d, rd_Namespace = wd_Namespace d, rd_Resource = wds_Resource (wd_Spec d),
      rd_Condition = wds_Condition (wd_Spec d), rd_Params = wds_Params (wd_Spec d), rd_Severity = wds_Severity (wd_Spec d),
      rd_Cooldown = wds_Cooldown (wd_Spec d), rd_NamespaceSelector = wds_NamespaceSelector (wd_Spec d),
      rd_Description = wds_Description (wd_Spec d)\<rparr>"

definition handleDetector ::
    "(string \<Rightarrow> string option) \<Rightarrow> (nat \<Rightarrow> gotime) \<Rightarrow> WormsignDetector \<Rightarrow> CRDWatcher \<Rightarrow> CRDWatcher \<times> crd_call list" where
  "handleDetector cel_compile clock d w =
     (let key = crdKey (wd_Namespace d) (wd_Name d) in
      case detector_problem cel_compile (wd_Spec d) of
        Some msg \<Rightarrow> (w, [setDetectorNotReady clock w d msg])
      | None \<Rightarrow> (w\<lparr>cw_validDetectors := map_put key True (cw_validDetectors w)\<rparr>,
                 [RegisterDetector key (registered_detector d), setDetectorReady clock d]))"

definition OnDetectorDelete :: "string \<Rightarrow> CRDWatcher \<Rightarrow> CRDWatcher \<times> crd_call list" where
  "OnDetectorDelete key w =
     (w\<lparr>cw_validDetectors := map_delete key (cw_validDetectors w)\<rparr>, [UnregisterDetector key])"

section \<open>Gatherers\<close>

definition validateCollectAction :: "CollectAction \<Rightarrow> string option" where
  "validateCollectAction a =
     (if ca_Type a = CollectTypeResource then
        (if ca_APIVersion a = [] then Some ''apiVersion is required for resource collection type''
         else if ca_Resource a = [] then Some ''resource is required for resource collection type''
         else if \<not> ca_ListAll a \<and> ca_Name a = []
           then Some ''name is required for resource collection type when listAll is false''
         else None)
      else if ca_Type a = CollectTypeLogs then None
      else Some (''unknown collection type '' @ go_quote (ca_Type a) @ '': must be '' @ [CHR 0x27] @ ''resource'' @
        [CHR 0x27] @ '' or '' @ [CHR 0x27] @ ''logs'' @ [CHR 0x27]))"

fun collect_problem :: "nat \<Rightarrow> CollectAction list \<Rightarrow> string option" where
  "collect_problem i [] = None"
| "collect_problem i (a # as) =
     (case validateCollectAction a of
        Some err \<Rightarrow> Some (''spec.collect['' @ show_int (int i) @ '']: '' @ err)
      | None \<Rightarrow> collect_problem (i + 1) as)"

definition gatherer_problem :: "WormsignGathererSpec \<Rightarrow> string option" where
  "gatherer_problem s =
     (if length (gt_ResourceKinds (wgs_TriggerOn s)) = 0 \<and> length (gt_Detectors (wgs_TriggerOn s)) = 0
      then Some ''spec.triggerOn must specify at least one resourceKind or detector''
      else if length (wgs_Collect s) = 0 then Some ''spec.collect must contain at least one collection action''
      else collect_problem 0 (wgs_Collect s))"

definition registered_gatherer :: "WormsignGatherer \<Rightarrow> RegisteredGatherer" where
  "registered_gatherer g =
     \<lparr>rgt_Name = wg_Name g, rgt_Namespace = wg_Namespace g, rgt_Description = wgs_Description (wg_Spec g),
      rgt_TriggerOn = wgs_TriggerOn (wg_Spec g), rgt_Collect = wgs_Collect (wg_Spec g)\<rparr>"

definition setGathererReady :: "(nat \<Rightarrow> gotime) \<Rightarrow> WormsignGatherer \<Rightarrow> crd_call" where
  "setGathererReady clock g = UpdateGathererStatus (wg_Namespace g) (wg_Name g)
     (setCondition ConditionReady ''True'' ''Validated'' ''Gatherer configuration validated successfully'' (clock 0) (wg_Conditions g))"

definition setGathererNotReady :: "(nat \<Rightarrow> gotime) \<Rightarrow> WormsignGatherer \<Rightarrow> string \<Rightarrow> crd_call" where
  "setGathererNotReady clock g message =
     UpdateGathererStatus (wg_Namespace g) (wg_Name g) (not_ready message (clock 0) (wg_Conditions g))"

definition handleGatherer :: "(nat \<Rightarrow> gotime) \<Rightarrow> WormsignGatherer \<Rightarrow> CRDWatcher \<Rightarrow> CRDWatcher \<times> crd_call list" where
  "handleGatherer clock g w =
     (let key = crdKey (wg_Namespace g) (wg_Name g) in
      case gatherer_problem (wg_Spec g) of
        Some msg \<Rightarrow> (w, [setGathererNotReady clock g msg])
      | None \<Rightarrow> (w\<lparr>cw_validGatherers := map_put key True (cw_validGatherers w)\<rparr>,
                 [RegisterGatherer key (registered_gatherer g), setGathererReady clock g]))"

definition OnGathererDelete :: "string \<Rightarrow> CRDWatcher \<Rightarrow> CRDWatcher \<times> crd_call list" where
  "OnGathererDelete key w =
     (w\<lparr>cw_validGatherers := map_delete key (cw_validGatherers w)\<rparr>, [UnregisterGatherer key])"

section \<open>Sinks\<close>

fun severity_problem :: "Severity list \<Rightarrow> string option" where
  "severity_problem [] = None"
| "severity_problem (s # ss) =
     (if \<not> valid_severity s
      then Some (''invalid severity '' @ go_quote s @ '' in severityFilter: must be critical, warning, or info'')
      else severity_problem ss)"

definition crd_sink_problem :: "(string \<Rightarrow> string \<Rightarrow> string option) \<Rightarrow> string \<Rightarrow> WormsignSinkSpec \<Rightarrow> string option" where
  "crd_sink_problem tmpl_parse key s =
     (if wss_Type s \<noteq> SinkTypeWebhook
      then Some (''unsupported sink type '' @ go_quote (wss_Type s) @ '': must be '' @ [CHR 0x27] @ ''webhook'' @ [CHR 0x27])
      else case wss_Webhook s of
          None \<Rightarrow> Some (''spec.webhook is required when type is '' @ [CHR 0x27] @ ''webhook'' @ [CHR 0x27])
        | Some wh \<Rightarrow>
            if cwh_URL wh = [] \<and> cwh_URLSecretRef wh = None then Some ''spec.webhook must specify either url or secretRef''
            else if cwh_URL wh \<noteq> [] \<and> cwh_URLSecretRef wh \<noteq> None
              then Some ''spec.webhook must specify either url or secretRef, not both''
            else case severity_problem (wss_SeverityFilter s) of
                Some msg \<Rightarrow> Some msg
              | None \<Rightarrow>
                  if cwh_BodyTemplate wh \<noteq> []
                  then map_option (\<lambda>err. ''body template parse error: '' @ err) (tmpl_parse key (cwh_BodyTemplate wh))
                  else None)"

definition registered_sink :: "WormsignSink \<Rightarrow> RegisteredSink" where
  "registered_sink s =
     \<lparr>rs_Name = ws_Name s, rs_Namespace = ws_Namespace s, rs_Description = wss_Description (ws_Spec s),
      rs_SinkType = wss_Type (ws_Spec s), rs_Webhook = wss_Webhook (ws_Spec s), rs_SeverityFilter = wss_SeverityFilter (ws_Spec s),
      rs_BodyTemplate = (case wss_Webhook (ws_Spec s) of
          None \<Rightarrow> None
        | Some wh \<Rightarrow> if cwh_BodyTemplate wh \<noteq> [] then Some (crdKey (ws_Namespace s) (ws_Name s), cwh_BodyTemplate wh) else None)\<rparr>"

definition setSinkReady :: "(nat \<Rightarrow> gotime) \<Rightarrow> WormsignSink \<Rightarrow> crd_call" where
  "setSinkReady clock s = UpdateSinkStatus (ws_Namespace s) (ws_Name s) ((ws_Status s)\<lparr>wst_Conditions :=
     setCondition ConditionReady ''True'' ''Validated'' ''Sink configuration validated successfully'' (clock 0)
       (wst_Conditions (ws_Status s))\<rparr>)"

definition setSinkNotReady :: "(nat \<Rightarrow> gotime) \<Rightarrow> WormsignSink \<Rightarrow> string \<Rightarrow> crd_call" where
  "setSinkNotReady clock s message = UpdateSinkStatus (ws_Namespace s) (ws_Name s)
     ((ws_Status s)\<lparr>wst_Conditions := not_ready message (clock 0) (wst_Conditions (ws_Status s))\<rparr>)"

definition handleSink ::
    "(string \<Rightarrow> string \<Rightarrow> string option) \<Rightarrow> (nat \<Rightarrow> gotime) \<Rightarrow> WormsignSink \<Rightarrow> CRDWatcher \<Rightarrow> CRDWatcher \<times> crd_call list" where
  "handleSink tmpl_parse clock s w =
     (let key = crdKey (ws_Namespace s) (ws_Name s) in
      case crd_sink_problem tmpl_parse key (ws_Spec s) of
        Some msg \<Rightarrow> (w, [setSinkNotReady clock s msg])
      | None \<Rightarrow> (w\<lparr>cw_validSinks := map_put key True (cw_validSinks w)\<rparr>,
                 [RegisterSink key (registered_sink s), setSinkReady clock s]))"

definition OnSinkDelete :: "string \<Rightarrow> CRDWatcher \<Rightarrow> CRDWatcher \<times> crd_call list" where
  "OnSinkDelete key w = (w\<lparr>cw_validSinks := map_delete key (cw_validSinks w)\<rparr>, [UnregisterSink key])"

section \<open>Policies\<close>

definition convertLabelSelector :: "MetaSelector option \<Rightarrow> LabelSelector option" where
  "convertLabelSelector selector =
     (case selector of
        None \<Rightarrow> None
      | Some sel \<Rightarrow> Some \<lparr>ls_MatchLabels = (case msel_MatchLabels sel of None \<Rightarrow> [] | Some m \<Rightarrow> m),
          ls_MatchExpressions = map (\<lambda>e. \<lparr>lsr_Key = lsr_Key e, lsr_Operator = lsr_Operator e, lsr_Values = lsr_Values e\<rparr>)
            (msel_MatchExpressions sel)\<rparr>)"

definition convertToFilterPolicy :: "WormsignPolicy \<Rightarrow> Policy" where
  "convertToFilterPolicy p =
     \<lparr>pol_Name = wp_Name p, pol_Namespace = wp_Namespace p, pol_Action = wps_Action (wp_Spec p),
      pol_Detectors = wps_Detectors (wp_Spec p),
      pol_NamespaceSelector = convertLabelSelector (wps_NamespaceSelector (wp_Spec p)),
      pol_ResourceSelector = (case wps_Match (wp_Spec p) of None \<Rightarrow> None | Some m \<Rightarrow> convertLabelSelector (pm_ResourceSelector m)),
      pol_OwnerNames = (case wps_Match (wp_Spec p) of None \<Rightarrow> [] | Some m \<Rightarrow> pm_OwnerNames m),
      pol_Schedule = wps_Schedule (wp_Spec p)\<rparr>"

text \<open>The order in which Go visits the store does not matter: the keys are sorted.\<close>

definition rebuildPolicies :: "CRDWatcher \<Rightarrow> CRDWatcher" where
  "rebuildPolicies w =
     (let keys = sort (filter (\<lambda>key. map_get (cw_validPolicies w) False key) (map fst (cw_policyStore w)));
          policies = map (\<lambda>key. convertToFilterPolicy (the (map_of (cw_policyStore w) key))) keys
      in w\<lparr>cw_filterEngine := SetPolicies (cw_filterEngine w) policies\<rparr>)"

definition policy_problem :: "WormsignPolicySpec \<Rightarrow> string option" where
  "policy_problem s =
     (if wps_Action s \<noteq> PolicyActionExclude \<and> wps_Action s \<noteq> PolicyActionSuppress
      then Some (''invalid action '' @ go_quote (wps_Action s) @ '': must be '' @ [CHR 0x27] @ ''Exclude'' @ [CHR 0x27] @
        '' or '' @ [CHR 0x27] @ ''Suppress'' @ [CHR 0x27])
      else if wps_Schedule s \<noteq> None \<and> wps_Action s \<noteq> PolicyActionSuppress
      then Some (''schedule is only valid when action is '' @ [CHR 0x27] @ ''Suppress'' @ [CHR 0x27])
      else if (case wps_Schedule s of None \<Rightarrow> False | Some sch \<Rightarrow> \<not> sch_Start sch < sch_End sch)
      then Some ''schedule.end must be after schedule.start''
      else if (case wps_Match s of None \<Rightarrow> False | Some m \<Rightarrow> list_ex (\<lambda>pattern. pattern = []) (pm_OwnerNames m))
      then Some ''ownerNames patterns must not be empty strings''
      else None)"

definition setPolicyReady :: "(nat \<Rightarrow> gotime) \<Rightarrow> WormsignPolicy \<Rightarrow> crd_call" where
  "setPolicyReady clock p =
     UpdatePolicyStatus (wp_Namespace p) (wp_Name p) ((wp_Status p)\<lparr>wpt_Conditions :=
       setCondition ConditionActive ''True'' ''Active'' ''Policy is active'' (clock 1)
         (setCondition ConditionReady ''True'' ''Validated'' ''Policy configuration validated successfully'' (clock 0)
            (wpt_Conditions (wp_Status p)))\<rparr>)"

definition setPolicyNotReady :: "(nat \<Rightarrow> gotime) \<Rightarrow> CRDWatcher \<Rightarrow> WormsignPolicy \<Rightarrow> string \<Rightarrow> crd_call" where
  "setPolicyNotReady clock w p message =
     UpdatePolicyStatus (wp_Namespace p) (wp_Name p) ((wp_Status p)\<lparr>wpt_Conditions :=
       previous_active (map_get (cw_validPolicies w) False (crdKey (wp_Namespace p) (wp_Name p))) (clock 1)
         (not_ready message (clock 0) (wpt_Conditions (wp_Status p)))\<rparr>)"

definition handlePolicy :: "(nat \<Rightarrow> gotime) \<Rightarrow> WormsignPolicy \<Rightarrow> CRDWatcher \<Rightarrow> CRDWatcher \<times> crd_call list" where
  "handlePolicy clock p w =
     (let key = crdKey (wp_Namespace p) (wp_Name p) in
      case policy_problem (wp_Spec p) of
        Some msg \<Rightarrow> (w, [setPolicyNotReady clock w p msg])
      | None \<Rightarrow>
          (rebuildPolicies (w\<lparr>cw_policyStore := map_put key p (cw_policyStore w),
                              cw_validPolicies := map_put key True (cw_validPolicies w)\<rparr>),
           [setPolicyReady clock p]))"

definition OnPolicyDelete :: "string \<Rightarrow> CRDWatcher \<Rightarrow> CRDWatcher \<times> crd_call list" where
  "OnPolicyDelete key w =
     (rebuildPolicies (w\<lparr>cw_validPolicies := map_delete key (cw_validPolicies w),
                         cw_policyStore := map_delete key (cw_policyStore w)\<rparr>), [])"

section \<open>Runs\<close>

text \<open>The handlers for a created and for a modified object are the same.\<close>

datatype crd_event =
    DetectorApplied WormsignDetector
  | DetectorDeleted string
  | GathererApplied WormsignGatherer
  | GathererDeleted string
  | SinkApplied WormsignSink
  | SinkDeleted string
  | PolicyApplied WormsignPolicy
  | PolicyDeleted string

record crd_env =
  ce_cel_compile :: "string \<Rightarrow> string option"
  ce_tmpl_parse :: "string \<Rightarrow> string \<Rightarrow> string option"

fun crd_handle :: "crd_env \<Rightarrow> (nat \<Rightarrow> gotime) \<Rightarrow> crd_event \<Rightarrow> CRDWatcher \<Rightarrow> CRDWatcher \<times> crd_call list" where
  "crd_handle env clock (DetectorApplied d) w = handleDetector (ce_cel_compile env) clock d w"
| "crd_handle env clock (DetectorDeleted key) w = OnDetectorDelete key w"
| "crd_handle env clock (GathererApplied g) w = handleGatherer clock g w"
| "crd_handle env clock (GathererDeleted key) w = OnGathererDelete key w"
| "crd_handle env clock (SinkApplied s) w = handleSink (ce_tmpl_parse env) clock s w"
| "crd_handle env clock (SinkDeleted key) w = OnSinkDelete key w"
| "crd_handle env clock (PolicyApplied p) w = handlePolicy clock p w"
| "crd_handle env clock (PolicyDeleted key) w = OnPolicyDelete key w"

definition crd_step :: "crd_env \<Rightarrow> (nat \<Rightarrow> gotime) \<times> crd_event \<Rightarrow> CRDWatcher \<times> crd_call list \<Rightarrow> CRDWatcher \<times> crd_call list" where
  "crd_step env ev s = (case crd_handle env (fst ev) (snd ev) (fst s) of (w, calls) \<Rightarrow> (w, snd s @ calls))"

definition crd_run :: "crd_env \<Rightarrow> ((nat \<Rightarrow> gotime) \<times> crd_event) list \<Rightarrow> CRDWatcher \<times> crd_call list \<Rightarrow> CRDWatcher \<times> crd_call list" where
  "crd_run env evs s = foldl (\<lambda>s ev. crd_step env ev s) s evs"

section \<open>What every kind of resource has in common\<close>

text \<open>
  An event sets, drops or keeps what is registered under a key. \<open>last_change\<close> says what is
  registered after a list of changes: the last change of the key decides, and an invalid object changes nothing.
\<close>

datatype 'r change = Sets string 'r | Drops string | Keeps

fun concerns :: "string \<Rightarrow> 'r change \<Rightarrow> bool" where
  "concerns k (Sets k' r) = (k' = k)"
| "concerns k (Drops k') = (k' = k)"
| "concerns k Keeps = False"

fun set_by :: "'r change \<Rightarrow> 'r option" where
  "set_by (Sets k r) = Some r"
| "set_by _ = None"

definition last_change :: "string \<Rightarrow> 'r change list \<Rightarrow> 'r option" where
  "last_change k cs = (case filter (concerns k) cs of [] \<Rightarrow> None | d # ds \<Rightarrow> set_by (last (d # ds)))"

lemma last_change_Nil [simp]: "last_change k [] = None"
  by (simp add: last_change_def)

lemma last_change_snoc [simp]:
  "last_change k (cs @ [c]) = (if concerns k c then set_by c else last_change k cs)"
  by (cases "filter (concerns k) cs") (auto simp: last_change_def)

locale crd_kind =
  fixes step :: "'e \<Rightarrow> 's \<Rightarrow> 's" and held :: "'s \<Rightarrow> string \<Rightarrow> 'r option" and change :: "'e \<Rightarrow> 'r change"
  assumes held_step: "held (step e s) k = (if concerns k (change e) then set_by (change e) else held s k)"
begin

lemma held_run:
  assumes "\<And>k. held s k = None"
  shows "held (foldl (\<lambda>s e. step e s) s es) k = last_change k (map change es)"
  by (induction es rule: rev_induct) (simp_all add: assms held_step)

end

text \<open>What a registry holds that keeps the last registration of every key.\<close>

fun replay_detectors :: "(string \<Rightarrow> RegisteredDetector option) \<Rightarrow> crd_call \<Rightarrow> (string \<Rightarrow> RegisteredDetector option)" where
  "replay_detectors m (RegisterDetector k d) = m(k \<mapsto> d)"
| "replay_detectors m (UnregisterDetector k) = m(k := None)"
| "replay_detectors m _ = m"

fun replay_gatherers :: "(string \<Rightarrow> RegisteredGatherer option) \<Rightarrow> crd_call \<Rightarrow> (string \<Rightarrow> RegisteredGatherer option)" where
  "replay_gatherers m (RegisterGatherer k g) = m(k \<mapsto> g)"
| "replay_gatherers m (UnregisterGatherer k) = m(k := None)"
| "replay_gatherers m _ = m"

fun replay_sinks :: "(string \<Rightarrow> RegisteredSink option) \<Rightarrow> crd_call \<Rightarrow> (string \<Rightarrow> RegisteredSink option)" where
  "replay_sinks m (RegisterSink k x) = m(k \<mapsto> x)"
| "replay_sinks m (UnregisterSink k) = m(k := None)"
| "replay_sinks m _ = m"

definition detectors_held :: "CRDWatcher \<times> crd_call list \<Rightarrow> string \<Rightarrow> RegisteredDetector option" where
  "detectors_held s = foldl replay_detectors Map.empty (snd s)"

definition gatherers_held :: "CRDWatcher \<times> crd_call list \<Rightarrow> string \<Rightarrow> RegisteredGatherer option" where
  "gatherers_held s = foldl replay_gatherers Map.empty (snd s)"

definition sinks_held :: "CRDWatcher \<times> crd_call list \<Rightarrow> string \<Rightarrow> RegisteredSink option" where
  "sinks_held s = foldl replay_sinks Map.empty (snd s)"

definition policies_held :: "CRDWatcher \<times> crd_call list \<Rightarrow> string \<Rightarrow> WormsignPolicy option" where
  "policies_held s k = (if map_get (cw_validPolicies (fst s)) False k then map_of (cw_policyStore (fst s)) k else None)"

fun detector_change :: "crd_env \<Rightarrow> crd_event \<Rightarrow> RegisteredDetector change" where
  "detector_change env (DetectorApplied d) =
     (if detector_problem (ce_cel_compile env) (wd_Spec d) = None
      then Sets (crdKey (wd_Namespace d) (wd_Name d)) (registered_detector d) else Keeps)"
| "detector_change env (DetectorDeleted key) = Drops key"
| "detector_change env _ = Keeps"

fun gatherer_change :: "crd_event \<Rightarrow> RegisteredGatherer change" where
  "gatherer_change (GathererApplied g) =
     (if gatherer_problem (wg_Spec g) = None then Sets (crdKey (wg_Namespace g) (wg_Name g)) (registered_gatherer g) else Keeps)"
| "gatherer_change (GathererDeleted key) = Drops key"
| "gatherer_change _ = Keeps"

fun sink_change :: "crd_env \<Rightarrow> crd_event \<Rightarrow> RegisteredSink change" where
  "sink_change env (SinkApplied s) =
     (if crd_sink_problem (ce_tmpl_parse env) (crdKey (ws_Namespace s) (ws_Name s)) (ws_Spec s) = None
      then Sets (crdKey (ws_Namespace s) (ws_Name s)) (registered_sink s) else Keeps)"
| "sink_change env (SinkDeleted key) = Drops key"
| "sink_change env _ = Keeps"

fun policy_change :: "crd_event \<Rightarrow> WormsignPolicy change" where
  "policy_change (PolicyApplied p) =
     (if policy_problem (wp_Spec p) = None then Sets (crdKey (wp_Namespace p) (wp_Name p)) p else Keeps)"
| "policy_change (PolicyDeleted key) = Drops key"
| "policy_change _ = Keeps"

lemmas crd_handlers = handleDetector_def handleGatherer_def handleSink_def handlePolicy_def OnDetectorDelete_def
  OnGathererDelete_def OnSinkDelete_def OnPolicyDelete_def

lemmas crd_statuses = setDetectorReady_def setDetectorNotReady_def setGathererReady_def setGathererNotReady_def
  setSinkReady_def setSinkNotReady_def setPolicyReady_def setPolicyNotReady_def

lemma rebuild_frames [simp]:
  "cw_policyStore (rebuildPolicies w) = cw_policyStore w" "cw_validPolicies (rebuildPolicies w) = cw_validPolicies w"
  "cw_validDetectors (rebuildPolicies w) = cw_validDetectors w" "cw_validGatherers (rebuildPolicies w) = cw_validGatherers w"
  "cw_validSinks (rebuildPolicies w) = cw_validSinks w"
  by (simp_all add: rebuildPolicies_def Let_def)

interpretation cdet: crd_kind "crd_step env" detectors_held "detector_change env \<circ> snd" for env
proof
  fix e :: "(nat \<Rightarrow> gotime) \<times> crd_event" and s k
  show "detectors_held (crd_step env e s) k =
      (if concerns k ((detector_change env \<circ> snd) e) then set_by ((detector_change env \<circ> snd) e) else detectors_held s k)"
    by (cases "snd e") (auto simp: crd_step_def detectors_held_def crd_handlers crd_statuses Let_def split: option.split)
qed

interpretation cgat: crd_kind "crd_step env" gatherers_held "gatherer_change \<circ> snd" for env
proof
  fix e :: "(nat \<Rightarrow> gotime) \<times> crd_event" and s k
  show "gatherers_held (crd_step env e s) k =
      (if concerns k ((gatherer_change \<circ> snd) e) then set_by ((gatherer_change \<circ> snd) e) else gatherers_held s k)"
    by (cases "snd e") (auto simp: crd_step_def gatherers_held_def crd_handlers crd_statuses Let_def split: option.split)
qed

interpretation csink: crd_kind "crd_step env" sinks_held "sink_change env \<circ> snd" for env
proof
  fix e :: "(nat \<Rightarrow> gotime) \<times> crd_event" and s k
  show "sinks_held (crd_step env e s) k =
      (if concerns k ((sink_change env \<circ> snd) e) then set_by ((sink_change env \<circ> snd) e) else sinks_held s k)"
    by (cases "snd e") (auto simp: crd_step_def sinks_held_def crd_handlers crd_statuses Let_def split: option.split)
qed

interpretation cpol: crd_kind "crd_step env" policies_held "policy_change \<circ> snd" for env
proof
  fix e :: "(nat \<Rightarrow> gotime) \<times> crd_event" and s k
  show "policies_held (crd_step env e s) k =
      (if concerns k ((policy_change \<circ> snd) e) then set_by ((policy_change \<circ> snd) e) else policies_held s k)"
    by (cases "snd e") (auto simp: crd_step_def policies_held_def crd_handlers crd_statuses map_get_def Let_def split: option.split)
qed

section \<open>Properties\<close>

abbreviation policy_in_force :: "((nat \<Rightarrow> gotime) \<times> crd_event) list \<Rightarrow> string \<Rightarrow> WormsignPolicy option" where
  "policy_in_force evs k \<equiv> last_change k (map (policy_change \<circ> snd) evs)"

lemma new_watcher_empty:
  assumes "NewCRDWatcher [] eng = Inr w"
  shows "w = \<lparr>cw_filterEngine = eng, cw_validDetectors = [], cw_validGatherers = [], cw_validSinks = [],
      cw_validPolicies = [], cw_policyStore = []\<rparr>"
    "detectors_held (w, []) k = None" "gatherers_held (w, []) k = None" "sinks_held (w, []) k = None" "policies_held (w, []) k = None"
  using assms by (auto simp: NewCRDWatcher_def detectors_held_def gatherers_held_def sinks_held_def policies_held_def map_get_def)

lemmas held_runs = cdet.held_run cgat.held_run csink.held_run cpol.held_run

text \<open>
  C19. Whatever objects are created, changed and deleted, in whatever order, every registry holds under each key the
  last valid version since the last deletion: an update that is invalid leaves the previous one active.
\<close>

theorem watcher_keeps_last_valid:
  fixes env :: crd_env and evs :: "((nat \<Rightarrow> gotime) \<times> crd_event) list"
  assumes "NewCRDWatcher [] eng = Inr w"
  defines "s \<equiv> crd_run env evs (w, [])"
  shows "detectors_held s k = last_change k (map (detector_change env \<circ> snd) evs) \<and>
    gatherers_held s k = last_change k (map (gatherer_change \<circ> snd) evs) \<and>
    sinks_held s k = last_change k (map (sink_change env \<circ> snd) evs) \<and>
    policies_held s k = policy_in_force evs k"
  unfolding s_def crd_run_def using new_watcher_empty [OF assms(1)] by (simp add: held_runs)

definition policies_built :: "CRDWatcher \<Rightarrow> bool" where
  "policies_built w \<longleftrightarrow> distinct (map fst (cw_policyStore w)) \<and> cw_filterEngine w = cw_filterEngine (rebuildPolicies w)"

lemma SetPolicies_twice [simp]: "SetPolicies (SetPolicies e ps) qs = SetPolicies e qs"
  by (simp add: SetPolicies_def)

lemma rebuild_built: "distinct (map fst (cw_policyStore w)) \<Longrightarrow> policies_built (rebuildPolicies w)"
  by (simp add: policies_built_def rebuildPolicies_def Let_def)

lemma built_step: "policies_built (fst s) \<Longrightarrow> policies_built (fst (crd_step env ev s))"
  by (cases "snd ev")
    (auto simp: crd_step_def crd_handlers Let_def intro!: rebuild_built distinct_put distinct_delete split: option.split,
     auto simp: policies_built_def rebuildPolicies_def Let_def)

lemma built_run: "policies_built (fst s) \<Longrightarrow> policies_built (fst (crd_run env evs s))"
  unfolding crd_run_def by (induction evs rule: rev_induct) (simp_all add: built_step)

lemma policies_held_keys:
  assumes "policies_built w"
  shows "eng_policies (cw_filterEngine w) =
    map (\<lambda>k. convertToFilterPolicy (the (policies_held (w, calls) k))) (sorted_list_of_set {k. policies_held (w, calls) k \<noteq> None})"
proof -
  let ?keys = "filter (\<lambda>k. map_get (cw_validPolicies w) False k) (map fst (cw_policyStore w))"
  have d: "distinct ?keys" using assms by (simp add: policies_built_def)
  have "{k. policies_held (w, calls) k \<noteq> None} = set ?keys"
    using dom_map_of_conv_image_fst [of "cw_policyStore w"] by (auto simp: policies_held_def dom_def)
  then have k: "sorted_list_of_set {k. policies_held (w, calls) k \<noteq> None} = sort ?keys"
    using d by (simp only: sorted_list_of_set_sort_remdups distinct_remdups_id)
  have "eng_policies (cw_filterEngine w) = map (\<lambda>k. convertToFilterPolicy (the (map_of (cw_policyStore w) k))) (sort ?keys)"
    (is "_ = ?ps")
  proof -
    have "cw_filterEngine w = SetPolicies (cw_filterEngine w) ?ps"
      using assms by (simp add: policies_built_def rebuildPolicies_def Let_def)
    then show ?thesis by (metis SetPolicies_fields(1))
  qed
  then show ?thesis unfolding k by (simp add: policies_held_def)
qed

lemma engine_built:
  assumes "NewCRDWatcher [] eng = Inr w" "eng_policies eng = []"
  shows "eng_policies (cw_filterEngine (fst (crd_run env evs (w, [])))) =
    map (\<lambda>k. convertToFilterPolicy (the (policy_in_force evs k))) (sorted_list_of_set {k. policy_in_force evs k \<noteq> None})"
proof -
  let ?s = "crd_run env evs (w, [])"
  have "SetPolicies eng [] = eng" using assms(2) by (simp add: SetPolicies_def)
  then have "policies_built w"
    using new_watcher_empty(1) [OF assms(1)] by (simp add: policies_built_def rebuildPolicies_def Let_def)
  then have "policies_built (fst ?s)" using built_run [of "(w, [])"] by simp
  moreover have "policies_held ?s k = policy_in_force evs k" for k
    unfolding crd_run_def using new_watcher_empty [OF assms(1)] by (simp add: held_runs)
  ultimately show ?thesis using policies_held_keys [of "fst ?s" "snd ?s"] by simp
qed

text \<open>
  After any events the filter engine has exactly the policies in force, in the order of their keys, converted from the
  last valid version of each.
\<close>

theorem engine_policies_current:
  assumes "NewCRDWatcher [] eng = Inr w" "eng_policies eng = []"
  shows "eng_policies (cw_filterEngine (fst (crd_run env evs (w, [])))) =
    map (\<lambda>k. convertToFilterPolicy (the (policy_in_force evs k))) (sorted_list_of_set {k. policy_in_force evs k \<noteq> None})"
  by (rule engine_built [OF assms])

lemma policy_level_excludes:
  assumes "matchesSuppressPolicy now e input \<noteq> [] \<or> matchesExcludePolicy e input \<noteq> []"
  shows "fr_Excluded (Evaluate now e input)"
proof (cases "matchesSuppressPolicy now e input = []")
  case True
  then have "matchesExcludePolicy e input \<noteq> []" using assms by simp
  then show ?thesis unfolding Evaluate_def Let_def excluded_for_def detector_excluded_for_def by simp
next
  case False
  then show ?thesis unfolding Evaluate_def Let_def excluded_for_def detector_excluded_for_def by simp
qed

text \<open>
  C20. What the policies in force do to an event: one that suppresses or excludes it makes the filter engine
  exclude it, and the two policy levels match only because of such a policy. (The API server gives every
  object a name.)
\<close>

theorem policy_resources_effective:
  assumes "NewCRDWatcher [] eng = Inr w" "eng_policies eng = []"
    and "\<And>p. PolicyApplied p \<in> snd ` set evs \<Longrightarrow> wp_Name p \<noteq> []"
    and "e' = cw_filterEngine (fst (crd_run env evs (w, [])))"
  shows "(matchesSuppressPolicy now e' input \<noteq> [] \<longleftrightarrow>
      (\<exists>k p. policy_in_force evs k = Some p \<and> suppressing now input (convertToFilterPolicy p))) \<and>
    (matchesExcludePolicy e' input \<noteq> [] \<longleftrightarrow>
      (\<exists>k p. policy_in_force evs k = Some p \<and> excluding input (convertToFilterPolicy p))) \<and>
    (policy_in_force evs k = Some p \<and>
       (suppressing now input (convertToFilterPolicy p) \<or> excluding input (convertToFilterPolicy p)) \<longrightarrow>
     fr_Excluded (Evaluate now e' input))"
proof -
  let ?P = "policy_in_force evs"
  let ?K = "{k. ?P k \<noteq> None}"
  let ?s = "crd_run env evs (w, [])"
  have applied: "PolicyApplied q \<in> snd ` set evs" if "?P j = Some q" for j q
    using that
  proof (induction evs rule: rev_induct)
    case (snoc ev evs)
    then show ?case by (cases "snd ev") (auto split: if_splits)
  qed simp
  have held: "policies_held ?s j = ?P j" for j
    unfolding crd_run_def using new_watcher_empty [OF assms(1)] by (simp add: held_runs)
  have "?K \<subseteq> fst ` set (cw_policyStore (fst ?s))"
  proof
    fix j assume "j \<in> ?K"
    then have "policies_held ?s j \<noteq> None" by (simp only: held mem_Collect_eq not_False_eq_True)
    then have "map_of (cw_policyStore (fst ?s)) j \<noteq> None" unfolding policies_held_def by (cases "map_get (cw_validPolicies (fst ?s)) False j") simp_all
    then show "j \<in> fst ` set (cw_policyStore (fst ?s))" by (simp only: map_of_eq_None_iff not_not)
  qed
  then have fin: "finite ?K" using finite_subset by blast
  have pols: "eng_policies e' = map (\<lambda>j. convertToFilterPolicy (the (?P j))) (sorted_list_of_set ?K)"
    using engine_built [OF assms(1,2), of env evs] held by (simp add: assms(4))
  have named: "list_all (\<lambda>q. pol_Name q \<noteq> []) (eng_policies e')"
    using applied assms(3) fin by (auto simp: pols list_all_iff convertToFilterPolicy_def)
  have ex: "list_ex Q (eng_policies e') \<longleftrightarrow> (\<exists>j q. ?P j = Some q \<and> Q (convertToFilterPolicy q))" for Q
    using fin by (auto simp: pols list_ex_iff) blast
  have s: "matchesSuppressPolicy now e' input \<noteq> [] \<longleftrightarrow> (\<exists>j q. ?P j = Some q \<and> suppressing now input (convertToFilterPolicy q))"
    unfolding matchesSuppressPolicy_def suppress_loop_nonempty [OF named] ex by (rule refl)
  moreover have x: "matchesExcludePolicy e' input \<noteq> [] \<longleftrightarrow> (\<exists>j q. ?P j = Some q \<and> excluding input (convertToFilterPolicy q))"
    unfolding matchesExcludePolicy_def exclude_loop_nonempty [OF named] ex by (rule refl)
  moreover have "fr_Excluded (Evaluate now e' input)"
    if "matchesSuppressPolicy now e' input \<noteq> [] \<or> matchesExcludePolicy e' input \<noteq> []"
    using that by (rule policy_level_excludes)
  ultimately show ?thesis by blast
qed

section \<open>Status\<close>

definition status_of :: "MetaCondition list \<Rightarrow> string \<Rightarrow> string option" where
  "status_of cs typ = map_option cond_Status (find (\<lambda>c. cond_Type c = typ) cs)"

lemma status_of_set [simp]:
  "status_of (setCondition typ status reason message now cs) typ' = (if typ' = typ then Some status else status_of cs typ')"
  by (induction cs) (auto simp: status_of_def)

lemma condition_types [simp]: "ConditionReady \<noteq> ConditionActive" "ConditionActive \<noteq> ConditionReady"
  by (simp_all add: ConditionReady_def ConditionActive_def)

definition flags_true :: "CRDWatcher \<times> crd_call list \<Rightarrow> bool" where
  "flags_true s \<longleftrightarrow>
     (\<forall>k. map_get (cw_validDetectors (fst s)) False k \<longleftrightarrow> detectors_held s k \<noteq> None) \<and>
     (\<forall>k. map_get (cw_validPolicies (fst s)) False k \<longleftrightarrow> policies_held s k \<noteq> None)"

lemma flags_step:
  assumes "flags_true s"
  shows "flags_true (crd_step env ev s)"
proof -
  have "map_get (cw_validDetectors (fst (crd_step env ev s))) False k \<longleftrightarrow>
      (if concerns k (detector_change env (snd ev)) then set_by (detector_change env (snd ev)) \<noteq> None
       else map_get (cw_validDetectors (fst s)) False k)" for k
    by (cases "snd ev") (auto simp: crd_step_def crd_handlers map_get_def Let_def split: option.split)
  moreover have "map_get (cw_validPolicies (fst (crd_step env ev s))) False k \<longleftrightarrow>
      (if concerns k (policy_change (snd ev)) then set_by (policy_change (snd ev)) \<noteq> None
       else map_get (cw_validPolicies (fst s)) False k)" for k
    by (cases "snd ev") (auto simp: crd_step_def crd_handlers map_get_def Let_def split: option.split)
  ultimately show ?thesis
    using assms by (simp add: flags_true_def cdet.held_step cpol.held_step)
qed

lemma flags_run: "NewCRDWatcher [] eng = Inr w \<Longrightarrow> flags_true (crd_run env evs (w, []))"
  unfolding crd_run_def
proof (induction evs rule: rev_induct)
  case Nil
  then show ?case using new_watcher_empty [OF Nil] by (simp add: flags_true_def map_get_def)
qed (simp add: flags_step)

text \<open>
  C21. The status an object gets is the truth: a detector or policy is reported ready exactly if this version is valid, and
  active exactly if after the event some version of it is registered or in force.
\<close>

theorem status_tells_truth:
  assumes "NewCRDWatcher [] eng = Inr w"
  shows "(case crd_step env (clock, DetectorApplied d) (crd_run env evs (w, [])) of (w', calls) \<Rightarrow>
      \<exists>st. last calls = UpdateDetectorStatus (wd_Namespace d) (wd_Name d) st \<and>
        status_of (wdt_Conditions st) ConditionReady =
          Some (if detector_problem (ce_cel_compile env) (wd_Spec d) = None then ''True'' else ''False'') \<and>
        status_of (wdt_Conditions st) ConditionActive =
          Some (if detectors_held (w', calls) (crdKey (wd_Namespace d) (wd_Name d)) \<noteq> None then ''True'' else ''False'')) \<and>
    (case crd_step env (clock, PolicyApplied p) (crd_run env evs (w, [])) of (w', calls) \<Rightarrow>
      \<exists>st. last calls = UpdatePolicyStatus (wp_Namespace p) (wp_Name p) st \<and>
        status_of (wpt_Conditions st) ConditionReady = Some (if policy_problem (wp_Spec p) = None then ''True'' else ''False'') \<and>
        status_of (wpt_Conditions st) ConditionActive =
          Some (if policies_held (w', calls) (crdKey (wp_Namespace p) (wp_Name p)) \<noteq> None then ''True'' else ''False''))"
proof -
  let ?s = "crd_run env evs (w, [])"
  have f: "flags_true ?s" by (rule flags_run [OF assms])
  have d: "detectors_held (crd_step env (clock, DetectorApplied d) ?s) k =
      (if concerns k (detector_change env (DetectorApplied d)) then set_by (detector_change env (DetectorApplied d))
       else detectors_held ?s k)" for k
    using cdet.held_step [of env "(clock, DetectorApplied d)" ?s k] by simp
  have p: "policies_held (crd_step env (clock, PolicyApplied p) ?s) k =
      (if concerns k (policy_change (PolicyApplied p)) then set_by (policy_change (PolicyApplied p)) else policies_held ?s k)" for k
    using cpol.held_step [of env "(clock, PolicyApplied p)" ?s k] by simp
  have "case crd_step env (clock, DetectorApplied d) ?s of (w', calls) \<Rightarrow>
      \<exists>st. last calls = UpdateDetectorStatus (wd_Namespace d) (wd_Name d) st \<and>
        status_of (wdt_Conditions st) ConditionReady =
          Some (if detector_problem (ce_cel_compile env) (wd_Spec d) = None then ''True'' else ''False'') \<and>
        status_of (wdt_Conditions st) ConditionActive =
          Some (if detectors_held (w', calls) (crdKey (wd_Namespace d) (wd_Name d)) \<noteq> None then ''True'' else ''False'')"
    using d [of "crdKey (wd_Namespace d) (wd_Name d)"] f
    by (cases "detector_problem (ce_cel_compile env) (wd_Spec d)")
      (auto simp: crd_step_def handleDetector_def setDetectorReady_def setDetectorNotReady_def previous_active_def not_ready_def
        flags_true_def Let_def)
  moreover have "case crd_step env (clock, PolicyApplied p) ?s of (w', calls) \<Rightarrow>
      \<exists>st. last calls = UpdatePolicyStatus (wp_Namespace p) (wp_Name p) st \<and>
        status_of (wpt_Conditions st) ConditionReady = Some (if policy_problem (wp_Spec p) = None then ''True'' else ''False'') \<and>
        status_of (wpt_Conditions st) ConditionActive =
          Some (if policies_held (w', calls) (crdKey (wp_Namespace p) (wp_Name p)) \<noteq> None then ''True'' else ''False'')"
    using p [of "crdKey (wp_Namespace p) (wp_Name p)"] f
    by (cases "policy_problem (wp_Spec p)")
      (auto simp: crd_step_def handlePolicy_def setPolicyReady_def setPolicyNotReady_def previous_active_def not_ready_def
        flags_true_def Let_def)
  ultimately show ?thesis by blast
qed

section \<open>Witnesses\<close>

definition ex_crd_env :: crd_env where
  "ex_crd_env = \<lparr>ce_cel_compile = (\<lambda>c. if c = ''true'' then None else Some ''syntax error''), ce_tmpl_parse = (\<lambda>_ _. None)\<rparr>"

definition ex_policy_engine :: Engine where
  "ex_policy_engine = \<lparr>eng_globalConfig = \<lparr>gfc_ExcludeNamespaces = [], gfc_ExcludeNamespaceSelector = None\<rparr>,
     eng_compiledPatterns = [], eng_policies = []\<rparr>"

definition ex_detector :: "string \<Rightarrow> WormsignDetector" where
  "ex_detector cond = \<lparr>wd_Namespace = ''shop'', wd_Name = ''d'',
     wd_Spec = \<lparr>wds_Description = [], wds_Resource = ''pods'', wds_NamespaceSelector = None, wds_Condition = cond, wds_Params = None,
        wds_Severity = SeverityWarning, wds_Cooldown = []\<rparr>,
     wd_Status = \<lparr>wdt_Conditions = [], wdt_MatchedNamespaces = 0, wdt_LastFired = None, wdt_FaultEventsTotal = 0\<rparr>\<rparr>"

definition ex_policy :: WormsignPolicy where
  "ex_policy = \<lparr>wp_Namespace = ''shop'', wp_Name = ''quiet'',
     wp_Spec = \<lparr>wps_Action = ''Suppress'', wps_Detectors = [], wps_NamespaceSelector = None, wps_Match = None, wps_Schedule = None\<rparr>,
     wp_Status = \<lparr>wpt_Conditions = [], wpt_MatchedResources = 0, wpt_LastEvaluated = None\<rparr>\<rparr>"

definition ex_crd_events :: "((nat \<Rightarrow> gotime) \<times> crd_event) list" where
  "ex_crd_events = [(\<lambda>_. 0, DetectorApplied (ex_detector ''true'')), (\<lambda>_. 1, PolicyApplied ex_policy),
     (\<lambda>_. 2, DetectorApplied (ex_detector ''broken''))]"

definition ex_crd_watcher :: CRDWatcher where
  "ex_crd_watcher = \<lparr>cw_filterEngine = ex_policy_engine, cw_validDetectors = [], cw_validGatherers = [], cw_validSinks = [],
     cw_validPolicies = [], cw_policyStore = []\<rparr>"

lemma ex_crd_new: "NewCRDWatcher [] ex_policy_engine = Inr ex_crd_watcher"
  by (simp add: NewCRDWatcher_def ex_crd_watcher_def)

lemma ex_detector_problem: "detector_problem (ce_cel_compile ex_crd_env) (wd_Spec (ex_detector c)) = None \<longleftrightarrow> c = ''true''"
  by (simp add: detector_problem_def ex_crd_env_def ex_detector_def valid_severity_def)

lemma ex_policy_force: "policy_in_force ex_crd_events ''shop/quiet'' = Some ex_policy"
  by (simp add: ex_crd_events_def ex_policy_def policy_problem_def PolicyActionSuppress_def PolicyActionExclude_def crdKey_def
      last_change_def)

lemma watcher_keeps_last_valid_witness:
  "detectors_held (crd_run ex_crd_env ex_crd_events (ex_crd_watcher, [])) ''shop/d'' = Some (registered_detector (ex_detector ''true''))"
proof -
  have a: "detector_change ex_crd_env (DetectorApplied (ex_detector ''true'')) = Sets ''shop/d'' (registered_detector (ex_detector ''true''))"
    by (simp add: ex_detector_problem) (simp add: ex_detector_def crdKey_def)
  have b: "detector_change ex_crd_env (DetectorApplied (ex_detector ''broken'')) = Keeps"
    by (simp add: ex_detector_problem)
  have "last_change ''shop/d'' (map (detector_change ex_crd_env \<circ> snd) ex_crd_events) =
      Some (registered_detector (ex_detector ''true''))"
    by (simp add: ex_crd_events_def last_change_def a b del: detector_change.simps(1))
  then show ?thesis using watcher_keeps_last_valid [OF ex_crd_new, of ex_crd_env ex_crd_events "''shop/d''"] by simp
qed

lemma engine_policies_current_witness:
  "\<exists>ps. eng_policies (cw_filterEngine (fst (crd_run ex_crd_env ex_crd_events (ex_crd_watcher, [])))) = ps \<and> ps \<noteq> []"
proof -
  have "eng_policies ex_policy_engine = []" by (simp add: ex_policy_engine_def)
  note e = engine_policies_current [OF ex_crd_new this, of ex_crd_env ex_crd_events]
  have k: "''shop/quiet'' \<in> {k. policy_in_force ex_crd_events k \<noteq> None}" using ex_policy_force by simp
  have "{k. policy_in_force ex_crd_events k \<noteq> None} \<subseteq> {''shop/quiet''}"
    by (auto simp: ex_crd_events_def ex_policy_def policy_problem_def PolicyActionSuppress_def PolicyActionExclude_def crdKey_def
        last_change_def split: if_splits)
  then have "finite {k. policy_in_force ex_crd_events k \<noteq> None}" using finite_subset by blast
  with k have "sorted_list_of_set {k. policy_in_force ex_crd_events k \<noteq> None} \<noteq> []"
    by (metis empty_iff sorted_list_of_set.sorted_key_list_of_set_eq_Nil_iff)
  then show ?thesis unfolding e by simp
qed

definition ex_event_input :: FilterInput where
  "ex_event_input = \<lparr>fi_DetectorName = ''PodFailed'',
     fi_Resource = \<lparr>rm_Kind = ''Pod'', rm_Namespace = ''shop'', rm_Name = ''p'', rm_UID = ''u'', rm_Labels = None, rm_Annotations = None\<rparr>,
     fi_Namespace = \<lparr>nm_Name = ''shop'', nm_Labels = None, nm_Annotations = None\<rparr>, fi_Owners = []\<rparr>"

lemma policy_resources_effective_witness:
  "fr_Excluded (Evaluate 0 (cw_filterEngine (fst (crd_run ex_crd_env ex_crd_events (ex_crd_watcher, [])))) ex_event_input)"
proof -
  have "eng_policies ex_policy_engine = []" by (simp add: ex_policy_engine_def)
  moreover have "wp_Name p \<noteq> []" if "PolicyApplied p \<in> snd ` set ex_crd_events" for p
    using that by (auto simp: ex_crd_events_def ex_policy_def)
  moreover have "suppressing 0 ex_event_input (convertToFilterPolicy ex_policy)"
    by (simp add: suppressing_def covers_def policyAppliesToNamespace_def convertToFilterPolicy_def convertLabelSelector_def
        ex_policy_def ex_event_input_def)
  ultimately show ?thesis
    using policy_resources_effective [OF ex_crd_new _ _ refl, where env = ex_crd_env and evs = ex_crd_events and now = 0 and
        input = ex_event_input and k = "''shop/quiet''" and p = ex_policy] ex_policy_force
    by blast
qed

lemma status_tells_truth_witness:
  "\<exists>st. last (snd (crd_step ex_crd_env (\<lambda>_. 3, DetectorApplied (ex_detector ''broken'')) (crd_run ex_crd_env ex_crd_events (ex_crd_watcher, [])))) =
     UpdateDetectorStatus ''shop'' ''d'' st \<and> status_of (wdt_Conditions st) ConditionReady = Some ''False''"
  using conjunct1 [OF status_tells_truth [OF ex_crd_new, where env = ex_crd_env and clock = "\<lambda>_. 3" and
        d = "ex_detector ''broken''" and evs = ex_crd_events and p = ex_policy]]
    ex_detector_problem [of "''broken''"]
  by (auto simp: split_beta ex_detector_def)

end
