(* ===== verification/Spec2Isabelle.thy ===== *)
theory Spec2Isabelle
  imports Base_Detector Detectors Filter_Engine Correlator Priority_Queue Analyzers Gatherers Shard_Manager
    Pipeline Rules_Analyzer Registries Sinks Config Informer_Manager Health Detector_Bridge Controller
    Crd_Watcher
begin

text \<open>
  Wormsign: a verification development.

  Wormsign is a Kubernetes controller, written in Go, that watches a cluster for faults, groups related
  faults, gathers diagnostics, has them analyzed and delivers reports. The sources are under
  \<open>src/internal\<close>; every name below is a file of that directory.

  The program. A detector (\<open>detector/*.go\<close>) looks at the state of a resource and, if the resource has been
  unhealthy for long enough and its cooldown has passed (\<open>detector/base.go\<close>), emits a fault event
  (\<open>model/types.go\<close>). The pipeline (\<open>pipeline/pipeline.go\<close>) asks the filter engine (\<open>filter/engine.go\<close>)
  whether the event is excluded and otherwise submits it to the correlator (\<open>pipeline/correlator\<close>), which
  collects the events of a time window and turns groups of them into super-events. Super-events and single
  events wait in a queue for the gathering workers, which run the gatherers (\<open>gatherer/gatherer.go\<close>) and put
  a bundle into the priority queue of the analysis stage (\<open>pipeline/queue/queues.go\<close>). The analysis workers
  call an analyzer (\<open>analyzer/*.go\<close>), and the sink workers deliver the report. In a deployment with several
  replicas the shard manager (\<open>shard/manager.go\<close>) divides the namespaces with a consistent hash
  (\<open>shard/hasher.go\<close>).

  The theories, in the order of their imports:

  \<^item> \<open>Go_Float\<close>: binary64 arithmetic as far as the sources need it; a finite float is the rational number
    that it denotes, and \<open>f64\<close> rounds.
  \<^item> \<open>Go_Prelude\<close>: integers of Go with their wrap-around, maps as association lists, strings as lists of
    bytes, the functions of package \<open>strings\<close> and \<open>time\<close> that the sources call, and the lemmas about runs of a
    state machine that the components share.
  \<^item> \<open>Go_Regex\<close>: regular expressions as syntax trees, a matcher with the preferences of package \<open>regexp\<close>,
    their meaning as an inductive relation, and the proof that the matcher is sound and complete for it.
  \<^item> \<open>Model\<close>: \<open>model/types.go\<close>, the events, bundles and reports and their constructors.
  \<^item> \<open>Base_Detector\<close>, \<open>Detectors\<close>: the cooldown gate and the seven built-in detectors. The locale
    \<open>cooldown_gate\<close> is what a detector relies on; it is interpreted by \<open>Emit\<close> and by every \<open>Check\<close>.
  \<^item> \<open>Glob\<close>, \<open>Filter_Engine\<close>: the nine levels of \<open>Evaluate\<close>; the regular expressions a user configures are a
    parameter.
  \<^item> \<open>Correlator\<close>: the window buffer, the four rules and the loop \<open>Run\<close>. The order in which Go ranges over a
    map is a parameter; every theorem holds for all orders.
  \<^item> \<open>Priority_Queue\<close>: the queue of three slices with its condition variable, refined to an abstract stable
    priority queue, and the interleavings of its workers as a step relation.
  \<^item> \<open>Analyzers\<close>: the no-op analyzer, the circuit breaker (also with concurrent requests as a step relation)
    and the rate limiter. The locale \<open>analyzer\<close> is the interface of a backend; the three wrappers and the
    rules analyzer are instances.
  \<^item> \<open>Gatherers\<close>: trigger matching, the concurrent run of all gatherers for every order of completion, and
    the sampling of a super-event.
  \<^item> \<open>Pipeline\<close>: the composition of the stages. The client-go work queues are a parameter whose laws are those
    of the interface \<open>workqueue\<close>; the locale \<open>stage_queue\<close> is what a stage relies on. The workers interleave
    as the step relation \<open>pipeline_step\<close>.
  \<^item> \<open>Rules_Signals\<close>, \<open>Rules_Analyzer\<close>: \<open>analyzer/rules.go\<close>, the parsers of the gathered text and the rules.
  \<^item> \<open>Response\<close>: \<open>analyzer/response.go\<close>, the validation of a language model's answer.
  \<^item> \<open>Shard_Hash\<close>, \<open>Shard_Manager\<close>: jump hash with its float arithmetic, the coordinator, the followers and
    the ConfigMap they exchange.

  \<^item> \<open>Informer_Manager\<close>: \<open>shard/informer_manager.go\<close> and \<open>shard/replica_watcher.go\<close>; what the manager
    does to client-go is the list of its calls, and the goroutines that apply shard maps interleave as
    \<open>watch_step\<close>.
  \<^item> \<open>Registries\<close>, \<open>Sinks\<close>: the three registries as instances of the locale \<open>registry\<close>; retries, the check
    against server-side request forgery, the payloads of the sinks and the delivery to all of them.
  \<^item> \<open>Config\<close>: \<open>config/*.go\<close> except the watcher of custom resources: settings, defaults, validation, loading.
  \<^item> \<open>Health\<close>: \<open>health/handler.go\<close>, the probes.
  \<^item> \<open>Detector_Bridge\<close>: \<open>controller/detectors.go\<close>, which turns Kubernetes objects into the states the detectors
    check and the detectors' events into submissions to the pipeline. A replica is the informer manager, the
    bridge and the calls to client-go, and its runs are lists of events (shard changes, objects, scans).
  \<^item> \<open>Controller\<close>: \<open>controller/controller.go\<close>, \<open>controller/leader.go\<close> and \<open>cmd/controller/main.go\<close>: what is built from
    a configuration and when that fails, leadership, the shutdown, the exit code. Its theorems compose the other
    components.
  \<^item> \<open>Crd_Watcher\<close>: \<open>config/crd_watcher.go\<close> with the types of \<open>api/v1alpha1\<close>. The four kinds of resources are
    instances of the locale \<open>crd_kind\<close>: what is registered is the last valid version since the last deletion.

  Conventions. A struct is a record, an error is the left side of a sum or \<open>None\<close>, a panic is a value of its
  own. The clock, random bytes, the Kubernetes API, JSON and the answer of a remote service are arguments.
  Loggers are left out; the metrics that a function records are part of its result where the pipeline is
  concerned. Mutexes make the operations of a component atomic; where the code releases a lock in the middle
  of an operation, or several goroutines run, the interleavings are those of a step relation. Loops are
  structural recursion, except the jump hash, whose termination is proved by a measure; no definition uses
  fuel, except the repetition of the regular-expression matcher, which iterates at most as often as the text is
  long because an iteration that matches the empty text is not repeated.

  What is proved, by kind: conservation of events through the correlator and through the pipeline for all
  interleavings; that the pipeline drains; that the queue refines its specification and loses no wakeup; that
  detectors keep their cooldown; which filter level decides; when the circuit breaker is closed; that budgets
  are enforced; that every report is sane; that namespaces are assigned to exactly one replica and that
  scaling moves only what it must; and several behaviours that the comments of the code do not promise or
  contradict (an event submitted after the loop stopped, an item lost when a stage is shut down, dead log
  patterns, images that are never attached).

  Across components: a validated configuration starts the controller up to three named exceptions; what the
  bridge submits is sound, and which filter levels and correlation rules can apply to it; the informers follow the
  shard assignment with one goroutine and not with two; the informers the bridge wires are never stopped;
  the scan reports every pod that is pending too long; what a shutdown still delivers.

  Not modelled: the prompt texts and the HTTP clients of the language models; the gatherers for single resources and
  the redaction of their text; the CEL evaluator; secrets; the registration of
  metrics; the generated code of the API types; the start of goroutines and servers.
\<close>

end
